(* ===== verification/Prelude.thy ===== *)
theory Prelude
  imports Main "HOL-Library.Char_ord" "HOL-Library.List_Lexorder"
begin

text \<open>
  Shared ground of the development: the fact collections the component proofs draw on, the type
  abbreviations that name fallible and stateful computations, and the generic lemmas on lists,
  maps and sums that more than one component uses.
\<close>

section \<open>Fact collections\<close>

text \<open>\<open>go_eval\<close> gathers the equations that evaluate string and byte operations on closed
  terms; \<open>model_defs\<close> gathers definitions that proofs unfold together.\<close>

named_theorems go_eval
named_theorems model_defs

section \<open>Results and stateful operations\<close>

text \<open>
  A Go function that returns \<open>(T, error)\<close> is a value of \<open>'e + 'a\<close>: \<open>Inl\<close> the error,
  \<open>Inr\<close> the value. An operation on a mutable state takes the state and returns it updated.
\<close>

definition is_ok :: "'e + 'a \<Rightarrow> bool" where
  "is_ok r = (case r of Inl _ \<Rightarrow> False | Inr _ \<Rightarrow> True)"

lemma is_ok_simps [simp]: "\<not> is_ok (Inl e)" "is_ok (Inr a)"
  by (simp_all add: is_ok_def)

lemma is_ok_iff: "is_ok r \<longleftrightarrow> (\<exists>a. r = Inr a)"
  by (cases r) simp_all

text \<open>The loop that maps a fallible function over a list and stops at the first error.\<close>

fun map_res :: "('a \<Rightarrow> 'e + 'b) \<Rightarrow> 'a list \<Rightarrow> 'e + 'b list" where
  "map_res f [] = Inr []"
| "map_res f (x # xs) =
     (case f x of Inl e \<Rightarrow> Inl e
      | Inr y \<Rightarrow> (case map_res f xs of Inl e \<Rightarrow> Inl e | Inr ys \<Rightarrow> Inr (y # ys)))"

lemma map_res_Inr_iff:
  "map_res f xs = Inr ys \<longleftrightarrow> list_all2 (\<lambda>x y. f x = Inr y) xs ys"
proof (induction xs arbitrary: ys)
  case Nil
  then show ?case by auto
next
  case (Cons x xs)
  show ?case
  proof (cases "f x")
    case (Inl e)
    then show ?thesis by (auto simp: list_all2_Cons1)
  next
    case (Inr y)
    then show ?thesis
      by (cases "map_res f xs") (auto simp: list_all2_Cons1 Cons.IH [symmetric])
  qed
qed

lemma map_res_Inl_iff:
  "map_res f xs = Inl e \<longleftrightarrow>
     (\<exists>us x vs ws. xs = us @ x # vs \<and> map_res f us = Inr ws \<and> f x = Inl e)"
proof (induction xs)
  case Nil
  then show ?case by simp
next
  case (Cons a xs)
  show ?case
  proof (cases "f a")
    case (Inl d)
    have "(\<exists>us x vs ws. a # xs = us @ x # vs \<and> map_res f us = Inr ws \<and> f x = Inl e) \<longleftrightarrow> d = e"
      (is "?L \<longleftrightarrow> _")
    proof
      assume ?L
      then obtain us x vs ws where *: "a # xs = us @ x # vs" "map_res f us = Inr ws" "f x = Inl e"
        by blast
      then have "us = []" using Inl by (cases us) auto
      with * Inl show "d = e" by simp
    next
      assume "d = e"
      with Inl have "a # xs = [] @ a # xs \<and> map_res f [] = Inr [] \<and> f a = Inl e" by simp
      then show ?L by blast
    qed
    with Inl show ?thesis by simp
  next
    case (Inr b)
    have "(\<exists>us x vs ws. a # xs = us @ x # vs \<and> map_res f us = Inr ws \<and> f x = Inl e) \<longleftrightarrow>
          (\<exists>us x vs ws. xs = us @ x # vs \<and> map_res f us = Inr ws \<and> f x = Inl e)" (is "?L \<longleftrightarrow> ?R")
    proof
      assume ?L
      then obtain us x vs ws where *: "a # xs = us @ x # vs" "map_res f us = Inr ws" "f x = Inl e"
        by blast
      then obtain us' where "us = a # us'" using Inr by (cases us) auto
      with * Inr show ?R by (auto split: sum.splits)
    next
      assume ?R
      then obtain us x vs ws where *: "xs = us @ x # vs" "map_res f us = Inr ws" "f x = Inl e"
        by blast
      then have "a # xs = (a # us) @ x # vs \<and> map_res f (a # us) = Inr (b # ws) \<and> f x = Inl e"
        using Inr by simp
      then show ?L by blast
    qed
    with Inr Cons.IH show ?thesis by (auto split: sum.splits)
  qed
qed

lemma map_res_total: "(\<And>x. x \<in> set xs \<Longrightarrow> f x = Inr (g x)) \<Longrightarrow> map_res f xs = Inr (map g xs)"
  by (induction xs) auto

section \<open>Lists and sets of strings\<close>

lemma sorted_list_of_set_strings [simp]:
  "sorted_list_of_set (set xs) = sort (remdups (xs :: string list))"
  by (rule sorted_list_of_set_sort_remdups)

lemma last_in_filter: "filter P xs \<noteq> [] \<Longrightarrow> last (filter P xs) \<in> set xs"
  using last_in_set [of "filter P xs"] by auto

end
