(* ===== verification/Go_Strings.thy ===== *)
theory Go_Strings
  imports Prelude
begin

text \<open>
  What the connector uses of Go's \<open>strings\<close>, \<open>unicode/utf8\<close>, \<open>sort\<close> and \<open>strconv\<close>
  packages. A Go string is a sequence of bytes, so it is modelled as a \<^typ>\<open>string\<close>, whose
  characters are bytes. Functions that work on runes decode UTF-8 first, an invalid byte giving
  the replacement rune with width one, as \<open>utf8.DecodeRune\<close> does. The case tables of package
  \<open>unicode\<close> are a parameter for runes beyond ASCII (record \<open>unicode_tables\<close>); everything the
  connector relies on is decided by the ASCII part, which is written out.
\<close>

section \<open>Bytes, prefixes and searching\<close>

abbreviation byte :: "char \<Rightarrow> nat" where
  "byte c \<equiv> of_char c"

definition has_prefix :: "string \<Rightarrow> string \<Rightarrow> bool" where
  "has_prefix s p = (take (length p) s = p)"

definition has_suffix :: "string \<Rightarrow> string \<Rightarrow> bool" where
  "has_suffix s p = has_prefix (rev s) (rev p)"

text \<open>\<open>strings.Index\<close>: the position of the first occurrence, \<open>None\<close> for -1.\<close>

fun go_index :: "string \<Rightarrow> string \<Rightarrow> nat option" where
  "go_index [] p = (if p = [] then Some 0 else None)"
| "go_index (c # s) p =
     (if has_prefix (c # s) p then Some 0 else map_option Suc (go_index s p))"

definition go_contains :: "string \<Rightarrow> string \<Rightarrow> bool" where
  "go_contains s p = (go_index s p \<noteq> None)"

text \<open>\<open>strings.IndexAny\<close> for an ASCII set of characters.\<close>

fun go_index_any :: "string \<Rightarrow> char list \<Rightarrow> nat option" where
  "go_index_any [] cs = None"
| "go_index_any (c # s) cs = (if c \<in> set cs then Some 0 else map_option Suc (go_index_any s cs))"

definition trim_prefix :: "string \<Rightarrow> string \<Rightarrow> string" where
  "trim_prefix s p = (if has_prefix s p then drop (length p) s else s)"

text \<open>\<open>strings.TrimRight\<close> with an ASCII cutset.\<close>

definition trim_right :: "string \<Rightarrow> char list \<Rightarrow> string" where
  "trim_right s cs = rev (dropWhile (\<lambda>c. c \<in> set cs) (rev s))"

text \<open>\<open>strings.Cut\<close> at a one-byte separator: what is before, what is after, and whether the
  separator was found.\<close>

fun go_cut :: "string \<Rightarrow> char \<Rightarrow> string \<times> string \<times> bool" where
  "go_cut [] d = ([], [], False)"
| "go_cut (c # s) d =
     (if c = d then ([], s, True) else (case go_cut s d of (a, b, f) \<Rightarrow> (c # a, b, f)))"

fun go_join :: "string list \<Rightarrow> string \<Rightarrow> string" where
  "go_join [] sep = []"
| "go_join [x] sep = x"
| "go_join (x # y # xs) sep = x @ sep @ go_join (y # xs) sep"

text \<open>\<open>sort.Strings\<close> sorts by bytes, which is the lexicographic order of the library on
  lists of characters. A \<open>map[string]struct{}\<close> used as a set is a finite set; ranging over it
  and sorting gives the sorted list of its elements.\<close>

definition sort_strings :: "string list \<Rightarrow> string list" where
  "sort_strings xs = sort xs"

definition sorted_keys :: "string set \<Rightarrow> string list" where
  "sorted_keys S = sorted_list_of_set S"

lemma has_prefix_append [simp]: "has_prefix (p @ s) p"
  by (simp add: has_prefix_def)

lemma has_prefixD: "has_prefix s p \<Longrightarrow> s = p @ drop (length p) s"
  unfolding has_prefix_def by (metis append_take_drop_id)

lemma has_prefix_iff: "has_prefix s p \<longleftrightarrow> (\<exists>t. s = p @ t)"
  using has_prefixD by auto

lemma trim_prefix_append [simp]: "trim_prefix (p @ s) p = s"
  by (simp add: trim_prefix_def)

lemma go_index_SomeD:
  "go_index s p = Some n \<Longrightarrow> \<exists>t. s = take n s @ p @ t \<and> n \<le> length s"
proof (induction s p arbitrary: n rule: go_index.induct)
  case (1 p)
  then show ?case by (auto split: if_splits)
next
  case (2 c s p)
  show ?case
  proof (cases "has_prefix (c # s) p")
    case True
    with "2.prems" have "n = 0" by simp
    with True show ?thesis by (metis append_Nil has_prefix_iff take_0 zero_le)
  next
    case False
    with "2.prems" obtain m where m: "go_index s p = Some m" "n = Suc m" by auto
    from "2.IH" [OF False m(1)] m(2) show ?thesis by auto
  qed
qed

lemma go_index_None: "go_index s p = None \<Longrightarrow> s \<noteq> us @ p @ vs"
proof (induction s p arbitrary: us rule: go_index.induct)
  case (1 p)
  then show ?case by (auto split: if_splits)
next
  case (2 c s p)
  then have np: "\<not> has_prefix (c # s) p" and rec: "go_index s p = None" by (auto split: if_splits)
  show ?case
  proof (cases us)
    case Nil
    with np show ?thesis by (auto simp: has_prefix_iff)
  next
    case (Cons a us')
    with "2.IH" [OF np rec] show ?thesis by auto
  qed
qed

lemma go_contains_iff: "go_contains s p \<longleftrightarrow> (\<exists>us vs. s = us @ p @ vs)"
proof
  assume "go_contains s p"
  then obtain n where "go_index s p = Some n" by (auto simp: go_contains_def)
  then show "\<exists>us vs. s = us @ p @ vs" by (blast dest: go_index_SomeD)
next
  assume "\<exists>us vs. s = us @ p @ vs"
  then obtain us vs where "s = us @ p @ vs" by blast
  then show "go_contains s p" unfolding go_contains_def using go_index_None by blast
qed

lemma go_index_any_None: "go_index_any s cs = None \<longleftrightarrow> set s \<inter> set cs = {}"
  by (induction s) auto

lemma go_index_any_Some:
  "go_index_any s cs = Some n \<Longrightarrow> n < length s \<and> s ! n \<in> set cs \<and> set (take n s) \<inter> set cs = {}"
proof (induction s arbitrary: n)
  case Nil
  then show ?case by simp
next
  case (Cons c s)
  then show ?case by (cases "c \<in> set cs") auto
qed

lemma go_index_any_append:
  "set us \<inter> set cs = {} \<Longrightarrow>
     go_index_any (us @ vs) cs = map_option (\<lambda>n. length us + n) (go_index_any vs cs)"
  by (induction us; cases "go_index_any vs cs") auto

lemma go_cut_no_sep: "d \<notin> set s \<Longrightarrow> go_cut s d = (s, [], False)"
  by (induction s) auto

lemma go_cut_sep: "d \<notin> set s \<Longrightarrow> go_cut (s @ d # t) d = (s, t, True)"
  by (induction s) auto

lemma sorted_keys_set [simp]: "finite S \<Longrightarrow> set (sorted_keys S) = S"
  by (simp add: sorted_keys_def)

lemma sorted_keys_sorted: "sorted (sorted_keys S)"
  by (simp add: sorted_keys_def)

lemma sorted_keys_distinct: "distinct (sorted_keys S)"
  by (simp add: sorted_keys_def)

lemma sorted_keys_inject: "finite S \<Longrightarrow> finite T \<Longrightarrow> sorted_keys S = sorted_keys T \<Longrightarrow> S = T"
  by (metis sorted_keys_set)

section \<open>Runes\<close>

text \<open>The case tables of package \<open>unicode\<close>, for runes that are not ASCII.\<close>

record unicode_tables =
  uc_upper :: "nat \<Rightarrow> nat"
  uc_lower :: "nat \<Rightarrow> nat"
  uc_same_fold :: "nat \<Rightarrow> nat \<Rightarrow> bool"

definition rune_error :: nat where
  "rune_error = 65533"

text \<open>\<open>utf8.DecodeRune\<close>: the rune at the head of a string and its width. The ranges of the
  second byte exclude overlong encodings and surrogates.\<close>

definition cont_byte :: "nat \<Rightarrow> bool" where
  "cont_byte b = (128 \<le> b \<and> b < 192)"

definition second_byte_ok :: "nat \<Rightarrow> nat \<Rightarrow> bool" where
  "second_byte_ok b0 b1 =
     (if b0 = 224 then 160 \<le> b1 \<and> b1 < 192
      else if b0 = 237 then 128 \<le> b1 \<and> b1 < 160
      else if b0 = 240 then 144 \<le> b1 \<and> b1 < 192
      else if b0 = 244 then 128 \<le> b1 \<and> b1 < 144
      else cont_byte b1)"

definition decode_rune :: "string \<Rightarrow> nat \<times> nat" where
  "decode_rune s =
     (case s of [] \<Rightarrow> (rune_error, 0)
      | c # t \<Rightarrow>
        let b0 = byte c in
        if b0 < 128 then (b0, 1)
        else if 194 \<le> b0 \<and> b0 < 224 then
          (case t of c1 # _ \<Rightarrow>
             if cont_byte (byte c1) then ((b0 - 192) * 64 + (byte c1 - 128), 2)
             else (rune_error, 1)
           | _ \<Rightarrow> (rune_error, 1))
        else if 224 \<le> b0 \<and> b0 < 240 then
          (case t of c1 # c2 # _ \<Rightarrow>
             if second_byte_ok b0 (byte c1) \<and> cont_byte (byte c2)
             then ((b0 - 224) * 4096 + (byte c1 - 128) * 64 + (byte c2 - 128), 3)
             else (rune_error, 1)
           | _ \<Rightarrow> (rune_error, 1))
        else if 240 \<le> b0 \<and> b0 < 245 then
          (case t of c1 # c2 # c3 # _ \<Rightarrow>
             if second_byte_ok b0 (byte c1) \<and> cont_byte (byte c2) \<and> cont_byte (byte c3)
             then ((b0 - 240) * 262144 + (byte c1 - 128) * 4096
                   + (byte c2 - 128) * 64 + (byte c3 - 128), 4)
             else (rune_error, 1)
           | _ \<Rightarrow> (rune_error, 1))
        else (rune_error, 1))"

text \<open>An invalid byte decodes to the replacement rune with width one.\<close>

definition rune_bad :: "nat \<Rightarrow> nat \<Rightarrow> bool" where
  "rune_bad r w = (r = rune_error \<and> w = 1)"

text \<open>\<open>utf8.AppendRune\<close>; surrogates and values out of range become the replacement rune.\<close>

definition encode_rune :: "nat \<Rightarrow> string" where
  "encode_rune r0 =
     (let r = (if (55296 \<le> r0 \<and> r0 < 57344) \<or> 1114112 \<le> r0 then rune_error else r0) in
      if r < 128 then [char_of r]
      else if r < 2048 then [char_of (192 + r div 64), char_of (128 + r mod 64)]
      else if r < 65536 then
        [char_of (224 + r div 4096), char_of (128 + r div 64 mod 64), char_of (128 + r mod 64)]
      else
        [char_of (240 + r div 262144), char_of (128 + r div 4096 mod 64),
         char_of (128 + r div 64 mod 64), char_of (128 + r mod 64)])"

text \<open>The runes of a string, each with the bytes it was decoded from.\<close>

fun runes :: "string \<Rightarrow> (nat \<times> string) list" where
  "runes [] = []"
| "runes (c # s) =
     (let (r, w) = decode_rune (c # s)
      in (r, take w (c # s)) # runes (drop (w - 1) s))"

definition is_space :: "nat \<Rightarrow> bool" where
  "is_space r =
     (r \<in> {9, 10, 11, 12, 13, 32, 133, 160, 5760, 8232, 8233, 8239, 8287, 12288}
      \<or> (8192 \<le> r \<and> r \<le> 8202))"

text \<open>\<open>strings.TrimSpace\<close>.\<close>

definition trim_space :: "string \<Rightarrow> string" where
  "trim_space s =
     concat (map snd (rev (dropWhile (is_space \<circ> fst)
                       (rev (dropWhile (is_space \<circ> fst) (runes s))))))"

definition rune_upper :: "unicode_tables \<Rightarrow> nat \<Rightarrow> nat" where
  "rune_upper U r = (if r < 128 then (if 97 \<le> r \<and> r \<le> 122 then r - 32 else r) else uc_upper U r)"

definition rune_lower :: "unicode_tables \<Rightarrow> nat \<Rightarrow> nat" where
  "rune_lower U r = (if r < 128 then (if 65 \<le> r \<and> r \<le> 90 then r + 32 else r) else uc_lower U r)"

definition to_upper :: "unicode_tables \<Rightarrow> string \<Rightarrow> string" where
  "to_upper U s = concat (map (\<lambda>(r, _). encode_rune (rune_upper U r)) (runes s))"

definition to_lower :: "unicode_tables \<Rightarrow> string \<Rightarrow> string" where
  "to_lower U s = concat (map (\<lambda>(r, _). encode_rune (rune_lower U r)) (runes s))"

text \<open>\<open>strings.EqualFold\<close>: rune by rune, ASCII letters compared without case.\<close>

definition rune_fold_eq :: "unicode_tables \<Rightarrow> nat \<Rightarrow> nat \<Rightarrow> bool" where
  "rune_fold_eq U r q =
     (r = q \<or> (if r < 128 \<and> q < 128 then rune_lower U r = rune_lower U q else uc_same_fold U r q))"

definition equal_fold :: "unicode_tables \<Rightarrow> string \<Rightarrow> string \<Rightarrow> bool" where
  "equal_fold U s t = list_all2 (rune_fold_eq U) (map fst (runes s)) (map fst (runes t))"

subsection \<open>Strings of ASCII bytes\<close>

definition ascii :: "string \<Rightarrow> bool" where
  "ascii s = list_all (\<lambda>c. byte c < 128) s"

lemma ascii_simps [simp]:
  "ascii []" "ascii (c # s) \<longleftrightarrow> byte c < 128 \<and> ascii s" "ascii (s @ t) \<longleftrightarrow> ascii s \<and> ascii t"
  by (simp_all add: ascii_def)

lemma runes_ascii: "ascii s \<Longrightarrow> runes s = map (\<lambda>c. (byte c, [c])) s"
  by (induction s) (simp_all add: decode_rune_def)

definition upper_byte :: "char \<Rightarrow> char" where
  "upper_byte c = (if 97 \<le> byte c \<and> byte c \<le> 122 then char_of (byte c - 32) else c)"

lemma encode_rune_ascii: "r < 128 \<Longrightarrow> encode_rune r = [char_of r]"
  by (simp add: encode_rune_def)

lemma to_upper_ascii: "ascii s \<Longrightarrow> to_upper U s = map upper_byte s"
proof -
  have single: "encode_rune (rune_upper U (byte c)) = [upper_byte c]" if "byte c < 128" for c
    using that by (simp add: rune_upper_def upper_byte_def encode_rune_ascii)
  assume a: "ascii s"
  then have "concat (map (\<lambda>c. encode_rune (rune_upper U (byte c))) s) = map upper_byte s"
    using single by (induction s) simp_all
  with a show ?thesis by (simp add: to_upper_def runes_ascii o_def)
qed

lemma trim_space_ascii:
  assumes "ascii s"
  shows "trim_space s =
     rev (dropWhile (\<lambda>c. is_space (byte c)) (rev (dropWhile (\<lambda>c. is_space (byte c)) s)))"
proof -
  let ?g = "\<lambda>c. (byte c, [c])"
  have "concat (map snd (map ?g t)) = t" for t
    by (induction t) simp_all
  then show ?thesis using assms
    by (simp add: trim_space_def runes_ascii dropWhile_map rev_map o_def del: map_map)
qed

lemma equal_fold_refl [simp]: "equal_fold U s s"
  by (simp add: equal_fold_def list_all2_refl rune_fold_eq_def)

section \<open>Decimal numbers\<close>

text \<open>\<open>strconv.Itoa\<close> and the digits it prints.\<close>

definition digit_char :: "nat \<Rightarrow> char" where
  "digit_char d = char_of (48 + d)"

fun nat_digits :: "nat \<Rightarrow> string" where
  "nat_digits n = (if n < 10 then [digit_char n] else nat_digits (n div 10) @ [digit_char (n mod 10)])"

declare nat_digits.simps [simp del]

definition itoa :: "int \<Rightarrow> string" where
  "itoa i = (if i < 0 then CHR ''-'' # nat_digits (nat (- i)) else nat_digits (nat i))"

definition is_digit :: "char \<Rightarrow> bool" where
  "is_digit c = (48 \<le> byte c \<and> byte c \<le> 57)"

definition digit_val :: "char \<Rightarrow> nat" where
  "digit_val c = byte c - 48"

definition digits_val :: "string \<Rightarrow> nat" where
  "digits_val s = foldl (\<lambda>n c. 10 * n + digit_val c) 0 s"

lemma is_digit_digit_char [simp]: "d < 10 \<Longrightarrow> is_digit (digit_char d)"
  by (simp add: is_digit_def digit_char_def)

lemma digit_val_digit_char [simp]: "d < 10 \<Longrightarrow> digit_val (digit_char d) = d"
  by (simp add: digit_val_def digit_char_def)

lemma digits_val_snoc: "digits_val (s @ [c]) = 10 * digits_val s + digit_val c"
  by (simp add: digits_val_def)

lemma nat_digits_all_digits: "list_all is_digit (nat_digits n)"
proof (induction n rule: nat_digits.induct)
  case (1 n)
  then show ?case by (cases "n < 10") (simp_all add: nat_digits.simps [of n])
qed

lemma nat_digits_nonempty [simp]: "nat_digits n \<noteq> []"
  by (subst nat_digits.simps) simp

lemma digits_val_nat_digits [simp]: "digits_val (nat_digits n) = n"
proof (induction n rule: nat_digits.induct)
  case (1 n)
  show ?case
  proof (cases "n < 10")
    case True
    then show ?thesis by (simp add: nat_digits.simps [of n] digits_val_def)
  next
    case False
    with 1 have "digits_val (nat_digits (n div 10)) = n div 10" by simp
    with False show ?thesis by (simp add: nat_digits.simps [of n] digits_val_snoc)
  qed
qed

end
