(* ===== verification/Go_Time.thy ===== *)
theory Go_Time
  imports Go_Strings
begin

text \<open>
  What the connector uses of Go's \<open>time\<close> package and of protobuf timestamps. A \<open>time.Time\<close>
  is an instant, counted in nanoseconds from January 1 of year 1 UTC (the zero \<open>Time\<close>), together
  with the offset of its location in seconds; \<open>After\<close>, \<open>Before\<close> and \<open>Equal\<close> compare the
  instants only. The parser is \<open>time.Parse\<close> for the two layouts the code uses, with the same
  leniencies (one-digit hours, a comma before the fraction, offsets up to 24:60); the printer
  is the one behind \<open>Time.MarshalJSON\<close>.
\<close>

section \<open>Instants\<close>

record gotime =
  t_ns :: int
  t_off :: int

definition zero_time :: gotime where
  "zero_time = \<lparr>t_ns = 0, t_off = 0\<rparr>"

definition is_zero :: "gotime \<Rightarrow> bool" where
  "is_zero t = (t_ns t = 0)"

definition after :: "gotime \<Rightarrow> gotime \<Rightarrow> bool" where
  "after t u = (t_ns t > t_ns u)"

definition before :: "gotime \<Rightarrow> gotime \<Rightarrow> bool" where
  "before t u = (t_ns t < t_ns u)"

definition time_eq :: "gotime \<Rightarrow> gotime \<Rightarrow> bool" where
  "time_eq t u = (t_ns t = t_ns u)"

lemmas time_order_defs = after_def before_def time_eq_def is_zero_def

lemma is_zero_zero_time [simp]: "is_zero zero_time"
  by (simp add: is_zero_def zero_time_def)

lemma time_trichotomy: "after t u \<or> time_eq t u \<or> before t u"
  by (auto simp: time_order_defs)

section \<open>The calendar\<close>

definition is_leap :: "int \<Rightarrow> bool" where
  "is_leap y = (y mod 4 = 0 \<and> (y mod 100 \<noteq> 0 \<or> y mod 400 = 0))"

text \<open>Days from January 1 of year 1 to January 1 of year \<open>y\<close>.\<close>

definition days_before_year :: "int \<Rightarrow> int" where
  "days_before_year y = (let p = y - 1 in 365 * p + p div 4 - p div 100 + p div 400)"

definition days_before_month :: "bool \<Rightarrow> int \<Rightarrow> int" where
  "days_before_month leap m =
     (let l = (if leap then 1 else 0) in
      if m \<le> 1 then 0 else if m = 2 then 31 else if m = 3 then 59 + l else if m = 4 then 90 + l
      else if m = 5 then 120 + l else if m = 6 then 151 + l else if m = 7 then 181 + l
      else if m = 8 then 212 + l else if m = 9 then 243 + l else if m = 10 then 273 + l
      else if m = 11 then 304 + l else if m = 12 then 334 + l else 365 + l)"

definition days_in :: "int \<Rightarrow> int \<Rightarrow> int" where
  "days_in m y =
     (if m = 2 then (if is_leap y then 29 else 28)
      else if m \<in> {4, 6, 9, 11} then 30 else 31)"

definition days_of_date :: "int \<Rightarrow> int \<Rightarrow> int \<Rightarrow> int" where
  "days_of_date y m d = days_before_year y + days_before_month (is_leap y) m + (d - 1)"

text \<open>The date of a day number: the year is found from the mean length of a year and corrected
  by at most one, the month from the cumulative day table.\<close>

definition year_of_days :: "int \<Rightarrow> int" where
  "year_of_days n =
     (let y = 400 * n div 146097 + 1 in
      if n < days_before_year y then y - 1
      else if days_before_year (y + 1) \<le> n then y + 1 else y)"

definition month_of_yday :: "bool \<Rightarrow> int \<Rightarrow> int" where
  "month_of_yday leap yd =
     (let b = days_before_month leap in
      if yd < b 2 then 1 else if yd < b 3 then 2 else if yd < b 4 then 3 else if yd < b 5 then 4
      else if yd < b 6 then 5 else if yd < b 7 then 6 else if yd < b 8 then 7
      else if yd < b 9 then 8 else if yd < b 10 then 9 else if yd < b 11 then 10
      else if yd < b 12 then 11 else 12)"

definition date_of_days :: "int \<Rightarrow> int \<times> int \<times> int" where
  "date_of_days n =
     (let y = year_of_days n; yd = n - days_before_year y; m = month_of_yday (is_leap y) yd
      in (y, m, yd - days_before_month (is_leap y) m + 1))"

lemma days_before_year_bounds:
  "146097 * y - 146796 \<le> 400 * days_before_year y"
  "400 * days_before_year y \<le> 146097 * y - 145701"
proof -
  define p where "p = y - 1"
  obtain a b c where abc: "a = p div 4" "b = p div 100" "c = p div 400" by blast
  have split: "4 * a \<le> p" "p \<le> 4 * a + 3" "100 * b \<le> p" "p \<le> 100 * b + 99"
    "400 * c \<le> p" "p \<le> 400 * c + 399"
    unfolding abc by presburger+
  have "days_before_year y = 365 * p + a - b + c"
    by (simp add: days_before_year_def Let_def p_def abc)
  moreover have "y = p + 1" by (simp add: p_def)
  ultimately show "146097 * y - 146796 \<le> 400 * days_before_year y"
    and "400 * days_before_year y \<le> 146097 * y - 145701"
    using split by linarith+
qed

lemma year_of_days_bounds:
  "days_before_year (year_of_days n) \<le> n" "n < days_before_year (year_of_days n + 1)"
proof -
  define k where "k = 400 * n div 146097"
  define y where "y = k + 1"
  have "146097 * k + (400 * n) mod 146097 = 400 * n" unfolding k_def by (rule mult_div_mod_eq)
  moreover have "0 \<le> (400 * n) mod 146097" "(400 * n) mod 146097 < 146097"
    by (rule pos_mod_sign pos_mod_bound, simp)+
  ultimately have "146097 * k \<le> 400 * n" "400 * n < 146097 * k + 146097" by linarith+
  then have lo: "days_before_year (y - 1) \<le> n" and hi: "n < days_before_year (y + 2)"
    using days_before_year_bounds(2) [of "y - 1"] days_before_year_bounds(1) [of "y + 2"]
    unfolding y_def by (simp_all add: algebra_simps)
  have yd: "year_of_days n =
      (if n < days_before_year y then y - 1
       else if days_before_year (y + 1) \<le> n then y + 1 else y)"
    by (simp add: year_of_days_def y_def k_def Let_def)
  consider "n < days_before_year y" | "days_before_year y \<le> n" "n < days_before_year (y + 1)"
    | "days_before_year y \<le> n" "days_before_year (y + 1) \<le> n"
    by linarith
  then have "days_before_year (year_of_days n) \<le> n \<and> n < days_before_year (year_of_days n + 1)"
    using lo hi by cases (simp_all add: yd add.commute)
  then show "days_before_year (year_of_days n) \<le> n" "n < days_before_year (year_of_days n + 1)"
    by auto
qed

lemma div_pred:
  fixes k y :: int
  assumes "0 < k"
  shows "y div k = (y - 1) div k + (if y mod k = 0 then 1 else 0)"
proof -
  define q r where "q = y div k" and "r = y mod k"
  have y: "y = k * q + r" and r: "0 \<le> r" "r < k" using assms by (simp_all add: q_def r_def)
  show ?thesis
  proof (cases "r = 0")
    case True
    have "(y - 1) div k = q - 1"
      using assms True y by (intro int_div_pos_eq [where r = "k - 1"]) (auto simp: algebra_simps)
    then show ?thesis using True unfolding q_def r_def by simp
  next
    case False
    have "(y - 1) div k = q"
      using assms False y r by (intro int_div_pos_eq [where r = "r - 1"]) (auto simp: algebra_simps)
    then show ?thesis using False unfolding q_def r_def by simp
  qed
qed

lemma year_length: "days_before_year (y + 1) = days_before_year y + (if is_leap y then 366 else 365)"
proof -
  have m: "y mod 400 = 0 \<longrightarrow> y mod 100 = 0" "y mod 100 = 0 \<longrightarrow> y mod 4 = 0" by presburger+
  have "days_before_year (y + 1) = 365 * y + y div 4 - y div 100 + y div 400"
    by (simp add: days_before_year_def Let_def)
  also have "\<dots> = 365 * y + ((y - 1) div 4 + (if y mod 4 = 0 then 1 else 0))
      - ((y - 1) div 100 + (if y mod 100 = 0 then 1 else 0))
      + ((y - 1) div 400 + (if y mod 400 = 0 then 1 else 0))"
    by (simp only: div_pred [of 4 y] div_pred [of 100 y] div_pred [of 400 y] zero_less_numeral)
  also have "\<dots> = days_before_year y + (if is_leap y then 366 else 365)"
    using m unfolding days_before_year_def Let_def is_leap_def
    by (cases "y mod 4 = 0"; cases "y mod 100 = 0"; cases "y mod 400 = 0") simp_all
  finally show ?thesis .
qed

lemma month_of_yday_range: "1 \<le> month_of_yday leap yd" "month_of_yday leap yd \<le> 12"
  by (simp_all add: month_of_yday_def Let_def)

lemma days_before_month_ends:
  "days_before_month leap 1 = 0" "days_before_month leap 13 = (if leap then 366 else 365)"
  by (simp_all add: days_before_month_def)

lemma month_of_yday_lower: "0 \<le> yd \<Longrightarrow> days_before_month leap (month_of_yday leap yd) \<le> yd"
  unfolding month_of_yday_def Let_def by (simp add: days_before_month_ends)

lemma month_of_yday_upper:
  "yd < (if leap then 366 else 365) \<Longrightarrow> yd < days_before_month leap (month_of_yday leap yd + 1)"
  unfolding month_of_yday_def Let_def by (simp add: days_before_month_ends)

lemma month_of_yday_bounds:
  assumes "0 \<le> yd" "yd < (if leap then 366 else 365)"
  shows "1 \<le> month_of_yday leap yd" "month_of_yday leap yd \<le> 12"
    "days_before_month leap (month_of_yday leap yd) \<le> yd"
    "yd < days_before_month leap (month_of_yday leap yd + 1)"
  using assms month_of_yday_range month_of_yday_lower month_of_yday_upper by simp_all

lemma days_in_month:
  "1 \<le> m \<Longrightarrow> m \<le> 12 \<Longrightarrow>
     days_before_month (is_leap y) (m + 1) - days_before_month (is_leap y) m = days_in m y"
proof -
  assume "1 \<le> m" "m \<le> 12"
  then have "m = 1 \<or> m = 2 \<or> m = 3 \<or> m = 4 \<or> m = 5 \<or> m = 6 \<or> m = 7 \<or> m = 8 \<or> m = 9
      \<or> m = 10 \<or> m = 11 \<or> m = 12" by presburger
  then show ?thesis by (auto simp: days_before_month_def days_in_def Let_def)
qed

lemma date_of_days_correct:
  assumes "date_of_days n = (y, m, d)"
  shows "days_of_date y m d = n" "1 \<le> m" "m \<le> 12" "1 \<le> d" "d \<le> days_in m y"
proof -
  define yd where "yd = n - days_before_year y"
  have y: "y = year_of_days n" and m: "m = month_of_yday (is_leap y) yd"
    and d: "d = yd - days_before_month (is_leap y) m + 1"
    using assms by (auto simp: date_of_days_def Let_def yd_def)
  have yd: "0 \<le> yd" "yd < (if is_leap y then 366 else 365)"
    using year_of_days_bounds [of n] year_length [of y] unfolding yd_def y by auto
  note b = month_of_yday_bounds [OF yd, folded m]
  show "days_of_date y m d = n" by (simp add: days_of_date_def d yd_def)
  show "1 \<le> m" "m \<le> 12" by (rule b(1), rule b(2))
  show "1 \<le> d" using b(3) by (simp add: d)
  show "d \<le> days_in m y" using b(4) days_in_month [OF b(1,2), of y] by (simp add: d)
qed

section \<open>Instants from clock readings\<close>

definition nanos :: int where
  "nanos = 1000000000"

definition make_time :: "int \<Rightarrow> int \<Rightarrow> int \<Rightarrow> int \<Rightarrow> int \<Rightarrow> int \<Rightarrow> int \<Rightarrow> int \<Rightarrow> gotime" where
  "make_time y m d h mi s ns off =
     \<lparr>t_ns = (days_of_date y m d * 86400 + h * 3600 + mi * 60 + s - off) * nanos + ns,
      t_off = off\<rparr>"

text \<open>The clock reading of a time in its own location.\<close>

definition local_days :: "gotime \<Rightarrow> int" where
  "local_days t = (t_ns t + t_off t * nanos) div (86400 * nanos)"

definition local_ns_of_day :: "gotime \<Rightarrow> int" where
  "local_ns_of_day t = (t_ns t + t_off t * nanos) mod (86400 * nanos)"

definition local_year :: "gotime \<Rightarrow> int" where
  "local_year t = fst (date_of_days (local_days t))"

section \<open>Parsing\<close>

text \<open>\<open>getnum\<close>: one or two digits, exactly two when \<open>fixed\<close>.\<close>

definition getnum :: "bool \<Rightarrow> string \<Rightarrow> (int \<times> string) option" where
  "getnum fixed s =
     (case s of
        c # d # t \<Rightarrow>
          if \<not> is_digit c then None
          else if \<not> is_digit d then (if fixed then None else Some (int (digit_val c), d # t))
          else Some (int (digit_val c) * 10 + int (digit_val d), t)
      | [c] \<Rightarrow> if is_digit c \<and> \<not> fixed then Some (int (digit_val c), []) else None
      | [] \<Rightarrow> None)"

definition get_year :: "string \<Rightarrow> (int \<times> string) option" where
  "get_year s =
     (if 4 \<le> length s \<and> list_all is_digit (take 4 s)
      then Some (int (digits_val (take 4 s)), drop 4 s) else None)"

definition skip_char :: "char \<Rightarrow> string \<Rightarrow> string option" where
  "skip_char c s = (case s of [] \<Rightarrow> None | d # t \<Rightarrow> if d = c then Some t else None)"

definition in_range :: "int \<Rightarrow> int \<Rightarrow> (int \<times> string) option \<Rightarrow> (int \<times> string) option" where
  "in_range lo hi r =
     (case r of None \<Rightarrow> None | Some (n, t) \<Rightarrow> if lo \<le> n \<and> n \<le> hi then Some (n, t) else None)"

text \<open>The fraction of a second, which the layout does not name but the parser accepts after the
  seconds: digits beyond the ninth are dropped.\<close>

definition get_fraction :: "string \<Rightarrow> int \<times> string" where
  "get_fraction s =
     (case s of
        p # d # t \<Rightarrow>
          if (p = CHR ''.'' \<or> p = CHR '','') \<and> is_digit d then
            let ds = takeWhile is_digit (d # t); ds9 = take 9 ds
            in (int (digits_val ds9 * 10 ^ (9 - length ds9)), drop (length ds) (d # t))
          else (0, s)
      | _ \<Rightarrow> (0, s))"

text \<open>The \<open>Z07:00\<close> zone: \<open>Z\<close>, or a sign, two digits, a colon, two digits.\<close>

definition get_zone :: "string \<Rightarrow> (int \<times> string) option" where
  "get_zone s =
     (case s of
        [] \<Rightarrow> None
      | c # t \<Rightarrow>
        if c = CHR ''Z'' then Some (0, t)
        else (case t of
            h1 # h2 # co # m1 # m2 # u \<Rightarrow>
              if co \<noteq> CHR '':'' then None
              else (case (getnum True [h1, h2], getnum True [m1, m2]) of
                  (Some (hh, _), Some (mm, _)) \<Rightarrow>
                    if hh > 24 \<or> mm > 60 then None
                    else if c = CHR ''+'' then Some ((hh * 60 + mm) * 60, u)
                    else if c = CHR ''-'' then Some (- ((hh * 60 + mm) * 60), u)
                    else None
                | _ \<Rightarrow> None)
          | _ \<Rightarrow> None))"

definition get_date :: "string \<Rightarrow> (int \<times> int \<times> int \<times> string) option" where
  "get_date s0 =
     Option.bind (get_year s0) (\<lambda>(y, s1).
     Option.bind (skip_char (CHR ''-'') s1) (\<lambda>s2.
     Option.bind (in_range 1 12 (getnum True s2)) (\<lambda>(m, s3).
     Option.bind (skip_char (CHR ''-'') s3) (\<lambda>s4.
     Option.bind (getnum True s4) (\<lambda>(d, s5). Some (y, m, d, s5))))))"

definition valid_day :: "int \<Rightarrow> int \<Rightarrow> int \<Rightarrow> bool" where
  "valid_day y m d = (1 \<le> d \<and> d \<le> days_in m y)"

text \<open>\<open>time.Parse(time.RFC3339, s)\<close>.\<close>

definition parse_rfc3339 :: "string \<Rightarrow> gotime option" where
  "parse_rfc3339 s0 =
     Option.bind (get_date s0) (\<lambda>(y, m, d, s1).
     Option.bind (skip_char (CHR ''T'') s1) (\<lambda>s2.
     Option.bind (in_range 0 23 (getnum False s2)) (\<lambda>(h, s3).
     Option.bind (skip_char (CHR '':'') s3) (\<lambda>s4.
     Option.bind (in_range 0 59 (getnum True s4)) (\<lambda>(mi, s5).
     Option.bind (skip_char (CHR '':'') s5) (\<lambda>s6.
     Option.bind (in_range 0 59 (getnum True s6)) (\<lambda>(sec, s7).
     case get_fraction s7 of (ns, s8) \<Rightarrow>
     Option.bind (get_zone s8) (\<lambda>(off, s9).
       if s9 = [] \<and> valid_day y m d then Some (make_time y m d h mi sec ns off) else None))))))))"

text \<open>\<open>time.Parse("2006-01-02", s)\<close>.\<close>

definition parse_date_only :: "string \<Rightarrow> gotime option" where
  "parse_date_only s0 =
     Option.bind (get_date s0) (\<lambda>(y, m, d, s1).
       if s1 = [] \<and> valid_day y m d then Some (make_time y m d 0 0 0 0 0) else None)"

section \<open>Printing\<close>

text \<open>The decimal digits of a number, padded with zeros to a width.\<close>

fun pad_digits :: "nat \<Rightarrow> nat \<Rightarrow> string" where
  "pad_digits 0 n = []"
| "pad_digits (Suc k) n = pad_digits k (n div 10) @ [digit_char (n mod 10)]"

definition drop_zeros :: "string \<Rightarrow> string" where
  "drop_zeros s = rev (dropWhile (\<lambda>c. c = CHR ''0'') (rev s))"

definition show_fraction :: "int \<Rightarrow> string" where
  "show_fraction ns = (if ns = 0 then [] else CHR ''.'' # drop_zeros (pad_digits 9 (nat ns)))"

definition show_zone :: "int \<Rightarrow> string" where
  "show_zone off =
     (if off = 0 then ''Z''
      else let z = nat \<bar>off\<bar> div 60 in
        (if off < 0 then CHR ''-'' else CHR ''+'') #
        pad_digits 2 (z div 60) @ CHR '':'' # pad_digits 2 (z mod 60))"

definition show_rfc3339_nano :: "gotime \<Rightarrow> string" where
  "show_rfc3339_nano t =
     (case date_of_days (local_days t) of (y, m, d) \<Rightarrow>
      let r = local_ns_of_day t; sec = r div nanos in
      pad_digits 4 (nat y) @ CHR ''-'' # pad_digits 2 (nat m) @ CHR ''-'' # pad_digits 2 (nat d) @
      CHR ''T'' # pad_digits 2 (nat (sec div 3600)) @
      CHR '':'' # pad_digits 2 (nat (sec div 60 mod 60)) @
      CHR '':'' # pad_digits 2 (nat (sec mod 60)) @
      show_fraction (r mod nanos) @ show_zone (t_off t))"

text \<open>\<open>Time.MarshalJSON\<close> refuses years outside 0..9999 and zone hours of 24 and more.\<close>

definition time_printable :: "gotime \<Rightarrow> bool" where
  "time_printable t = (0 \<le> local_year t \<and> local_year t \<le> 9999 \<and> \<bar>t_off t\<bar> < 24 * 3600)"

definition marshal_time :: "gotime \<Rightarrow> string option" where
  "marshal_time t = (if time_printable t then Some (show_rfc3339_nano t) else None)"

section \<open>Printing and parsing agree\<close>

lemma length_pad_digits [simp]: "length (pad_digits k n) = k"
  by (induction k arbitrary: n) simp_all

lemma pad_digits_all_digits: "list_all is_digit (pad_digits k n)"
  by (induction k arbitrary: n) simp_all

lemma digits_val_pad_digits: "digits_val (pad_digits k n) = n mod 10 ^ k"
proof (induction k arbitrary: n)
  case 0
  then show ?case by (simp add: digits_val_def)
next
  case (Suc k)
  have "n mod 10 ^ Suc k = 10 * (n div 10 mod 10 ^ k) + n mod 10"
    by (simp add: mod_mult2_eq)
  with Suc show ?case by (simp add: digits_val_snoc)
qed

lemma getnum_pad: "n < 100 \<Longrightarrow> getnum fixed (pad_digits 2 n @ s) = Some (int n, s)"
proof -
  assume "n < 100"
  then have "n div 10 < 10" by simp
  moreover have "int (n div 10) * 10 + int (n mod 10) = int n" by presburger
  ultimately show ?thesis by (simp add: getnum_def numeral_2_eq_2)
qed

lemma get_year_pad: "n < 10000 \<Longrightarrow> get_year (pad_digits 4 n @ s) = Some (int n, s)"
  by (simp add: get_year_def pad_digits_all_digits digits_val_pad_digits)

lemma skip_char_Cons [simp]: "skip_char c (c # s) = Some s"
  by (simp add: skip_char_def)

lemma in_range_Some [simp]: "lo \<le> n \<Longrightarrow> n \<le> hi \<Longrightarrow> in_range lo hi (Some (n, s)) = Some (n, s)"
  by (simp add: in_range_def)

lemma getnum_pair: "getnum True (pad_digits 2 n) = getnum True (pad_digits 2 n @ [])"
  by simp

lemma get_zone_show:
  assumes "off mod 60 = 0" "\<bar>off\<bar> < 24 * 3600"
  shows "get_zone (show_zone off) = Some (off, [])"
proof (cases "off = 0")
  case True
  then show ?thesis by (simp add: get_zone_def show_zone_def)
next
  case False
  define z where "z = nat \<bar>off\<bar> div 60"
  obtain k where k: "off = 60 * k" using assms(1) by auto
  have zk: "int z = \<bar>k\<bar>" unfolding z_def k by (simp add: nat_mult_distrib abs_mult)
  have z: "z < 1440" using assms(2) zk k by (simp add: abs_mult)
  have hh: "z div 60 < 100" "z div 60 \<le> 24" "z mod 60 < 100" "z mod 60 \<le> 60" using z by auto
  define a where "a = z div 60"
  define b where "b = z mod 60"
  have pa: "pad_digits 2 a = [digit_char (a div 10 mod 10), digit_char (a mod 10)]"
    and pb: "pad_digits 2 b = [digit_char (b div 10 mod 10), digit_char (b mod 10)]"
    by (simp_all add: numeral_2_eq_2)
  have "getnum True (pad_digits 2 a) = Some (int a, [])" "getnum True (pad_digits 2 b) = Some (int b, [])"
    using getnum_pad [of a True "[]"] getnum_pad [of b True "[]"] hh by (simp_all add: a_def b_def)
  note gab = this [unfolded pa pb]
  have ab: "int a * 60 + int b = \<bar>k\<bar>" unfolding a_def b_def using zk
    by (metis div_mult_mod_eq of_nat_add of_nat_mult of_nat_numeral)
  have lim: "\<not> (int a > 24 \<or> int b > 60)" using hh unfolding a_def b_def by linarith
  have show_z: "show_zone off = (if off < 0 then CHR ''-'' else CHR ''+'') #
      [digit_char (a div 10 mod 10), digit_char (a mod 10)] @ CHR '':'' #
      [digit_char (b div 10 mod 10), digit_char (b mod 10)]"
    unfolding show_zone_def Let_def z_def [symmetric] a_def [symmetric] b_def [symmetric] pa pb
    using False by simp
  show ?thesis
    unfolding show_z using lim ab k False
    by (cases "off < 0") (auto simp: get_zone_def gab)
qed

lemma drop_zeros_val:
  "digits_val s = digits_val (drop_zeros s) * 10 ^ (length s - length (drop_zeros s))"
proof (induction s rule: rev_induct)
  case Nil
  then show ?case by (simp add: drop_zeros_def)
next
  case (snoc c s)
  have len: "length (drop_zeros s) \<le> length s"
    unfolding drop_zeros_def by (simp add: length_dropWhile_le [where xs = "rev s", simplified])
  show ?case
  proof (cases "c = CHR ''0''")
    case True
    then have "drop_zeros (s @ [c]) = drop_zeros s" by (simp add: drop_zeros_def)
    with True snoc len show ?thesis
      by (simp add: digits_val_snoc digit_val_def Suc_diff_le)
  next
    case False
    then have "drop_zeros (s @ [c]) = s @ [c]" by (simp add: drop_zeros_def)
    then show ?thesis by simp
  qed
qed

lemma drop_zeros_prefix: "\<exists>t. s = drop_zeros s @ t"
proof -
  have "rev s = takeWhile (\<lambda>c. c = CHR ''0'') (rev s) @ dropWhile (\<lambda>c. c = CHR ''0'') (rev s)"
    by simp
  then have "s = rev (dropWhile (\<lambda>c. c = CHR ''0'') (rev s)) @ rev (takeWhile (\<lambda>c. c = CHR ''0'') (rev s))"
    by (metis rev_append rev_rev_ident)
  then show ?thesis unfolding drop_zeros_def by blast
qed

lemma show_zone_not_digit: "takeWhile is_digit (show_zone off) = []"
  "show_zone off \<noteq> []" "hd (show_zone off) \<notin> {CHR ''.'', CHR '',''}"
  by (auto simp: show_zone_def Let_def is_digit_def)

lemma get_fraction_show:
  assumes ns: "0 \<le> ns" "ns < nanos"
  shows "get_fraction (show_fraction ns @ show_zone off) = (ns, show_zone off)"
proof (cases "ns = 0")
  case True
  obtain z zs where z: "show_zone off = z # zs" "z \<notin> {CHR ''.'', CHR '',''}"
    using show_zone_not_digit(2,3) [of off] by (cases "show_zone off") auto
  then show ?thesis using True
    by (auto simp: show_fraction_def get_fraction_def split: list.splits)
next
  case False
  define p where "p = pad_digits 9 (nat ns)"
  define q where "q = drop_zeros p"
  have val: "digits_val p = nat ns"
    using ns by (simp add: p_def digits_val_pad_digits nanos_def)
  have len: "length p = 9" by (simp add: p_def)
  obtain t where t: "p = q @ t" using drop_zeros_prefix q_def by blast
  have dq: "list_all is_digit q" using pad_digits_all_digits [of 9 "nat ns"] t by (simp add: p_def)
  have lq: "length q \<le> 9" using t len by (metis le_add1 length_append)
  have vq: "digits_val q * 10 ^ (9 - length q) = nat ns"
    using drop_zeros_val [of p] val len by (simp add: q_def)
  have "q \<noteq> []"
  proof
    assume "q = []"
    then have "nat ns = 0" using vq by (simp add: digits_val_def)
    with ns False show False by simp
  qed
  then obtain d ds where q: "q = d # ds" by (cases q) auto
  have tw: "takeWhile is_digit (q @ show_zone off) = q"
    using dq show_zone_not_digit(1) by (simp add: takeWhile_append2 list_all_iff)
  have "int (digits_val q * 10 ^ (9 - length q)) = ns" using vq ns by simp
  moreover have "take 9 q = q" using lq by simp
  ultimately show ?thesis
    using False q tw dq unfolding show_fraction_def p_def [symmetric] q_def [symmetric]
    by (simp add: get_fraction_def Let_def)
qed

lemma days_in_le_31: "days_in m y \<le> 31"
  by (simp add: days_in_def)

lemma get_date_show:
  assumes "0 \<le> y" "y \<le> 9999" "1 \<le> m" "m \<le> 12" "1 \<le> d" "d \<le> 31"
  shows "get_date (pad_digits 4 (nat y) @ CHR ''-'' # pad_digits 2 (nat m) @
                   CHR ''-'' # pad_digits 2 (nat d) @ s) = Some (y, m, d, s)"
  using assms by (simp add: get_date_def get_year_pad getnum_pad)

lemma get_clock_show:
  assumes "0 \<le> n" "n \<le> hi" "hi < 100"
  shows "in_range 0 hi (getnum fixed (pad_digits 2 (nat n) @ s)) = Some (n, s)"
  using assms by (simp add: getnum_pad)

lemma parse_shown:
  assumes "0 \<le> y" "y \<le> 9999" "1 \<le> m" "m \<le> 12" "1 \<le> d" "d \<le> days_in m y"
    and h: "0 \<le> h" "h \<le> 23" and mi: "0 \<le> mi" "mi \<le> 59" and sec: "0 \<le> sec" "sec \<le> 59"
    and ns: "0 \<le> ns" "ns < nanos" and off: "off mod 60 = 0" "\<bar>off\<bar> < 24 * 3600"
  shows "parse_rfc3339 (pad_digits 4 (nat y) @ CHR ''-'' # pad_digits 2 (nat m) @ CHR ''-'' #
      pad_digits 2 (nat d) @ CHR ''T'' # pad_digits 2 (nat h) @ CHR '':'' # pad_digits 2 (nat mi) @
      CHR '':'' # pad_digits 2 (nat sec) @ show_fraction ns @ show_zone off) =
    Some (make_time y m d h mi sec ns off)"
proof -
  have "d \<le> 31" using assms(6) days_in_le_31 [of m y] by simp
  note date = get_date_show [OF assms(1-5) this]
  have clock: "in_range 0 23 (getnum False (pad_digits 2 (nat h) @ s)) = Some (h, s)"
    "in_range 0 59 (getnum True (pad_digits 2 (nat mi) @ s)) = Some (mi, s)"
    "in_range 0 59 (getnum True (pad_digits 2 (nat sec) @ s)) = Some (sec, s)" for s
    using h mi sec by (simp_all add: get_clock_show)
  show ?thesis
    unfolding parse_rfc3339_def date bind.bind_lunit prod.case skip_char_Cons clock
      get_fraction_show [OF ns] get_zone_show [OF off]
    using assms(5,6) by (simp add: valid_day_def)
qed

text \<open>Every time the printer accepts, with an offset of whole minutes, is read back as the same
  time: the same instant in the same location.\<close>

lemma parse_show_rfc3339:
  assumes pr: "time_printable t" and off: "t_off t mod 60 = 0"
  shows "parse_rfc3339 (show_rfc3339_nano t) = Some t"
proof -
  obtain y m d where dt: "date_of_days (local_days t) = (y, m, d)"
    by (cases "date_of_days (local_days t)") auto
  note c = date_of_days_correct [OF dt]
  have y: "0 \<le> y" "y \<le> 9999" using pr dt by (auto simp: time_printable_def local_year_def)
  define r where "r = local_ns_of_day t"
  define sec where "sec = r div nanos"
  have r: "0 \<le> r" "r < 86400 * nanos" by (simp_all add: r_def local_ns_of_day_def nanos_def)
  have sec: "0 \<le> sec" "sec < 86400" using r by (auto simp: sec_def nanos_def)
  have h: "0 \<le> sec div 3600" "sec div 3600 \<le> 23" using sec by auto
  have mi: "0 \<le> sec div 60 mod 60" "sec div 60 mod 60 \<le> 59"
    using pos_mod_bound [of 60 "sec div 60"] by auto
  have s: "0 \<le> sec mod 60" "sec mod 60 \<le> 59" using pos_mod_bound [of 60 sec] by auto
  have fr: "0 \<le> r mod nanos" "r mod nanos < nanos" by (simp_all add: nanos_def)
  have "sec div 3600 = sec div 60 div 60" by (simp add: zdiv_zmult2_eq [symmetric])
  then have hms: "(sec div 3600) * 3600 + (sec div 60 mod 60) * 60 + sec mod 60 = sec"
    using mult_div_mod_eq [of 60 "sec div 60"] mult_div_mod_eq [of 60 sec] by linarith
  have whole: "t_ns t + t_off t * nanos = local_days t * (86400 * nanos) + r"
    unfolding r_def local_ns_of_day_def local_days_def by (rule div_mult_mod_eq [symmetric])
  have rs: "sec * nanos + r mod nanos = r" by (simp add: sec_def)
  have "(days_of_date y m d * 86400 + sec div 3600 * 3600 + sec div 60 mod 60 * 60 + sec mod 60
         - t_off t) * nanos + r mod nanos = t_ns t"
  proof -
    have "days_of_date y m d * 86400 + sec div 3600 * 3600 + sec div 60 mod 60 * 60 + sec mod 60
          - t_off t = local_days t * 86400 + sec - t_off t"
      using hms c(1) by linarith
    then show ?thesis using whole rs by (simp only:) (simp add: algebra_simps)
  qed
  then have mk: "make_time y m d (sec div 3600) (sec div 60 mod 60) (sec mod 60) (r mod nanos) (t_off t) = t"
    by (simp add: make_time_def)
  have off2: "\<bar>t_off t\<bar> < 24 * 3600" using pr by (simp add: time_printable_def)
  show ?thesis
    unfolding show_rfc3339_nano_def dt r_def [symmetric] Let_def prod.case sec_def [symmetric]
    by (subst parse_shown [OF y c(2-5) h mi s fr off off2]) (simp add: mk)
qed

text \<open>The parser only yields offsets of whole minutes.\<close>

lemma get_zone_minutes: "get_zone s = Some (off, t) \<Longrightarrow> off mod 60 = 0"
  by (auto simp: get_zone_def split: list.splits if_splits option.splits)

lemma parse_rfc3339_offset: "parse_rfc3339 s = Some t \<Longrightarrow> t_off t mod 60 = 0"
  by (auto simp: parse_rfc3339_def make_time_def split: option.splits if_splits prod.splits
      bind_splits dest!: get_zone_minutes)

section \<open>Protobuf timestamps\<close>

datatype timestamp = Timestamp (ts_seconds: int) (ts_nanos: int)

text \<open>The two fields count from 1970; year 1 is 62135596800 seconds earlier.\<close>

definition unix_epoch :: int where
  "unix_epoch = 62135596800"

definition timestamp_of :: "gotime \<Rightarrow> timestamp" where
  "timestamp_of t = Timestamp (t_ns t div nanos - unix_epoch) (t_ns t mod nanos)"

definition as_time :: "timestamp \<Rightarrow> gotime" where
  "as_time ts = \<lparr>t_ns = (ts_seconds ts + unix_epoch) * nanos + ts_nanos ts, t_off = 0\<rparr>"

lemma as_time_timestamp_of [simp]: "t_ns (as_time (timestamp_of t)) = t_ns t"
  by (simp add: as_time_def timestamp_of_def)

end
