(* ===== verification/Go_Utf8.thy ===== *)
theory Go_Utf8
  imports Go_Strings
begin

text \<open>
  Facts about UTF-8: decoding a rune reads only the bytes it consumes, encoding is its inverse on
  valid text, the bytes of the runes of a string are the string, and valid text is closed under
  concatenation. They carry the round trips of the text formats.
\<close>

section \<open>Decoding and encoding one rune\<close>

lemma byte_lt_256 [simp]: "byte c < 256"
  by (cases c) (simp add: of_char_def horner_sum_simps of_bool_def)

lemma base64:
  assumes "(y::nat) < 64"
  shows "(x * 64 + y) div 64 = x" "(x * 64 + y) mod 64 = y"
  using assms by simp_all

text \<open>The four ways a rune is decoded without error.\<close>

lemma decode_rune_cases:
  assumes "decode_rune (c # s) = (r, w)" "\<not> rune_bad r w"
  obtains (one) "byte c < 128" "r = byte c" "w = 1"
  | (two) c1 t where "s = c1 # t" "194 \<le> byte c" "byte c < 224" "cont_byte (byte c1)"
      "r = (byte c - 192) * 64 + (byte c1 - 128)" "w = 2"
  | (three) c1 c2 t where "s = c1 # c2 # t" "224 \<le> byte c" "byte c < 240"
      "second_byte_ok (byte c) (byte c1)" "cont_byte (byte c2)"
      "r = (byte c - 224) * 4096 + (byte c1 - 128) * 64 + (byte c2 - 128)" "w = 3"
  | (four) c1 c2 c3 t where "s = c1 # c2 # c3 # t" "240 \<le> byte c" "byte c < 245"
      "second_byte_ok (byte c) (byte c1)" "cont_byte (byte c2)" "cont_byte (byte c3)"
      "r = (byte c - 240) * 262144 + (byte c1 - 128) * 4096 + (byte c2 - 128) * 64 + (byte c3 - 128)"
      "w = 4"
  using assms unfolding decode_rune_def rune_bad_def Let_def
  by (auto split: if_splits list.splits)

lemma second_byte_range: "second_byte_ok b b1 \<Longrightarrow> 128 \<le> b1 \<and> b1 < 192"
  by (auto simp: second_byte_ok_def cont_byte_def split: if_splits)

lemma decode_rune_local:
  assumes "decode_rune (c # s) = (r, w)" "\<not> rune_bad r w"
  shows "decode_rune (take w (c # s) @ t) = (r, w)"
  using assms by (rule decode_rune_cases) (auto simp: decode_rune_def Let_def)

lemma decode_rune_width: "decode_rune (c # s) = (r, w) \<Longrightarrow> 1 \<le> w \<and> w \<le> Suc (length s)"
  unfolding decode_rune_def Let_def by (auto split: if_splits list.splits)

lemma decode_rune_ascii: "decode_rune (c # s) = (r, w) \<Longrightarrow> r < 128 \<Longrightarrow> w = 1 \<and> r = byte c"
  unfolding decode_rune_def Let_def
  by (auto simp: rune_error_def second_byte_ok_def cont_byte_def split: if_splits list.splits)

lemma decode_rune_high: "decode_rune (c # s) = (r, w) \<Longrightarrow> 128 \<le> r \<Longrightarrow> 128 \<le> byte c"
  unfolding decode_rune_def Let_def by (auto split: if_splits)

lemma encode_decode:
  assumes "decode_rune (c # s) = (r, w)" "\<not> rune_bad r w"
  shows "encode_rune r = take w (c # s)"
  using assms
proof (cases rule: decode_rune_cases)
  case one
  then show ?thesis by (simp add: encode_rune_def)
next
  case (two c1 t)
  define x where "x = byte c - 192"
  define y where "y = byte c1 - 128"
  have b: "byte c = 192 + x" "byte c1 = 128 + y" "2 \<le> x" "x < 32" "y < 64"
    using two by (auto simp: x_def y_def cont_byte_def)
  have r: "r = x * 64 + y" using two by (simp add: x_def y_def)
  have "char_of (192 + x) = c" "char_of (128 + y) = c1" using b by (metis char_of_char)+
  moreover have "128 \<le> r" "r < 2048" using b r by auto
  ultimately show ?thesis using two(1,6) base64 [OF b(5), of x] unfolding r [symmetric]
    by (simp add: encode_rune_def Let_def r)
next
  case (three c1 c2 t)
  define x where "x = byte c - 224"
  define y where "y = byte c1 - 128"
  define z where "z = byte c2 - 128"
  have b: "byte c = 224 + x" "byte c1 = 128 + y" "byte c2 = 128 + z" "x < 16" "y < 64" "z < 64"
    using three second_byte_range [OF three(4)] by (auto simp: x_def y_def z_def cont_byte_def)
  have r: "r = (x * 64 + y) * 64 + z" using three by (simp add: x_def y_def z_def algebra_simps)
  have d: "r div 64 = x * 64 + y" "r mod 64 = z" "r div 4096 = x"
    using base64 [OF b(6), of "x * 64 + y"] base64 [OF b(5), of x] r
    by (simp_all add: div_mult2_eq [of r 64 64, simplified])
  have "char_of (224 + x) = c" "char_of (128 + y) = c1" "char_of (128 + z) = c2"
    using b by (metis char_of_char)+
  note chars = this
  have xy: "x = 0 \<longrightarrow> 32 \<le> y" "x = 13 \<longrightarrow> y < 32"
    using three(4) b by (auto simp: second_byte_ok_def)
  have "2048 \<le> r" using xy(1) b r by (cases "x = 0") auto
  moreover have "x * 64 + y \<le> 1023" using b(4,5) by simp
  then have "r < 65536" using b(6) unfolding r by simp
  moreover have "\<not> (55296 \<le> r \<and> r < 57344)"
  proof
    assume *: "55296 \<le> r \<and> r < 57344"
    have r': "r = x * 4096 + y * 64 + z" using r by simp
    have "13 \<le> x"
    proof (rule ccontr)
      assume "\<not> 13 \<le> x"
      then have "x \<le> 12" "y \<le> 63" "z \<le> 63" using b by auto
      then have "x * 4096 + y * 64 + z \<le> 12 * 4096 + 63 * 64 + 63"
        by (intro add_mono mult_right_mono) simp_all
      with * r' show False by simp
    qed
    moreover have "x \<le> 13" using * r' by simp
    ultimately have "x = 13" by simp
    with xy(2) have "y < 32" by simp
    with * b(6) \<open>x = 13\<close> show False unfolding r' by simp
  qed
  ultimately have "encode_rune r =
      [char_of (224 + r div 4096), char_of (128 + r div 64 mod 64), char_of (128 + r mod 64)]"
    by (auto simp: encode_rune_def Let_def)
  then show ?thesis using chars b(5) by (simp add: d three(1,7))
next
  case (four c1 c2 c3 t)
  define x where "x = byte c - 240"
  define y where "y = byte c1 - 128"
  define z where "z = byte c2 - 128"
  define u where "u = byte c3 - 128"
  have b: "byte c = 240 + x" "byte c1 = 128 + y" "byte c2 = 128 + z" "byte c3 = 128 + u"
    "x < 5" "y < 64" "z < 64" "u < 64"
    using four second_byte_range [OF four(4)] by (auto simp: x_def y_def z_def u_def cont_byte_def)
  have r: "r = ((x * 64 + y) * 64 + z) * 64 + u"
    using four by (simp add: x_def y_def z_def u_def algebra_simps)
  have d: "r div 64 = (x * 64 + y) * 64 + z" "r mod 64 = u" "r div 4096 = x * 64 + y" "r div 262144 = x"
    using base64 [OF b(8), of "(x * 64 + y) * 64 + z"] base64 [OF b(7), of "x * 64 + y"] base64 [OF b(6), of x] r
    by (simp_all add: div_mult2_eq [of r 64 64, simplified] div_mult2_eq [of r 4096 64, simplified])
  have chars: "char_of (240 + x) = c" "char_of (128 + y) = c1" "char_of (128 + z) = c2"
    "char_of (128 + u) = c3"
    using b by (metis char_of_char)+
  have xy: "x = 0 \<longrightarrow> 16 \<le> y" "x = 4 \<longrightarrow> y < 16"
    using four(4) b by (auto simp: second_byte_ok_def)
  have r': "r = x * 262144 + y * 4096 + z * 64 + u" using r by simp
  have "65536 \<le> r" unfolding r' using xy(1) by (cases "x = 0") auto
  moreover have "r < 1114112"
  proof (cases "x = 4")
    case True
    with xy(2) b(7,8) show ?thesis unfolding r' by simp
  next
    case False
    with b(5) have "x \<le> 3" by simp
    with b(6-8) show ?thesis unfolding r' by simp
  qed
  ultimately have "encode_rune r =
      [char_of (240 + r div 262144), char_of (128 + r div 4096 mod 64),
       char_of (128 + r div 64 mod 64), char_of (128 + r mod 64)]"
    by (auto simp: encode_rune_def Let_def)
  moreover have "r div 64 mod 64 = z" "r div 4096 mod 64 = y"
    using base64(2) [OF b(7), of "x * 64 + y"] base64(2) [OF b(6), of x] d by simp_all
  ultimately show ?thesis using chars by (simp add: d(2,4) four(1,8))
qed

section \<open>Valid text\<close>

definition valid_utf8 :: "string \<Rightarrow> bool" where
  "valid_utf8 s = list_all (\<lambda>(r, bs). \<not> rune_bad r (length bs)) (runes s)"

lemma runes_step:
  assumes "decode_rune (c # s) = (r, w)"
  shows "runes (c # s) = (r, take w (c # s)) # runes (drop w (c # s))"
  using assms decode_rune_width [OF assms] by (cases w) simp_all

declare runes.simps(2) [simp del]

lemma runes_induct [case_names Nil step]:
  assumes "P []"
    and "\<And>c s r w. decode_rune (c # s) = (r, w) \<Longrightarrow> 1 \<le> w \<Longrightarrow> w \<le> length (c # s)
           \<Longrightarrow> P (drop w (c # s)) \<Longrightarrow> P (c # s)"
  shows "P s"
proof (induction s rule: length_induct)
  case (1 s)
  show ?case
  proof (cases s)
    case (Cons c t)
    obtain r w where d: "decode_rune (c # t) = (r, w)" by fastforce
    note w = decode_rune_width [OF d]
    then have "P (drop w (c # t))" using 1 Cons by auto
    with d w Cons show ?thesis using assms(2) [of c t r w] by simp
  qed (use assms(1) in simp)
qed

lemma concat_runes: "concat (map snd (runes s)) = s"
proof (induction s rule: runes_induct)
  case (step c s r w)
  then show ?case by (simp add: runes_step [OF step(1)])
qed simp

lemma runes_append_valid:
  "valid_utf8 s \<Longrightarrow> runes (s @ t) = runes s @ runes t"
proof (induction s rule: runes_induct)
  case (step c s r w)
  from step.prems step.hyps have ok: "\<not> rune_bad r w" and rest: "valid_utf8 (drop w (c # s))"
    by (auto simp: valid_utf8_def runes_step [OF step(1)] min_def split: if_splits)
  have "decode_rune (c # s @ t) = (r, w)"
    using decode_rune_local [OF step(1) ok, of "drop w (c # s) @ t"]
    by (metis append_Cons append_assoc append_take_drop_id)
  moreover have "drop w (c # s @ t) = drop w (c # s) @ t" "take w (c # s @ t) = take w (c # s)"
    using step(3) by (simp_all flip: append_Cons)
  ultimately show ?case
    using step.IH [OF rest] runes_step [OF step(1)] runes_step [of c "s @ t" r w] by simp
qed simp

lemma valid_utf8_append: "valid_utf8 s \<Longrightarrow> valid_utf8 t \<Longrightarrow> valid_utf8 (s @ t)"
  by (simp add: valid_utf8_def runes_append_valid [unfolded valid_utf8_def])

lemma valid_utf8_ascii: "ascii s \<Longrightarrow> valid_utf8 s"
  by (auto simp: valid_utf8_def runes_ascii list_all_iff ascii_def rune_bad_def rune_error_def)

lemma valid_utf8_rune:
  assumes "decode_rune (c # s) = (r, w)" "\<not> rune_bad r w"
  shows "valid_utf8 (take w (c # s))"
proof -
  note w = decode_rune_width [OF assms(1)]
  obtain k where k: "w = Suc k" using w by (cases w) auto
  have "decode_rune (c # take k s) = (r, w)"
    using decode_rune_local [OF assms, of "[]"] k by simp
  from runes_step [OF this] k w show ?thesis using assms(2) by (simp add: valid_utf8_def)
qed

lemma valid_utf8_encode [simp]: "valid_utf8 (encode_rune r)"
proof -
  define q where "q = (if (55296 \<le> r \<and> r < 57344) \<or> 1114112 \<le> r then rune_error else r)"
  have q: "q < 1114112" "\<not> (55296 \<le> q \<and> q < 57344)" by (auto simp: q_def rune_error_def)
  have enc: "encode_rune r = encode_rune q"
    using q unfolding encode_rune_def by (cases "(55296 \<le> r \<and> r < 57344) \<or> 1114112 \<le> r") (auto simp: q_def)
  have "\<exists>c s. encode_rune q = c # s \<and> decode_rune (c # s) = (q, Suc (length s))"
  proof -
    consider "q < 128" | "128 \<le> q" "q < 2048" | "2048 \<le> q" "q < 65536" | "65536 \<le> q" by linarith
    then show ?thesis
    proof cases
      case 1 then show ?thesis by (simp add: encode_rune_def decode_rune_def)
    next
      case 2
      then have "q div 64 < 32" "2 \<le> q div 64" by auto
      then show ?thesis using 2 q
        by (simp add: encode_rune_def decode_rune_def Let_def cont_byte_def)
    next
      case 3
      define x where "x = q div 4096"
      define y where "y = q div 64 mod 64"
      define z where "z = q mod 64"
      have m: "q div 4096 = q div 64 div 64" by (simp flip: div_mult2_eq)
      have "q = (q div 64) * 64 + z" by (simp add: z_def)
      moreover have "q div 64 = x * 64 + y" by (simp add: x_def y_def m)
      ultimately have dec: "q = x * 4096 + y * 64 + z" by linarith
      have b: "x < 16" "y < 64" "z < 64" using 3 by (auto simp: x_def y_def z_def)
      have "x = 0 \<longrightarrow> 32 \<le> y" "x = 13 \<longrightarrow> y < 32" using 3 q b dec by auto
      then have so: "second_byte_ok (224 + x) (128 + y)"
        using b by (auto simp: second_byte_ok_def cont_byte_def)
      have "encode_rune q = [char_of (224 + x), char_of (128 + y), char_of (128 + z)]"
        using 3 q by (auto simp: encode_rune_def Let_def x_def y_def z_def)
      moreover have "decode_rune [char_of (224 + x), char_of (128 + y), char_of (128 + z)] =
          (x * 4096 + y * 64 + z, 3)"
        using b so by (simp add: decode_rune_def Let_def cont_byte_def)
      ultimately show ?thesis by (simp add: dec [symmetric])
    next
      case 4
      define x where "x = q div 262144"
      define y where "y = q div 4096 mod 64"
      define z where "z = q div 64 mod 64"
      define u where "u = q mod 64"
      have m: "q div 4096 = q div 64 div 64" "q div 262144 = q div 4096 div 64"
        by (simp_all flip: div_mult2_eq)
      have "q = (q div 64) * 64 + u" by (simp add: u_def)
      moreover have "q div 64 = (q div 4096) * 64 + z" by (simp add: z_def m(1))
      moreover have "q div 4096 = x * 64 + y" by (simp add: x_def y_def m(2))
      ultimately have dec: "q = x * 262144 + y * 4096 + z * 64 + u" by linarith
      have b: "x < 5" "y < 64" "z < 64" "u < 64" using q by (auto simp: x_def y_def z_def u_def)
      have "x = 0 \<longrightarrow> 16 \<le> y" "x = 4 \<longrightarrow> y < 16" using 4 q b dec by auto
      then have so: "second_byte_ok (240 + x) (128 + y)"
        using b by (auto simp: second_byte_ok_def cont_byte_def)
      have "encode_rune q = [char_of (240 + x), char_of (128 + y), char_of (128 + z), char_of (128 + u)]"
        using 4 q by (simp add: encode_rune_def Let_def x_def y_def z_def u_def)
      moreover have "decode_rune [char_of (240 + x), char_of (128 + y), char_of (128 + z), char_of (128 + u)] =
          (x * 262144 + y * 4096 + z * 64 + u, 4)"
        using b so by (simp add: decode_rune_def Let_def cont_byte_def)
      ultimately show ?thesis by (simp add: dec [symmetric])
    qed
  qed
  then obtain c s where *: "encode_rune q = c # s" "decode_rune (c # s) = (q, Suc (length s))" by blast
  show ?thesis
  proof (cases "rune_bad q (Suc (length s))")
    case True
    then have "q = rune_error" "s = []" by (auto simp: rune_bad_def)
    with *(1) show ?thesis by (simp add: encode_rune_def rune_error_def)
  next
    case False
    from valid_utf8_rune [OF *(2) False] show ?thesis using * enc by simp
  qed
qed

end
