(* ===== verification/Go_Errors.thy ===== *)
theory Go_Errors
  imports Go_Time Go_Utf8
begin

text \<open>
  HTTP messages, rate limit descriptions and the error values that travel through the connector.
  Go errors form chains and trees: \<open>fmt.Errorf\<close> with a wrapping verb, \<open>errors.Join\<close>, the error
  types of \<open>net/url\<close>, \<open>oauth2\<close> and of the SDK. A message is kept as the list of its pieces, so
  that text quoted with \<open>%q\<close> stays recognisable without spelling out the quoting.
  \<open>errors.As\<close> is a search of the tree in depth-first order; \<open>status.Code\<close> reads the first gRPC
  status it finds.
\<close>

section \<open>HTTP messages\<close>

record http_response =
  rs_status :: int
  rs_status_text :: string
  rs_headers :: "(string \<times> string) list"
  rs_body :: string

record http_request =
  rq_method :: string
  rq_url :: string
  rq_headers :: "(string \<times> string) list"
  rq_body :: "string option"

text \<open>\<open>Header.Get\<close> with a name in canonical form, and \<open>Header.Set\<close>.\<close>

definition header_get :: "(string \<times> string) list \<Rightarrow> string \<Rightarrow> string" where
  "header_get hs k = (case map_of hs k of None \<Rightarrow> [] | Some v \<Rightarrow> v)"

definition header_set :: "string \<Rightarrow> string \<Rightarrow> (string \<times> string) list \<Rightarrow> (string \<times> string) list" where
  "header_set k v hs = (k, v) # filter (\<lambda>(k', _). k' \<noteq> k) hs"

lemma header_get_set [simp]: "header_get (header_set k v hs) k = v"
  by (simp add: header_get_def header_set_def)

lemma map_of_filter_other: "k' \<noteq> k \<Longrightarrow> map_of (filter (\<lambda>(a, _). a \<noteq> k) hs) k' = map_of hs k'"
  by (induction hs) auto

lemma header_get_set_other [simp]: "k' \<noteq> k \<Longrightarrow> header_get (header_set k v hs) k' = header_get hs k'"
  by (simp add: header_get_def header_set_def map_of_filter_other)

section \<open>Rate limits\<close>

datatype rl_status = RL_Unspecified | RL_OK | RL_Overlimit

record rate_limit =
  rl_status :: rl_status
  rl_limit :: int
  rl_remaining :: int
  rl_reset_at :: "timestamp option"

definition empty_rate_limit :: rate_limit where
  "empty_rate_limit = \<lparr>rl_status = RL_Unspecified, rl_limit = 0, rl_remaining = 0, rl_reset_at = None\<rparr>"

section \<open>Errors\<close>

datatype grpc_code =
    OK | Canceled | Unknown | InvalidArgument | DeadlineExceeded | NotFound | AlreadyExists
  | PermissionDenied | ResourceExhausted | FailedPrecondition | Aborted | OutOfRange
  | Unimplemented | Internal | Unavailable | DataLoss | Unauthenticated

datatype piece = S string | Q string

type_synonym msg = "piece list"

record retrieve_error =
  re_response :: "http_response option"
  re_body :: string
  re_code :: string
  re_description :: string
  re_uri :: string

datatype gerror =
    Plain msg
  | Wrap msg gerror msg
  | Status grpc_code msg "rate_limit option"
  | Joined "gerror list"
  | Retrieve retrieve_error
  | Redacted retrieve_error
  | UrlError string string gerror
  | Masked msg gerror
  | DecodeFailure gerror
  | Panicked msg

text \<open>\<open>Plain\<close> is an error with no cause, \<open>Wrap\<close> one made by \<open>fmt.Errorf\<close> around a cause.
  \<open>Redacted\<close> is the client's \<open>redactedTokenError\<close>, \<open>Masked\<close> the SDK's \<open>maskedError\<close>,
  \<open>DecodeFailure\<close> its \<open>decodeError\<close>. \<open>Panicked\<close> is not an error value of Go: it stands for a
  run-time panic, which no caller in the connector recovers from.\<close>

definition quoted :: "string \<Rightarrow> msg" where
  "quoted s = [Q s]"

fun msg_join :: "msg \<Rightarrow> msg list \<Rightarrow> msg" where
  "msg_join sep [] = []"
| "msg_join sep [m] = m"
| "msg_join sep (m # n # ms) = m @ sep @ msg_join sep (n # ms)"

text \<open>\<open>(*oauth2.RetrieveError).Error\<close>; without a response it would dereference nil, which the
  oauth2 package never builds.\<close>

definition retrieve_text :: "retrieve_error \<Rightarrow> msg" where
  "retrieve_text r =
     (if re_code r \<noteq> [] then
        [S ''oauth2: '', Q (re_code r)]
        @ (if re_description r \<noteq> [] then [S '' '', Q (re_description r)] else [])
        @ (if re_uri r \<noteq> [] then [S '' '', Q (re_uri r)] else [])
      else [S ''oauth2: cannot fetch token: '',
            S (case re_response r of None \<Rightarrow> [] | Some p \<Rightarrow> rs_status_text p),
            S ''\<newline>Response: '', S (re_body r)])"

definition redacted_text :: "retrieve_error \<Rightarrow> msg" where
  "redacted_text r =
     (if re_code r \<noteq> [] then [S ''oauth2: '', Q (re_code r)]
      else (case re_response r of
              Some p \<Rightarrow> [S ''oauth2: cannot fetch token: '', S (rs_status_text p)]
            | None \<Rightarrow> [S ''oauth2: cannot fetch token'']))"

definition code_name :: "grpc_code \<Rightarrow> string" where
  "code_name c = (case c of
     OK \<Rightarrow> ''OK'' | Canceled \<Rightarrow> ''Canceled'' | Unknown \<Rightarrow> ''Unknown''
   | InvalidArgument \<Rightarrow> ''InvalidArgument'' | DeadlineExceeded \<Rightarrow> ''DeadlineExceeded''
   | NotFound \<Rightarrow> ''NotFound'' | AlreadyExists \<Rightarrow> ''AlreadyExists''
   | PermissionDenied \<Rightarrow> ''PermissionDenied'' | ResourceExhausted \<Rightarrow> ''ResourceExhausted''
   | FailedPrecondition \<Rightarrow> ''FailedPrecondition'' | Aborted \<Rightarrow> ''Aborted''
   | OutOfRange \<Rightarrow> ''OutOfRange'' | Unimplemented \<Rightarrow> ''Unimplemented'' | Internal \<Rightarrow> ''Internal''
   | Unavailable \<Rightarrow> ''Unavailable'' | DataLoss \<Rightarrow> ''DataLoss'' | Unauthenticated \<Rightarrow> ''Unauthenticated'')"

fun error_text :: "gerror \<Rightarrow> msg" where
  "error_text (Plain m) = m"
| "error_text (Wrap pre e post) = pre @ error_text e @ post"
| "error_text (Status c m d) = [S ''rpc error: code = '', S (code_name c), S '' desc = ''] @ m"
| "error_text (Joined es) = msg_join [S ''\<newline>''] (map error_text es)"
| "error_text (Retrieve r) = retrieve_text r"
| "error_text (Redacted r) = redacted_text r"
| "error_text (UrlError op u e) = [S op, S '' '', Q u, S '': ''] @ error_text e"
| "error_text (Masked m e) = m"
| "error_text (DecodeFailure e) = error_text e"
| "error_text (Panicked m) = m"

subsection \<open>Searching the tree\<close>

fun first_some :: "'a option list \<Rightarrow> 'a option" where
  "first_some [] = None"
| "first_some (None # xs) = first_some xs"
| "first_some (Some x # xs) = Some x"

fun find_status :: "gerror \<Rightarrow> (grpc_code \<times> msg \<times> rate_limit option) option" where
  "find_status (Status c m d) = Some (c, m, d)"
| "find_status (Wrap _ e _) = find_status e"
| "find_status (Joined es) = first_some (map find_status es)"
| "find_status (UrlError _ _ e) = find_status e"
| "find_status (Masked _ e) = find_status e"
| "find_status (DecodeFailure e) = find_status e"
| "find_status _ = None"

fun find_retrieve :: "gerror \<Rightarrow> retrieve_error option" where
  "find_retrieve (Retrieve r) = Some r"
| "find_retrieve (Redacted r) = Some r"
| "find_retrieve (Wrap _ e _) = find_retrieve e"
| "find_retrieve (Joined es) = first_some (map find_retrieve es)"
| "find_retrieve (UrlError _ _ e) = find_retrieve e"
| "find_retrieve (Masked _ e) = find_retrieve e"
| "find_retrieve (DecodeFailure e) = find_retrieve e"
| "find_retrieve _ = None"

fun has_decode_failure :: "gerror \<Rightarrow> bool" where
  "has_decode_failure (DecodeFailure _) = True"
| "has_decode_failure (Wrap _ e _) = has_decode_failure e"
| "has_decode_failure (Joined es) = list_ex has_decode_failure es"
| "has_decode_failure (UrlError _ _ e) = has_decode_failure e"
| "has_decode_failure (Masked _ e) = has_decode_failure e"
| "has_decode_failure _ = False"

text \<open>\<open>status.Code\<close> of an error that is not nil.\<close>

definition status_code :: "gerror \<Rightarrow> grpc_code" where
  "status_code e = (case find_status e of None \<Rightarrow> Unknown | Some (c, _, _) \<Rightarrow> c)"

definition is_panic :: "gerror \<Rightarrow> bool" where
  "is_panic e = (case e of Panicked _ \<Rightarrow> True | _ \<Rightarrow> False)"

text \<open>\<open>errors.Join\<close> of a list without nil errors: nil when there is none.\<close>

definition errors_join :: "gerror list \<Rightarrow> gerror option" where
  "errors_join es = (if es = [] then None else Some (Joined es))"

lemma status_code_simps [simp]:
  "status_code (Plain m) = Unknown"
  "status_code (Wrap a e b) = status_code e"
  "status_code (Status c m d) = c"
  "status_code (Masked m e) = status_code e"
  "status_code (UrlError x u e) = status_code e"
  "status_code (Retrieve r) = Unknown"
  "status_code (Redacted r) = Unknown"
  "status_code (Panicked m) = Unknown"
  "status_code (Joined (Status c m d # es)) = c"
  by (simp_all add: status_code_def)

lemma status_code_Joined_none:
  "find_status e = None \<Longrightarrow> status_code (Joined (e # es)) = status_code (Joined es)"
  by (simp add: status_code_def)

lemma is_panic_simps [simp]:
  "\<not> is_panic (Plain m)" "\<not> is_panic (Wrap a e b)" "\<not> is_panic (Status c m d)" "\<not> is_panic (Joined es)"
  "is_panic (Panicked m)" "\<not> is_panic (Masked m e)" "\<not> is_panic (UrlError x u e)"
  by (simp_all add: is_panic_def)

end
