(* ===== verification/Go_Json.thy ===== *)
theory Go_Json
  imports Go_Utf8
begin

text \<open>
  What the connector uses of Go's \<open>encoding/json\<close>: the text layer (a parser with the scanner's
  grammar and nesting limit, and the encoder with its HTML-safe escaping) and the generic part of
  struct decoding (members in order, names matched without case, \<open>null\<close> leaves the target as it
  is, a value of the wrong kind makes the whole \<open>Unmarshal\<close> fail). A \<open>json.RawMessage\<close> is the
  parsed value it stands for. The main fact is that a printed value is read back as itself.
\<close>

section \<open>Values\<close>

datatype json =
    JNull
  | JBool bool
  | JNum string
  | JStr string
  | JArr "json list"
  | JObj "(string \<times> json) list"

section \<open>Strings\<close>

definition hex_val :: "char \<Rightarrow> nat option" where
  "hex_val c =
     (if 48 \<le> byte c \<and> byte c \<le> 57 then Some (byte c - 48)
      else if 97 \<le> byte c \<and> byte c \<le> 102 then Some (byte c - 87)
      else if 65 \<le> byte c \<and> byte c \<le> 70 then Some (byte c - 55)
      else None)"

definition hex_char :: "nat \<Rightarrow> char" where
  "hex_char d = (if d < 10 then char_of (48 + d) else char_of (87 + d))"

fun hex4 :: "string \<Rightarrow> (nat \<times> string) option" where
  "hex4 (a # b # c # d # t) =
     (case (hex_val a, hex_val b, hex_val c, hex_val d) of
        (Some w, Some x, Some y, Some z) \<Rightarrow> Some (((w * 16 + x) * 16 + y) * 16 + z, t)
      | _ \<Rightarrow> None)"
| "hex4 _ = None"

definition simple_escape :: "char \<Rightarrow> char option" where
  "simple_escape c =
     (if c = CHR 0x22 then Some c else if c = CHR 0x5C then Some c else if c = CHR ''/'' then Some c
      else if c = CHR ''b'' then Some (CHR 0x08) else if c = CHR ''f'' then Some (CHR 0x0C)
      else if c = CHR ''n'' then Some (CHR 0x0A) else if c = CHR ''r'' then Some (CHR 0x0D)
      else if c = CHR ''t'' then Some (CHR 0x09) else None)"

definition is_surrogate :: "nat \<Rightarrow> bool" where
  "is_surrogate r = (55296 \<le> r \<and> r < 57344)"

text \<open>A \<open>\u\<close> escape, its hex digits next in \<open>s\<close>: a surrogate pair of two escapes is one rune,
  a lone surrogate is the replacement rune.\<close>

definition unicode_escape :: "string \<Rightarrow> (string \<times> string) option" where
  "unicode_escape s =
     (case hex4 s of None \<Rightarrow> None
      | Some (r, t) \<Rightarrow>
        if \<not> is_surrogate r then Some (encode_rune r, t)
        else (case t of
            c1 # c2 # u \<Rightarrow>
              (case (if c1 = CHR 0x5C \<and> c2 = CHR ''u'' then hex4 u else None) of
                 Some (r2, v) \<Rightarrow>
                   if r < 56320 \<and> 56320 \<le> r2 \<and> r2 < 57344
                   then Some (encode_rune (65536 + (r - 55296) * 1024 + (r2 - 56320)), v)
                   else Some (encode_rune rune_error, t)
               | None \<Rightarrow> Some (encode_rune rune_error, t))
          | _ \<Rightarrow> Some (encode_rune rune_error, t)))"

text \<open>The bytes after an opening quote, up to the closing one. The fuel bounds the number of
  runes; the length of the text is always enough.\<close>

fun p_string :: "nat \<Rightarrow> string \<Rightarrow> (string \<times> string) option" where
  "p_string 0 s = None"
| "p_string (Suc n) [] = None"
| "p_string (Suc n) (c # t) =
     (if c = CHR 0x22 then Some ([], t)
      else if c = CHR 0x5C then
        (case t of [] \<Rightarrow> None
         | e # u \<Rightarrow>
           (case (if e = CHR ''u'' then unicode_escape u
                  else map_option (\<lambda>x. ([x], u)) (simple_escape e)) of
              None \<Rightarrow> None
            | Some (bs, v) \<Rightarrow> map_option (\<lambda>(a, r). (bs @ a, r)) (p_string n v)))
      else if byte c < 32 then None
      else case decode_rune (c # t) of (r, w) \<Rightarrow>
        map_option (\<lambda>(a, q). ((if rune_bad r w then encode_rune rune_error else take w (c # t)) @ a, q))
          (p_string n (drop w (c # t))))"

definition json_plain :: "nat \<Rightarrow> bool" where
  "json_plain b = (32 \<le> b \<and> b < 128 \<and> b \<notin> {34, 92, 60, 62, 38})"

definition u_escape :: "nat \<Rightarrow> string" where
  "u_escape r = CHR 0x5C # CHR ''u'' #
     [hex_char (r div 4096 mod 16), hex_char (r div 256 mod 16),
      hex_char (r div 16 mod 16), hex_char (r mod 16)]"

definition quote_rune :: "nat \<Rightarrow> string \<Rightarrow> string" where
  "quote_rune r bs =
     (if r < 128 then
        (if json_plain r then bs
         else if r = 34 \<or> r = 92 then CHR 0x5C # bs
         else if r = 8 then [CHR 0x5C, CHR ''b''] else if r = 12 then [CHR 0x5C, CHR ''f'']
         else if r = 10 then [CHR 0x5C, CHR ''n''] else if r = 13 then [CHR 0x5C, CHR ''r'']
         else if r = 9 then [CHR 0x5C, CHR ''t'']
         else u_escape r)
      else if rune_bad r (length bs) then u_escape rune_error
      else if r = 8232 \<or> r = 8233 then u_escape r
      else bs)"

definition quote_body :: "string \<Rightarrow> string" where
  "quote_body s = concat (map (\<lambda>(r, bs). quote_rune r bs) (runes s))"

definition quote :: "string \<Rightarrow> string" where
  "quote s = CHR 0x22 # quote_body s @ [CHR 0x22]"

section \<open>Numbers\<close>

definition num_char :: "char \<Rightarrow> bool" where
  "num_char c = (is_digit c \<or> c \<in> {CHR ''-'', CHR ''+'', CHR ''.'', CHR ''e'', CHR ''E''})"

definition valid_exp :: "string \<Rightarrow> bool" where
  "valid_exp s =
     (case s of [] \<Rightarrow> True
      | c # t \<Rightarrow> (c = CHR ''e'' \<or> c = CHR ''E'') \<and>
          (let u = (case t of d # v \<Rightarrow> if d = CHR ''+'' \<or> d = CHR ''-'' then v else t | [] \<Rightarrow> t)
           in u \<noteq> [] \<and> list_all is_digit u))"

definition valid_frac_exp :: "string \<Rightarrow> bool" where
  "valid_frac_exp s =
     (case s of
        c # t \<Rightarrow> if c = CHR ''.''
          then (let ds = takeWhile is_digit t in ds \<noteq> [] \<and> valid_exp (drop (length ds) t))
          else valid_exp s
      | [] \<Rightarrow> True)"

definition valid_num :: "string \<Rightarrow> bool" where
  "valid_num s0 =
     (let s = trim_prefix s0 ''-''; ds = takeWhile is_digit s
      in ds \<noteq> [] \<and> (hd ds = CHR ''0'' \<longrightarrow> length ds = 1) \<and> valid_frac_exp (drop (length ds) s))"

text \<open>Decoding a number into a signed 64-bit integer: a literal with a fraction or an exponent,
  or out of range, is an error.\<close>

definition num_int64 :: "string \<Rightarrow> int option" where
  "num_int64 s =
     (let neg = has_prefix s ''-''; ds = trim_prefix s ''-'';
          v = (if neg then - int (digits_val ds) else int (digits_val ds))
      in if ds \<noteq> [] \<and> list_all is_digit ds \<and> - (2 ^ 63) \<le> v \<and> v < 2 ^ 63 then Some v else None)"

section \<open>Reading a value\<close>

definition is_ws :: "char \<Rightarrow> bool" where
  "is_ws c = (c \<in> {CHR 0x20, CHR 0x09, CHR 0x0A, CHR 0x0D})"

definition skip_ws :: "string \<Rightarrow> string" where
  "skip_ws s = dropWhile is_ws s"

definition p_literal :: "string \<Rightarrow> (json \<times> string) option" where
  "p_literal s =
     (if has_prefix s ''true'' then Some (JBool True, drop 4 s)
      else if has_prefix s ''false'' then Some (JBool False, drop 5 s)
      else if has_prefix s ''null'' then Some (JNull, drop 4 s)
      else let l = takeWhile num_char s in
        if valid_num l then Some (JNum l, drop (length l) s) else None)"

text \<open>\<open>d\<close> is the nesting still allowed; the fuel \<open>n\<close> bounds the calls in a chain, of which
  every second one consumes a byte, so twice the length of the text and two more are enough.\<close>

fun p_value :: "nat \<Rightarrow> nat \<Rightarrow> string \<Rightarrow> (json \<times> string) option"
and p_elems :: "nat \<Rightarrow> nat \<Rightarrow> string \<Rightarrow> (json list \<times> string) option"
and p_members :: "nat \<Rightarrow> nat \<Rightarrow> string \<Rightarrow> ((string \<times> json) list \<times> string) option" where
  "p_value 0 d s = None"
| "p_value (Suc n) d s =
     (case skip_ws s of [] \<Rightarrow> None
      | c # t \<Rightarrow>
        if c = CHR 0x22 then map_option (\<lambda>(a, r). (JStr a, r)) (p_string (length t) t)
        else if c = CHR ''['' then
          (if d = 0 then None
           else if has_prefix (skip_ws t) '']'' then Some (JArr [], drop 1 (skip_ws t))
           else map_option (\<lambda>(xs, r). (JArr xs, r)) (p_elems n (d - 1) t))
        else if c = CHR ''{'' then
          (if d = 0 then None
           else if has_prefix (skip_ws t) ''}'' then Some (JObj [], drop 1 (skip_ws t))
           else map_option (\<lambda>(ms, r). (JObj ms, r)) (p_members n (d - 1) t))
        else p_literal (c # t))"
| "p_elems 0 d s = None"
| "p_elems (Suc n) d s =
     (case p_value n d s of None \<Rightarrow> None
      | Some (v, r) \<Rightarrow>
        (case skip_ws r of [] \<Rightarrow> None
         | c # u \<Rightarrow>
           if c = CHR '','' then map_option (\<lambda>(vs, w). (v # vs, w)) (p_elems n d u)
           else if c = CHR '']'' then Some ([v], u) else None))"
| "p_members 0 d s = None"
| "p_members (Suc n) d s =
     (case skip_ws s of [] \<Rightarrow> None
      | q # t \<Rightarrow>
        (case (if q = CHR 0x22 then p_string (length t) t else None) of None \<Rightarrow> None
         | Some (k, r0) \<Rightarrow>
           (case skip_ws r0 of [] \<Rightarrow> None
            | co # r1 \<Rightarrow>
              if co \<noteq> CHR '':'' then None
              else (case p_value n d r1 of None \<Rightarrow> None
                | Some (v, r) \<Rightarrow>
                  (case skip_ws r of [] \<Rightarrow> None
                   | c # u \<Rightarrow>
                     if c = CHR '','' then map_option (\<lambda>(ms, w). ((k, v) # ms, w)) (p_members n d u)
                     else if c = CHR ''}'' then Some ([(k, v)], u) else None)))))"

definition max_nesting :: nat where
  "max_nesting = 10000"

definition parse_json :: "string \<Rightarrow> json option" where
  "parse_json s =
     (case p_value (2 * length s + 2) max_nesting s of
        Some (j, r) \<Rightarrow> if skip_ws r = [] then Some j else None
      | None \<Rightarrow> None)"

section \<open>Writing a value\<close>

fun print_json :: "json \<Rightarrow> string" where
  "print_json JNull = ''null''"
| "print_json (JBool b) = (if b then ''true'' else ''false'')"
| "print_json (JNum s) = s"
| "print_json (JStr s) = quote s"
| "print_json (JArr xs) = ''['' @ go_join (map print_json xs) '','' @ '']''"
| "print_json (JObj ms) =
     ''{'' @ go_join (map (\<lambda>(k, v). quote k @ '':'' @ print_json v) ms) '','' @ ''}''"

section \<open>Reading back what was written\<close>

lemma hex_val_char: "d < 16 \<Longrightarrow> hex_val (hex_char d) = Some d"
  by (simp add: hex_val_def hex_char_def)

lemma hex4_shown:
  assumes "r < 65536"
  shows "hex4 (hex_char (r div 4096 mod 16) # hex_char (r div 256 mod 16) #
      hex_char (r div 16 mod 16) # hex_char (r mod 16) # t) = Some (r, t)"
proof -
  have m: "r div 256 = r div 16 div 16" "r div 4096 = r div 256 div 16"
    by (simp_all flip: div_mult2_eq)
  have lt: "r div 4096 < 16" using assms by simp
  then have "r div 4096 mod 16 = r div 4096" by simp
  moreover have "r div 4096 * 16 + r div 256 mod 16 = r div 256" unfolding m(2) by simp
  moreover have "r div 256 * 16 + r div 16 mod 16 = r div 16" unfolding m(1) by simp
  moreover have "r div 16 * 16 + r mod 16 = r" by simp
  ultimately show ?thesis using lt by (simp add: hex_val_char)
qed

lemma p_string_u_escape:
  assumes "r < 65536" "\<not> is_surrogate r"
  shows "p_string (Suc n) (u_escape r @ t) = map_option (\<lambda>(a, q). (encode_rune r @ a, q)) (p_string n t)"
proof -
  have "unicode_escape ([hex_char (r div 4096 mod 16), hex_char (r div 256 mod 16),
      hex_char (r div 16 mod 16), hex_char (r mod 16)] @ t) = Some (encode_rune r, t)"
    using assms(2) unfolding unicode_escape_def append.simps hex4_shown [OF assms(1)] by simp
  then show ?thesis by (simp add: u_escape_def del: hex4.simps)
qed

lemma p_string_quote_rune:
  assumes d: "decode_rune (c # s) = (r, w)" and ok: "\<not> rune_bad r w"
  shows "p_string (Suc n) (quote_rune r (take w (c # s)) @ t) =
     map_option (\<lambda>(a, q). (take w (c # s) @ a, q)) (p_string n t)"
proof -
  note enc = encode_decode [OF d ok]
  show ?thesis
  proof (cases "r < 128")
    case True
    from decode_rune_ascii [OF d True] have w: "w = 1" and r: "r = byte c" by auto
    have c: "take w (c # s) = [c]" by (simp add: w)
    have chr: "c = char_of r" by (simp add: r)
    consider "json_plain r" | k where "k \<in> {CHR 0x22, CHR 0x5C, CHR 0x08, CHR 0x0C, CHR 0x0A, CHR 0x0D, CHR 0x09}"
        "r = byte k"
      | "\<not> json_plain r" "r \<notin> {34, 92, 8, 12, 10, 13, 9}" by fastforce
    then show ?thesis
    proof cases
      case 1
      then have "c \<noteq> CHR 0x22" "c \<noteq> CHR 0x5C" "\<not> byte c < 32" "byte c < 128"
        by (auto simp: json_plain_def r)
      then show ?thesis using True 1 unfolding c
        by (simp add: quote_rune_def decode_rune_def rune_bad_def rune_error_def)
    next
      case 2
      then have "c = k" using r by simp
      with 2 show ?thesis unfolding c
        by (elim insertE emptyE) (simp_all add: quote_rune_def json_plain_def simple_escape_def)
    next
      case 3
      have "\<not> is_surrogate r" "r < 65536" using True by (auto simp: is_surrogate_def)
      moreover have "encode_rune r = [c]" using True by (simp add: encode_rune_def chr)
      ultimately show ?thesis using True 3 unfolding c
        by (simp add: quote_rune_def p_string_u_escape)
    qed
  next
    case False
    have len: "length (take w (c # s)) = w" using decode_rune_width [OF d] by auto
    show ?thesis
    proof (cases "r = 8232 \<or> r = 8233")
      case True
      then show ?thesis using False ok enc
        by (auto simp: quote_rune_def len rune_bad_def rune_error_def p_string_u_escape is_surrogate_def)
    next
      case 2: False
      have hi: "128 \<le> byte c" using decode_rune_high [OF d] False by simp
      obtain k where k: "w = Suc k" using decode_rune_width [OF d] by (cases w) auto
      have "decode_rune (c # take k s @ t) = (r, w)"
        using decode_rune_local [OF d ok, of t] k by simp
      moreover have "c \<noteq> CHR 0x22" "c \<noteq> CHR 0x5C" "\<not> byte c < 32" using hi by auto
      ultimately show ?thesis using False 2 ok k len
        by (simp add: quote_rune_def)
    qed
  qed
qed

lemma p_string_quote_body:
  assumes "valid_utf8 s" "length (runes s) < n"
  shows "p_string n (quote_body s @ CHR 0x22 # t) = Some (s, t)"
  using assms
proof (induction s arbitrary: n rule: runes_induct)
  case Nil
  then show ?case by (cases n) (simp_all add: quote_body_def)
next
  case (step c s r w)
  obtain m where m: "n = Suc m" using step.prems by (cases n) auto
  have ok: "\<not> rune_bad r w" and rest: "valid_utf8 (drop w (c # s))"
    using step.prems(1) step.hyps by (auto simp: valid_utf8_def runes_step [OF step(1)] min_def split: if_splits)
  have "length (runes (drop w (c # s))) < m"
    using step.prems(2) m by (simp add: runes_step [OF step(1)])
  note IH = step.IH [OF rest this]
  have "quote_body (c # s) = quote_rune r (take w (c # s)) @ quote_body (drop w (c # s))"
    by (simp add: quote_body_def runes_step [OF step(1)])
  then show ?case
    unfolding m using p_string_quote_rune [OF step(1) ok] IH by (simp add: append_assoc)
qed

lemma quote_rune_nonempty: "bs \<noteq> [] \<Longrightarrow> quote_rune r bs \<noteq> []"
  by (simp add: quote_rune_def u_escape_def)

lemma runes_nonempty: "(r, bs) \<in> set (runes s) \<Longrightarrow> bs \<noteq> []"
proof (induction s rule: runes_induct)
  case (step c s r' w)
  then show ?case by (auto simp: runes_step [OF step(1)])
qed simp

lemma length_quote_body: "length (runes s) \<le> length (quote_body s)"
proof -
  have "length xs \<le> length (concat (map (\<lambda>(r, bs). quote_rune r bs) xs))"
    if "\<forall>(r, bs) \<in> set xs. bs \<noteq> []" for xs
    using that
  proof (induction xs)
    case (Cons x xs)
    obtain r bs where x: "x = (r, bs)" by fastforce
    then have "quote_rune r bs \<noteq> []" using Cons.prems quote_rune_nonempty by auto
    then have "1 \<le> length (quote_rune r bs)" by (simp add: Suc_le_eq)
    moreover have "length xs \<le> length (concat (map (\<lambda>(r, bs). quote_rune r bs) xs))"
      using Cons by simp
    ultimately show ?case by (simp add: x)
  qed simp
  then show ?thesis unfolding quote_body_def using runes_nonempty by fast
qed

lemma p_string_quote:
  "valid_utf8 s \<Longrightarrow>
     p_string (length (quote_body s @ CHR 0x22 # t)) (quote_body s @ CHR 0x22 # t) = Some (s, t)"
  by (rule p_string_quote_body) (simp_all add: le_imp_less_Suc length_quote_body trans_le_add1)

text \<open>A value that the parser can read back: valid text, number literals, bounded nesting.\<close>

fun depth :: "json \<Rightarrow> nat" where
  "depth (JArr xs) = Suc (fold max (map depth xs) 0)"
| "depth (JObj ms) = Suc (fold max (map (depth \<circ> snd) ms) 0)"
| "depth _ = 0"

fun wf_json :: "json \<Rightarrow> bool" where
  "wf_json (JNum s) = (valid_num s \<and> list_all num_char s)"
| "wf_json (JStr s) = valid_utf8 s"
| "wf_json (JArr xs) = list_all wf_json xs"
| "wf_json (JObj ms) = list_all (\<lambda>(k, v). valid_utf8 k \<and> wf_json v) ms"
| "wf_json _ = True"

definition ends_number :: "string \<Rightarrow> bool" where
  "ends_number t = (case t of [] \<Rightarrow> True | c # _ \<Rightarrow> \<not> num_char c)"

lemma valid_num_head:
  assumes "valid_num s" shows "\<exists>c u. s = c # u \<and> (c = CHR ''-'' \<or> is_digit c)"
proof -
  have "takeWhile is_digit (trim_prefix s ''-'') \<noteq> []"
    using assms by (simp add: valid_num_def Let_def)
  then show ?thesis
    by (cases s) (auto simp: trim_prefix_def has_prefix_def split: if_splits)
qed

definition value_head :: "char \<Rightarrow> bool" where
  "value_head c = (c \<in> {CHR ''n'', CHR ''t'', CHR ''f'', CHR 0x22, CHR ''['', CHR ''{'', CHR ''-''} \<or> is_digit c)"

lemma print_json_head: "wf_json j \<Longrightarrow> \<exists>c u. print_json j = c # u \<and> value_head c"
  by (cases j) (auto simp: value_head_def quote_def dest: valid_num_head)

lemma value_headD:
  "value_head c \<Longrightarrow> \<not> is_ws c \<and> c \<noteq> CHR '']'' \<and> c \<noteq> CHR ''}'' \<and> c \<noteq> CHR '',''"
  by (auto simp: value_head_def is_ws_def is_digit_def)

lemma skip_ws_print [simp]: "wf_json j \<Longrightarrow> skip_ws (print_json j @ t) = print_json j @ t"
  using print_json_head [of j] value_headD by (auto simp: skip_ws_def)

lemma skip_ws_Cons: "\<not> is_ws c \<Longrightarrow> skip_ws (c # t) = c # t"
  by (simp add: skip_ws_def)

lemma p_literal_number:
  assumes "valid_num s" "list_all num_char s" "ends_number t"
  shows "p_literal (s @ t) = Some (JNum s, t)"
proof -
  obtain c u where s: "s = c # u" "c = CHR ''-'' \<or> is_digit c" using valid_num_head [OF assms(1)] by blast
  have "takeWhile num_char (s @ t) = s"
    using assms(2,3) by (cases t) (auto simp: ends_number_def takeWhile_append2 list_all_iff)
  moreover have "\<not> has_prefix (s @ t) ''true''" "\<not> has_prefix (s @ t) ''false''" "\<not> has_prefix (s @ t) ''null''"
    using s by (auto simp: has_prefix_def is_digit_def)
  ultimately show ?thesis using assms(1) by (simp add: p_literal_def Let_def)
qed

lemma p_value_number:
  assumes "valid_num s" "list_all num_char s" "ends_number t"
  shows "p_value (Suc n) d (s @ t) = Some (JNum s, t)"
proof -
  obtain c u where s: "s = c # u" "c = CHR ''-'' \<or> is_digit c" using valid_num_head [OF assms(1)] by blast
  have "value_head c" using s(2) by (auto simp: value_head_def)
  then have "skip_ws (s @ t) = c # u @ t" using value_headD s(1) by (simp add: skip_ws_def)
  moreover have "c \<noteq> CHR 0x22" "c \<noteq> CHR ''[''" "c \<noteq> CHR ''{''" using s(2) by (auto simp: is_digit_def)
  ultimately show ?thesis using p_literal_number [OF assms] s(1) by simp
qed

lemma p_value_string: "valid_utf8 s \<Longrightarrow> p_value (Suc n) d (quote s @ t) = Some (JStr s, t)"
  using p_string_quote [of s t] by (simp add: quote_def skip_ws_Cons is_ws_def)

lemma p_elems_print:
  assumes "xs \<noteq> []" "list_all wf_json xs" "length (go_join (map print_json xs) '','') < n"
    and "\<And>x n t. x \<in> set xs \<Longrightarrow> length (print_json x) \<le> n \<Longrightarrow> ends_number t
           \<Longrightarrow> p_value n d (print_json x @ t) = Some (x, t)"
  shows "p_elems n d (go_join (map print_json xs) '','' @ CHR '']'' # t) = Some (xs, t)"
  using assms
proof (induction xs arbitrary: n)
  case (Cons x xs)
  obtain m where m: "n = Suc m" using Cons.prems(3) by (cases n) auto
  show ?case
  proof (cases xs)
    case Nil
    with Cons.prems(3) m have "length (print_json x) \<le> m" by simp
    with Cons.prems(4) [of x m "CHR '']'' # t"] m Nil show ?thesis
      by (simp add: ends_number_def num_char_def is_digit_def skip_ws_Cons is_ws_def)
  next
    case (Cons y ys)
    let ?rest = "go_join (map print_json xs) '',''"
    have join: "go_join (map print_json (x # xs)) '','' = print_json x @ CHR '','' # ?rest"
      using Cons by simp
    have len: "length (print_json x) \<le> m" "length ?rest < m"
      using Cons.prems(3) m unfolding join by auto
    have 1: "p_value m d (print_json x @ CHR '','' # ?rest @ CHR '']'' # t) =
        Some (x, CHR '','' # ?rest @ CHR '']'' # t)"
      using Cons.prems(4) [of x m] len(1) by (simp add: ends_number_def num_char_def is_digit_def)
    have 2: "p_elems m d (?rest @ CHR '']'' # t) = Some (xs, t)"
      using Cons.IH [of m] Cons.prems len(2) Cons by simp
    show ?thesis unfolding join m using 1 2
      by (simp add: skip_ws_Cons is_ws_def)
  qed
qed simp


definition print_member :: "string \<times> json \<Rightarrow> string" where
  "print_member m = quote (fst m) @ CHR '':'' # print_json (snd m)"

lemma print_json_obj:
  "print_json (JObj ms) = ''{'' @ go_join (map print_member ms) '','' @ ''}''"
  by (simp add: print_member_def [abs_def] case_prod_beta')

declare print_json.simps(6) [simp del]

lemma p_members_step:
  assumes k: "valid_utf8 k" and v: "p_value m d (print_json v @ c # u) = Some (v, c # u)"
    and c: "\<not> is_ws c"
  shows "p_members (Suc m) d (print_member (k, v) @ c # u) =
     (if c = CHR '','' then map_option (\<lambda>(ms, w). ((k, v) # ms, w)) (p_members m d u)
      else if c = CHR ''}'' then Some ([(k, v)], u) else None)"
  using v p_string_quote [OF k, of "CHR '':'' # print_json v @ c # u"]
  by (simp add: print_member_def quote_def skip_ws_Cons [OF c] skip_ws_Cons is_ws_def)

lemma p_members_print:
  assumes "ms \<noteq> []" "list_all (\<lambda>(k, v). valid_utf8 k \<and> wf_json v) ms"
    and "length (go_join (map print_member ms) '','') < n"
    and "\<And>k v n t. (k, v) \<in> set ms \<Longrightarrow> length (print_json v) \<le> n \<Longrightarrow> ends_number t
           \<Longrightarrow> p_value n d (print_json v @ t) = Some (v, t)"
  shows "p_members n d (go_join (map print_member ms) '','' @ CHR ''}'' # t) = Some (ms, t)"
  using assms
proof (induction ms arbitrary: n)
  case (Cons x xs)
  obtain m where m: "n = Suc m" using Cons.prems(3) by (cases n) auto
  obtain k v where x: "x = (k, v)" by fastforce
  have k: "valid_utf8 k" using Cons.prems(2) x by simp
  have lenv: "length (print_json v) \<le> length (print_member x)" by (simp add: x print_member_def)
  have pv: "p_value m d (print_json v @ c # u) = Some (v, c # u)"
    if "length (print_json v) \<le> m" "c = CHR '','' \<or> c = CHR ''}''" for c u
    using Cons.prems(4) [of k v m "c # u"] that x
    by (auto simp: ends_number_def num_char_def is_digit_def)
  show ?case
  proof (cases xs)
    case Nil
    with Cons.prems(3) m lenv have "length (print_json v) \<le> m" by simp
    from p_members_step [OF k pv [OF this]] m Nil x show ?thesis by (simp add: is_ws_def)
  next
    case (Cons y ys)
    let ?rest = "go_join (map print_member xs) '',''"
    have join: "go_join (map print_member (x # xs)) '','' = print_member x @ CHR '','' # ?rest"
      using Cons by simp
    have len: "length (print_json v) \<le> m" "length ?rest < m"
      using Cons.prems(3) m lenv unfolding join by auto
    have 2: "p_members m d (?rest @ CHR ''}'' # t) = Some (xs, t)"
    proof (rule Cons.IH)
      show "p_value n d (print_json v @ t) = Some (v, t)"
        if "(k, v) \<in> set xs" "length (print_json v) \<le> n" "ends_number t" for k v n t
        using Cons.prems(4) [of k v n t] that by simp
    qed (use Cons.prems(2) len(2) Cons in simp_all)
    have "p_members (Suc m) d (print_member (k, v) @ CHR '','' # ?rest @ CHR ''}'' # t) = Some ((k, v) # xs, t)"
      using p_members_step [OF k pv [OF len(1)], of "CHR '',''" "?rest @ CHR ''}'' # t"] 2
      by (simp add: is_ws_def del: p_members.simps)
    then show ?thesis by (simp only: m join append_assoc append_Cons flip: x)
  qed
qed simp

lemma fold_max_le: "fold max xs (a::nat) \<le> d \<longleftrightarrow> a \<le> d \<and> (\<forall>x\<in>set xs. x \<le> d)"
  by (induction xs arbitrary: a) auto

lemma p_value_print:
  "wf_json j \<Longrightarrow> depth j \<le> d \<Longrightarrow> length (print_json j) \<le> n \<Longrightarrow> ends_number t \<Longrightarrow>
     p_value n d (print_json j @ t) = Some (j, t)"
proof (induction j arbitrary: n d t)
  case JNull
  then show ?case by (cases n) (auto simp: skip_ws_Cons is_ws_def p_literal_def has_prefix_def)
next
  case (JBool b)
  then show ?case
    by (cases n) (auto simp: skip_ws_Cons is_ws_def p_literal_def has_prefix_def split: if_splits)
next
  case (JNum s)
  then have "s \<noteq> []" using valid_num_head by fastforce
  with JNum show ?case by (cases n) (simp_all add: p_value_number del: p_value.simps(2))
next
  case (JStr s)
  then have "0 < n" by (simp add: quote_def)
  with JStr show ?case by (cases n) (simp_all add: p_value_string del: p_value.simps(2))
next
  case (JArr xs)
  obtain m where m: "n = Suc m" using JArr.prems(3) by (cases n) auto
  obtain e where e: "d = Suc e" using JArr.prems(2) by (cases d) auto
  show ?case
  proof (cases xs)
    case Nil
    then show ?thesis using m e by (simp add: skip_ws_Cons is_ws_def has_prefix_def)
  next
    case (Cons y ys)
    have wf: "wf_json y" using JArr.prems(1) Cons by simp
    have "p_elems m e (go_join (map print_json xs) '','' @ CHR '']'' # t) = Some (xs, t)"
    proof (rule p_elems_print)
      show "xs \<noteq> []" by (simp add: Cons)
      show "list_all wf_json xs" using JArr.prems(1) by simp
      show "length (go_join (map print_json xs) '','') < m" using JArr.prems(3) m by simp
      show "p_value n e (print_json x @ t) = Some (x, t)"
        if "x \<in> set xs" "length (print_json x) \<le> n" "ends_number t" for x n t
      proof (rule JArr.IH)
        show "wf_json x" using JArr.prems(1) that(1) by (simp add: list_all_iff)
        show "depth x \<le> e" using JArr.prems(2) that(1) e by (simp add: fold_max_le)
      qed (use that in simp_all)
    qed
    moreover have "\<not> has_prefix (skip_ws (go_join (map print_json xs) '','' @ CHR '']'' # t)) '']''"
      "skip_ws (go_join (map print_json xs) '','' @ CHR '']'' # t) =
         go_join (map print_json xs) '','' @ CHR '']'' # t"
      using print_json_head [OF wf] value_headD Cons
      by (cases ys; auto simp: skip_ws_def has_prefix_def)+
    ultimately show ?thesis using m e by (simp add: skip_ws_Cons is_ws_def)
  qed
next
  case (JObj ms)
  obtain m where m: "n = Suc m" using JObj.prems(3) by (cases n) (auto simp: print_json_obj)
  obtain e where e: "d = Suc e" using JObj.prems(2) by (cases d) auto
  show ?case
  proof (cases ms)
    case Nil
    then show ?thesis using m e by (simp add: print_json_obj skip_ws_Cons is_ws_def has_prefix_def)
  next
    case (Cons y ys)
    have "p_members m e (go_join (map print_member ms) '','' @ CHR ''}'' # t) = Some (ms, t)"
    proof (rule p_members_print)
      show "ms \<noteq> []" by (simp add: Cons)
      show "list_all (\<lambda>(k, v). valid_utf8 k \<and> wf_json v) ms" using JObj.prems(1) by simp
      show "length (go_join (map print_member ms) '','') < m"
        using JObj.prems(3) m by (simp add: print_json_obj)
      show "p_value n e (print_json v @ t) = Some (v, t)"
        if "(k, v) \<in> set ms" "length (print_json v) \<le> n" "ends_number t" for k v n t
      proof (rule JObj.IH [of "(k, v)" v])
        show "wf_json v" using JObj.prems(1) that(1) by (auto simp: list_all_iff)
        show "depth v \<le> e" using JObj.prems(2) that(1) e by (force simp: fold_max_le)
      qed (use that in \<open>simp_all\<close>)
    qed
    moreover have "\<exists>u. go_join (map print_member ms) '','' @ CHR ''}'' # t = CHR 0x22 # u"
      using Cons by (cases ys) (auto simp: print_member_def quote_def)
    then obtain u where u: "go_join (map print_member ms) '','' @ CHR ''}'' # t = CHR 0x22 # u" by blast
    ultimately have "p_members m e (CHR 0x22 # u) = Some (ms, t)" by simp
    then show ?thesis using m e u
      by (simp add: print_json_obj skip_ws_Cons is_ws_def has_prefix_def del: p_members.simps)
  qed
qed

lemma parse_json_ws:
  assumes "wf_json j" "depth j \<le> max_nesting" "skip_ws t = []"
  shows "parse_json (print_json j @ t) = Some j"
proof -
  have "\<not> num_char c" if "is_ws c" for c
    using that by (auto simp: is_ws_def num_char_def is_digit_def)
  then have "ends_number t" using assms(3)
    by (cases t) (auto simp: ends_number_def skip_ws_def split: if_splits)
  with assms have "p_value (2 * length (print_json j @ t) + 2) max_nesting (print_json j @ t) = Some (j, t)"
    by (intro p_value_print) simp_all
  with assms(3) show ?thesis unfolding parse_json_def by (simp only: option.case prod.case if_True simp_thms)
qed

lemma parse_print_json:
  assumes "wf_json j" "depth j \<le> max_nesting"
  shows "parse_json (print_json j) = Some j"
  using parse_json_ws [OF assms, of "[]"] by (simp add: skip_ws_def)

declare p_value.simps(2) [simp del] p_elems.simps(2) [simp del] p_members.simps(2) [simp del]

section \<open>What is read is well formed\<close>

lemma valid_utf8_Nil [simp]: "valid_utf8 []"
  by (simp add: valid_utf8_def)

lemma unicode_escape_valid: "unicode_escape s = Some (bs, v) \<Longrightarrow> valid_utf8 bs"
  by (auto simp: unicode_escape_def split: option.splits if_splits list.splits)

lemma simple_escape_valid: "simple_escape c = Some x \<Longrightarrow> valid_utf8 [x]"
  by (auto simp: simple_escape_def intro!: valid_utf8_ascii split: if_splits)

lemma p_string_valid: "p_string n s = Some (a, t) \<Longrightarrow> valid_utf8 a"
proof (induction n s arbitrary: a t rule: p_string.induct)
  case (3 n c u)
  show ?case
  proof (cases "c = CHR 0x22 \<or> c = CHR 0x5C")
    case True
    then show ?thesis using "3.prems" "3.IH"(1)
      by (auto split: list.splits option.splits if_splits
          intro!: valid_utf8_append dest: unicode_escape_valid simple_escape_valid)
  next
    case False
    obtain r w where d: "decode_rune (c # u) = (r, w)" by fastforce
    from False "3.prems" d have nc: "\<not> byte c < 32" by (auto split: if_splits)
    with False "3.prems" d obtain b where b: "p_string n (drop w (c # u)) = Some (b, t)"
      "a = (if rune_bad r w then encode_rune rune_error else take w (c # u)) @ b" by auto
    have "valid_utf8 b" using "3.IH"(2) [OF _ _ nc d [symmetric] b(1)] False by simp
    moreover have "valid_utf8 (if rune_bad r w then encode_rune rune_error else take w (c # u))"
      using valid_utf8_rune [OF d] by simp
    ultimately show ?thesis using b(2) valid_utf8_append by simp
  qed
qed simp_all

lemma p_literal_wf: "p_literal s = Some (j, t) \<Longrightarrow> wf_json j"
proof -
  assume "p_literal s = Some (j, t)"
  then have "j = JNull \<or> (\<exists>b. j = JBool b) \<or>
      (valid_num (takeWhile num_char s) \<and> j = JNum (takeWhile num_char s))"
    by (auto simp: p_literal_def Let_def split: if_splits)
  then show ?thesis by (auto simp: list_all_iff dest: set_takeWhileD)
qed

lemma p_value_wf:
  "p_value n d s = Some (j, t) \<Longrightarrow> wf_json j"
  "p_elems n d s = Some (js, t) \<Longrightarrow> list_all wf_json js"
  "p_members n d s = Some (ms, t) \<Longrightarrow> list_all (\<lambda>(k, v). valid_utf8 k \<and> wf_json v) ms"
proof (induction n d s and n d s and n d s arbitrary: j t and js t and ms t
    rule: p_value_p_elems_p_members.induct)
  case (2 n d s)
  then show ?case
    by (auto simp: p_value.simps(2) dest: p_string_valid p_literal_wf split: list.splits if_splits)
next
  case (4 n d s)
  then show ?case by (auto simp: p_elems.simps(2) split: option.splits list.splits if_splits)
next
  case (6 n d s)
  then show ?case
    by (auto simp: p_members.simps(2) split: option.splits list.splits if_splits) (erule p_string_valid)+
qed simp_all

lemma parse_json_wf: "parse_json s = Some j \<Longrightarrow> wf_json j"
  by (auto simp: parse_json_def dest: p_value_wf(1) split: option.splits if_splits)


section \<open>Struct decoding\<close>

text \<open>\<open>foldName\<close>: ASCII letters in upper case, and the two other runes that fold to one.\<close>

definition fold_rune :: "nat \<Rightarrow> nat" where
  "fold_rune r =
     (if 97 \<le> r \<and> r \<le> 122 then r - 32 else if r = 383 then 83 else if r = 8490 then 75 else r)"

definition key_matches :: "string \<Rightarrow> string \<Rightarrow> bool" where
  "key_matches name key =
     (map (fold_rune \<circ> fst) (runes key) = map (fold_rune \<circ> byte) name)"

text \<open>A decoder takes the value and the target as it is, and gives the target updated, or
  \<open>None\<close> when \<open>Unmarshal\<close> reports a mismatch. A repeated member is decoded into what the first
  left, as in Go; a list member reuses the elements the target already has.\<close>

type_synonym 'a decoder = "json \<Rightarrow> 'a \<Rightarrow> 'a option"

fun find_field :: "(string \<times> 'a decoder) list \<Rightarrow> string \<Rightarrow> 'a decoder option" where
  "find_field [] k = None"
| "find_field ((n, d) # fs) k = (if key_matches n k then Some d else find_field fs k)"

fun decode_members :: "(string \<times> 'a decoder) list \<Rightarrow> (string \<times> json) list \<Rightarrow> 'a \<Rightarrow> 'a option" where
  "decode_members fs [] a = Some a"
| "decode_members fs ((k, v) # ms) a =
     (case find_field fs k of
        None \<Rightarrow> decode_members fs ms a
      | Some d \<Rightarrow> Option.bind (d v a) (decode_members fs ms))"

definition decode_struct :: "(string \<times> 'a decoder) list \<Rightarrow> 'a decoder" where
  "decode_struct fs j a =
     (case j of JNull \<Rightarrow> Some a | JObj ms \<Rightarrow> decode_members fs ms a | _ \<Rightarrow> None)"

definition dec_string :: "(string \<Rightarrow> 'a \<Rightarrow> 'a) \<Rightarrow> 'a decoder" where
  "dec_string upd j a =
     (case j of JNull \<Rightarrow> Some a | JStr s \<Rightarrow> Some (upd s a) | _ \<Rightarrow> None)"

definition dec_bool :: "(bool \<Rightarrow> 'a \<Rightarrow> 'a) \<Rightarrow> 'a decoder" where
  "dec_bool upd j a =
     (case j of JNull \<Rightarrow> Some a | JBool b \<Rightarrow> Some (upd b a) | _ \<Rightarrow> None)"

definition dec_int :: "(int \<Rightarrow> 'a \<Rightarrow> 'a) \<Rightarrow> 'a decoder" where
  "dec_int upd j a =
     (case j of JNull \<Rightarrow> Some a | JNum s \<Rightarrow> map_option (\<lambda>i. upd i a) (num_int64 s) | _ \<Rightarrow> None)"

text \<open>A pointer field: \<open>null\<close> sets nil, anything else is decoded into the value pointed to, a
  zero value when there was none. The same for a struct held by value.\<close>

definition dec_pointer ::
  "'b decoder \<Rightarrow> 'b \<Rightarrow> ('a \<Rightarrow> 'b option) \<Rightarrow> ('b option \<Rightarrow> 'a \<Rightarrow> 'a) \<Rightarrow> 'a decoder" where
  "dec_pointer d zero get upd j a =
     (if j = JNull then Some (upd None a)
      else map_option (\<lambda>b. upd (Some b) a) (d j (case get a of None \<Rightarrow> zero | Some b \<Rightarrow> b)))"

definition dec_nested :: "'b decoder \<Rightarrow> ('a \<Rightarrow> 'b) \<Rightarrow> ('b \<Rightarrow> 'a \<Rightarrow> 'a) \<Rightarrow> 'a decoder" where
  "dec_nested d get upd j a = map_option (\<lambda>b. upd b a) (d j (get a))"

fun decode_elems :: "'b decoder \<Rightarrow> 'b \<Rightarrow> json list \<Rightarrow> 'b list \<Rightarrow> 'b list option" where
  "decode_elems d zero [] old = Some []"
| "decode_elems d zero (j # js) old =
     Option.bind (d j (case old of [] \<Rightarrow> zero | b # _ \<Rightarrow> b))
       (\<lambda>b. map_option (\<lambda>bs. b # bs) (decode_elems d zero js (tl old)))"

definition dec_list ::
  "'b decoder \<Rightarrow> 'b \<Rightarrow> ('a \<Rightarrow> 'b list) \<Rightarrow> ('b list \<Rightarrow> 'a \<Rightarrow> 'a) \<Rightarrow> 'a decoder" where
  "dec_list d zero get upd j a =
     (case j of JNull \<Rightarrow> Some (upd [] a)
      | JArr js \<Rightarrow> map_option (\<lambda>bs. upd bs a) (decode_elems d zero js (get a))
      | _ \<Rightarrow> None)"

definition dec_raw_list :: "(json list \<Rightarrow> 'a \<Rightarrow> 'a) \<Rightarrow> 'a decoder" where
  "dec_raw_list upd j a =
     (case j of JNull \<Rightarrow> Some (upd [] a) | JArr js \<Rightarrow> Some (upd js a) | _ \<Rightarrow> None)"

text \<open>Elements that are pointers to structs: \<open>null\<close> is the nil pointer.\<close>

definition elem_pointer :: "'b decoder \<Rightarrow> 'b \<Rightarrow> 'b option decoder" where
  "elem_pointer d zero j old =
     (if j = JNull then Some None
      else map_option Some (d j (case old of None \<Rightarrow> zero | Some b \<Rightarrow> b)))"

definition unmarshal :: "'a decoder \<Rightarrow> string \<Rightarrow> 'a \<Rightarrow> 'a option" where
  "unmarshal d s a = Option.bind (parse_json s) (\<lambda>j. d j a)"

lemma dec_simps [simp]:
  "dec_string f JNull a = Some a" "dec_string f (JStr s) a = Some (f s a)"
  "dec_bool g JNull a = Some a" "dec_bool g (JBool b) a = Some (g b a)"
  "dec_int h JNull a = Some a" "dec_int h (JNum n) a = map_option (\<lambda>i. h i a) (num_int64 n)"
  "dec_raw_list r JNull a = Some (r [] a)" "dec_raw_list r (JArr js) a = Some (r js a)"
  "decode_struct fs JNull a = Some a" "decode_struct fs (JObj ms) a = decode_members fs ms a"
  by (simp_all add: dec_string_def dec_bool_def dec_int_def dec_raw_list_def decode_struct_def)

lemma unmarshal_print:
  "wf_json j \<Longrightarrow> depth j \<le> max_nesting \<Longrightarrow> unmarshal d (print_json j) a = d j a"
  by (simp add: unmarshal_def parse_print_json)

lemma key_matches_ascii:
  "ascii key \<Longrightarrow> key_matches name key \<longleftrightarrow> map (fold_rune \<circ> byte) key = map (fold_rune \<circ> byte) name"
  by (simp add: key_matches_def runes_ascii o_def)

lemma num_int64_itoa:
  assumes "- (2 ^ 63) \<le> i" "i < 2 ^ 63"
  shows "num_int64 (itoa i) = Some i"
proof (cases "i < 0")
  case True
  then show ?thesis using assms nat_digits_all_digits
    by (simp add: num_int64_def itoa_def has_prefix_def trim_prefix_def Let_def)
next
  case False
  have "\<not> has_prefix (nat_digits (nat i)) ''-''"
    using nat_digits_all_digits [of "nat i"]
    by (cases "nat_digits (nat i)") (auto simp: has_prefix_def is_digit_def)
  with False show ?thesis using assms nat_digits_all_digits
    by (simp add: num_int64_def itoa_def trim_prefix_def Let_def)
qed

section \<open>What decoding keeps\<close>

text \<open>A property of the decoded value that a decoder keeps on well-formed input.\<close>

definition preserves :: "('a \<Rightarrow> bool) \<Rightarrow> 'a decoder \<Rightarrow> bool" where
  "preserves P d = (\<forall>j a b. wf_json j \<longrightarrow> P a \<longrightarrow> d j a = Some b \<longrightarrow> P b)"

lemma preservesD: "preserves P d \<Longrightarrow> wf_json j \<Longrightarrow> P a \<Longrightarrow> d j a = Some b \<Longrightarrow> P b"
  by (auto simp: preserves_def)

lemma preserves_True [simp]: "preserves (\<lambda>_. True) d"
  by (simp add: preserves_def)

lemma preserves_struct:
  assumes "list_all (\<lambda>(n, d). preserves P d) fs"
  shows "preserves P (decode_struct fs)"
proof -
  have find: "find_field fs k = Some d \<Longrightarrow> preserves P d" for k d
    using assms by (induction fs) (auto split: if_splits)
  have "P b" if "list_all (\<lambda>(k, v). valid_utf8 k \<and> wf_json v) ms" "P a" "decode_members fs ms a = Some b" for ms a b
    using that
  proof (induction ms arbitrary: a)
    case (Cons m ms)
    obtain k v where m: "m = (k, v)" by fastforce
    show ?case
    proof (cases "find_field fs k")
      case None
      with Cons show ?thesis by (simp add: m)
    next
      case (Some d)
      with Cons.prems obtain a' where "d v a = Some a'" "decode_members fs ms a' = Some b"
        by (auto simp: m bind_eq_Some_conv)
      with Cons find [OF Some] show ?thesis by (auto simp: m dest: preservesD)
    qed
  qed simp
  then show ?thesis by (auto simp: preserves_def decode_struct_def split: json.splits)
qed

lemma preserves_string: "(\<And>s a. valid_utf8 s \<Longrightarrow> P a \<Longrightarrow> P (f s a)) \<Longrightarrow> preserves P (dec_string f)"
  by (auto simp: preserves_def dec_string_def split: json.splits)

lemma preserves_raw_list:
  "(\<And>js a. list_all wf_json js \<Longrightarrow> P a \<Longrightarrow> P (f js a)) \<Longrightarrow> preserves P (dec_raw_list f)"
  by (auto simp: preserves_def dec_raw_list_def split: json.splits)

lemma preserves_pointer: "(\<And>x a. P a \<Longrightarrow> P (upd x a)) \<Longrightarrow> preserves P (dec_pointer d zero get upd)"
  by (auto simp: preserves_def dec_pointer_def split: if_splits)

lemma preserves_nested:
  assumes "preserves R d" "\<And>a. P a \<Longrightarrow> R (get a)" "\<And>b a. R b \<Longrightarrow> P a \<Longrightarrow> P (upd b a)"
  shows "preserves P (dec_nested d get upd)"
  using assms by (fastforce simp: preserves_def dec_nested_def)

lemma decode_elems_preserves:
  assumes "preserves P d" "list_all wf_json js" "P zero" "list_all P old" "decode_elems d zero js old = Some bs"
  shows "list_all P bs"
  using assms(2,4,5)
proof (induction js arbitrary: old bs)
  case (Cons j js)
  obtain b cs where b: "d j (case old of [] \<Rightarrow> zero | b # _ \<Rightarrow> b) = Some b" and bs: "bs = b # cs"
    and cs: "decode_elems d zero js (tl old) = Some cs"
    using Cons.prems(3) by (auto simp: bind_eq_Some_conv)
  have "P (case old of [] \<Rightarrow> zero | b # _ \<Rightarrow> b)" using Cons.prems(2) assms(3) by (auto split: list.splits)
  then have "P b" using preservesD [OF assms(1) _ _ b] Cons.prems(1) by simp
  moreover have "list_all P (tl old)" using Cons.prems(2) by (cases old) auto
  ultimately show ?case using Cons.IH [OF _ _ cs] Cons.prems(1) by (simp add: bs)
qed simp

lemma preserves_elem_pointer:
  assumes "preserves P d" "P zero"
  shows "preserves (\<lambda>x. case x of None \<Rightarrow> True | Some a \<Rightarrow> P a) (elem_pointer d zero)"
  using assms by (auto simp: preserves_def elem_pointer_def split: if_splits option.splits)

lemma unmarshal_preserves: "preserves P d \<Longrightarrow> P a \<Longrightarrow> unmarshal d s a = Some b \<Longrightarrow> P b"
  by (auto simp: unmarshal_def bind_eq_Some_conv dest: parse_json_wf preservesD)

end
