(* ===== verification/Go_Float.thy ===== *)
theory Go_Float
  imports Go_Json
begin

text \<open>
  Go's \<open>float64\<close> as far as the connector computes with it: decimal literals, products and sums
  rounded to nearest even at 53 bits, and truncation to \<open>int64\<close>. A finite value is \<open>m * 2 ^ e\<close> with
  \<open>m\<close> odd or zero, so equal values are equal terms. The sign of zero plays no part in the code. A
  conversion to \<open>int64\<close> out of range is left to the implementation by the language: it is the
  function parameter \<open>far\<close>.
\<close>

section \<open>Values\<close>

datatype float64 = FFin int int | FInf bool

text \<open>The number of binary digits.\<close>

fun bitlen :: "nat \<Rightarrow> nat" where
  "bitlen n = (if n = 0 then 0 else Suc (bitlen (n div 2)))"

declare bitlen.simps [simp del]

text \<open>The odd part of a mantissa; the fuel is its number of digits.\<close>

fun strip_zeros :: "nat \<Rightarrow> int \<Rightarrow> int \<Rightarrow> int \<times> int" where
  "strip_zeros 0 m e = (m, e)"
| "strip_zeros (Suc k) m e = (if even m then strip_zeros k (m div 2) (e + 1) else (m, e))"

definition fl_make :: "int \<Rightarrow> int \<Rightarrow> float64" where
  "fl_make m e =
     (if m = 0 then FFin 0 0
      else case strip_zeros (bitlen (nat \<bar>m\<bar>)) m e of (m', e') \<Rightarrow> FFin m' e')"

text \<open>Rounding \<open>m * 2 ^ e\<close>: drop \<open>k\<close> digits, to nearest, ties to even; \<open>k\<close> keeps 53 digits and
  the exponent above that of the subnormal numbers.\<close>

definition drop_digits :: "nat \<Rightarrow> nat \<Rightarrow> nat" where
  "drop_digits k m =
     (if k = 0 then m
      else let q = m div 2 ^ k; r = m mod 2 ^ k; half = 2 ^ (k - 1)
           in if r > half \<or> (r = half \<and> odd q) then q + 1 else q)"

definition fl_round :: "int \<Rightarrow> int \<Rightarrow> float64" where
  "fl_round m e =
     (let a = nat \<bar>m\<bar>;
          k = nat (max (int (bitlen a) - 53) (- 1074 - e));
          q = drop_digits k a; x = e + int k
      in if q \<noteq> 0 \<and> int (bitlen q) + x > 1024 then FInf (m < 0)
         else fl_make (if m < 0 then - int q else int q) x)"

text \<open>\<open>strconv.ParseFloat\<close> on a literal the JSON grammar allows: \<open>None\<close> is a range error. The
  quotient by a power of ten keeps 66 digits and a sticky one.\<close>

definition fl_of_decimal :: "bool \<Rightarrow> nat \<Rightarrow> int \<Rightarrow> float64" where
  "fl_of_decimal neg d k =
     (let sg = (\<lambda>i::nat. if neg then - int i else int i) in
      if k \<ge> 0 then fl_round (sg (d * 10 ^ nat k)) 0
      else let n = 10 ^ nat (- k); s = 66 + bitlen n; q = d * 2 ^ s div n; r = d * 2 ^ s mod n
           in fl_round (sg (2 * q + (if r = 0 then 0 else 1))) (- int s - 1))"

definition split_number :: "string \<Rightarrow> bool \<times> string \<times> string \<times> int" where
  "split_number s0 =
     (let neg = has_prefix s0 ''-''; s = trim_prefix s0 ''-'';
          ip = takeWhile is_digit s; t = drop (length ip) s;
          fp = (if has_prefix t ''.'' then takeWhile is_digit (drop 1 t) else []);
          u = (if has_prefix t ''.'' then drop (Suc (length fp)) t else t);
          ex = drop 1 u;
          x = (if has_prefix ex ''-'' then - int (digits_val (drop 1 ex))
               else int (digits_val (trim_prefix ex ''+'')))
      in (neg, ip, fp, if u = [] then 0 else x))"

definition parse_float :: "string \<Rightarrow> float64 option" where
  "parse_float s =
     (case split_number s of (neg, ip, fp, x) \<Rightarrow>
        case fl_of_decimal neg (digits_val (ip @ fp)) (x - int (length fp)) of
          FInf b \<Rightarrow> None
        | v \<Rightarrow> Some v)"

section \<open>Arithmetic\<close>

definition fl_of_int :: "int \<Rightarrow> float64" where
  "fl_of_int i = fl_round i 0"

text \<open>A product with a positive finite factor; the code multiplies by a conversion rate.\<close>

definition fl_mul_pos :: "float64 \<Rightarrow> float64 \<Rightarrow> float64" where
  "fl_mul_pos v r =
     (case (v, r) of
        (FFin a x, FFin b y) \<Rightarrow> fl_round (a * b) (x + y)
      | (FInf n, _) \<Rightarrow> FInf n
      | (FFin a x, FInf n) \<Rightarrow> FInf (a < 0))"

text \<open>\<open>a * 2 ^ x + b * 2 ^ y\<close>, aligned at the smaller exponent.\<close>

definition fl_add :: "float64 \<Rightarrow> float64 \<Rightarrow> float64" where
  "fl_add v w =
     (case (v, w) of
        (FFin a x, FFin b y) \<Rightarrow>
          let e = min x y in fl_round (a * 2 ^ nat (x - e) + b * 2 ^ nat (y - e)) e
      | (FInf n, _) \<Rightarrow> FInf n
      | (_, FInf n) \<Rightarrow> FInf n)"

definition fl_half :: float64 where
  "fl_half = FFin 1 (- 1)"

definition fl_minus_half :: float64 where
  "fl_minus_half = FFin (- 1) (- 1)"

definition fl_nonneg :: "float64 \<Rightarrow> bool" where
  "fl_nonneg v = (case v of FFin m e \<Rightarrow> 0 \<le> m | FInf n \<Rightarrow> \<not> n)"

text \<open>Truncation toward zero, then the range check of the conversion.\<close>

definition trunc_pair :: "int \<Rightarrow> int \<Rightarrow> int" where
  "trunc_pair m e =
     (if e \<ge> 0 then m * 2 ^ nat e
      else if m < 0 then - (- m div 2 ^ nat (- e)) else m div 2 ^ nat (- e))"

definition fl_to_int64 :: "(float64 \<Rightarrow> int) \<Rightarrow> float64 \<Rightarrow> int" where
  "fl_to_int64 far v =
     (case v of
        FFin m e \<Rightarrow> (let i = trunc_pair m e in if - (2 ^ 63) \<le> i \<and> i < 2 ^ 63 then i else far v)
      | FInf n \<Rightarrow> far v)"

section \<open>Exact cases\<close>

lemma bitlen_le: "n < 2 ^ k \<Longrightarrow> bitlen n \<le> k"
proof (induction k arbitrary: n)
  case 0
  then show ?case by (simp add: bitlen.simps)
next
  case (Suc k)
  then have "n div 2 < 2 ^ k" by auto
  with Suc.IH have "bitlen (n div 2) \<le> k" by blast
  then show ?case by (subst bitlen.simps) simp
qed

lemma fl_round_exact:
  assumes "\<bar>m\<bar> < 2 ^ 53" "- 1074 \<le> e" "e \<le> 900"
  shows "fl_round m e = fl_make m e"
proof -
  have "nat \<bar>m\<bar> < 2 ^ 53" using assms(1) by (simp add: nat_less_iff)
  then have b: "bitlen (nat \<bar>m\<bar>) \<le> 53" by (rule bitlen_le)
  then have k: "nat (max (int (bitlen (nat \<bar>m\<bar>)) - 53) (- 1074 - e)) = 0" using assms(2) by simp
  have "(if m < 0 then - int (nat \<bar>m\<bar>) else int (nat \<bar>m\<bar>)) = m" by simp
  then show ?thesis
    unfolding fl_round_def Let_def k using b assms(3) by (simp add: drop_digits_def)
qed

lemma trunc_pair_double: "trunc_pair (2 * m) e = trunc_pair m (e + 1)"
proof (cases "e \<ge> 0")
  case True
  then have "nat (e + 1) = Suc (nat e)" by simp
  with True show ?thesis by (simp add: trunc_pair_def)
next
  case False
  show ?thesis
  proof (cases "e = - 1")
    case True
    then show ?thesis by (auto simp: trunc_pair_def)
  next
    case 2: False
    with False have "nat (- e) = Suc (nat (- (e + 1)))" by simp
    then have d: "(2 * n) div 2 ^ nat (- e) = n div 2 ^ nat (- (e + 1))" for n :: int
      by (simp add: div_mult_mult1)
    from d [of m] d [of "- m"] show ?thesis using False 2 by (auto simp: trunc_pair_def)
  qed
qed

lemma strip_zeros_trunc:
  "strip_zeros k m e = (m', e') \<Longrightarrow> trunc_pair m' e' = trunc_pair m e"
proof (induction k arbitrary: m e)
  case 0
  then show ?case by simp
next
  case (Suc k)
  show ?case
  proof (cases "even m")
    case True
    then have "trunc_pair m' e' = trunc_pair (m div 2) (e + 1)" using Suc by simp
    also have "\<dots> = trunc_pair m e" using True trunc_pair_double [of "m div 2" e] by simp
    finally show ?thesis .
  qed (use Suc.prems in simp)
qed

lemma fl_to_int64_make:
  assumes "- (2 ^ 63) \<le> trunc_pair m e" "trunc_pair m e < 2 ^ 63"
  shows "fl_to_int64 far (fl_make m e) = trunc_pair m e"
proof (cases "m = 0")
  case True
  then show ?thesis by (simp add: fl_make_def fl_to_int64_def trunc_pair_def)
next
  case False
  obtain m' e' where s: "strip_zeros (bitlen (nat \<bar>m\<bar>)) m e = (m', e')" by fastforce
  from strip_zeros_trunc [OF s] False assms show ?thesis
    by (simp add: fl_make_def s fl_to_int64_def Let_def)
qed

text \<open>Adding a half to a multiple of a half is exact while there is a digit to spare.\<close>

lemma strip_zeros_value:
  "strip_zeros k m e = (m', e') \<Longrightarrow> \<exists>j. m = m' * 2 ^ j \<and> e' = e + int j"
proof (induction k arbitrary: m e)
  case 0
  then show ?case by (intro exI [of _ 0]) simp
next
  case (Suc k)
  show ?case
  proof (cases "even m")
    case True
    then obtain j where "m div 2 = m' * 2 ^ j" "e' = e + 1 + int j" using Suc by auto
    with True show ?thesis by (intro exI [of _ "Suc j"]) auto
  qed (use Suc.prems in \<open>auto intro!: exI [of _ 0]\<close>)
qed

lemma fl_add_half_multiple:
  assumes "\<bar>h + d\<bar> < 2 ^ 53"
  shows "fl_add (fl_make h (- 1)) (FFin d (- 1)) = fl_make (h + d) (- 1)"
proof (cases "h = 0")
  case True
  have "fl_round (d * 2 ^ nat 0) (- 1) = fl_make d (- 1)" using assms True by (simp add: fl_round_exact)
  then show ?thesis using True by (simp add: fl_make_def fl_add_def Let_def)
next
  case False
  obtain m' e' where s: "strip_zeros (bitlen (nat \<bar>h\<bar>)) h (- 1) = (m', e')" by fastforce
  then obtain j where j: "h = m' * 2 ^ j" "e' = - 1 + int j" using strip_zeros_value by blast
  have "min e' (- 1) = - 1" "nat (e' - (- 1)) = j" using j(2) by simp_all
  then show ?thesis using False s j(1) fl_round_exact [OF assms, of "- 1"]
    by (simp add: fl_make_def fl_add_def Let_def)
qed

lemma fl_nonneg_make: "fl_nonneg (fl_make m e) \<longleftrightarrow> 0 \<le> m"
proof (cases "m = 0")
  case True
  then show ?thesis by (simp add: fl_make_def fl_nonneg_def)
next
  case False
  obtain m' e' where s: "strip_zeros (bitlen (nat \<bar>m\<bar>)) m e = (m', e')" by fastforce
  then obtain j where "m = m' * 2 ^ j" using strip_zeros_value by blast
  then have "0 \<le> m \<longleftrightarrow> 0 \<le> m'" by (simp add: zero_le_mult_iff)
  then show ?thesis using False s by (simp add: fl_make_def fl_nonneg_def)
qed

end
