(* ===== verification/Go_Url.thy ===== *)
theory Go_Url
  imports Go_Utf8
begin

text \<open>
  What the connector uses of Go's \<open>net/url\<close>: parsing a reference, its parsed query, encoding a
  query in key order, printing, and percent-decoding of a path segment. Hosts are checked for
  their port and decoded; the character classes are those of \<open>shouldEscape\<close>.
\<close>

section \<open>Percent-encoding\<close>

datatype url_mode = EncPath | EncPathSegment | EncHost | EncUserPassword | EncQuery | EncFragment

definition is_alnum :: "char \<Rightarrow> bool" where
  "is_alnum c = (let b = byte c in
     (48 \<le> b \<and> b \<le> 57) \<or> (65 \<le> b \<and> b \<le> 90) \<or> (97 \<le> b \<and> b \<le> 122))"

definition should_escape :: "url_mode \<Rightarrow> char \<Rightarrow> bool" where
  "should_escape m c =
     (if is_alnum c then False
      else if m = EncHost \<and> c \<in> set ''!$&()*+,;=:[]<>'' \<union> {CHR 0x27, CHR 0x22} then False
      else if c \<in> set ''-_.~'' then False
      else if c \<in> set ''$&+,/:;=?@'' then
        (case m of
           EncPath \<Rightarrow> c = CHR ''?''
         | EncPathSegment \<Rightarrow> c \<in> set ''/;,?''
         | EncUserPassword \<Rightarrow> c \<in> set ''@/?:''
         | EncQuery \<Rightarrow> True
         | EncFragment \<Rightarrow> False
         | EncHost \<Rightarrow> True)
      else if m = EncFragment \<and> c \<in> set ''!()*'' then False
      else True)"

definition unhex :: "char \<Rightarrow> nat option" where
  "unhex c = (let b = byte c in
     if 48 \<le> b \<and> b \<le> 57 then Some (b - 48)
     else if 97 \<le> b \<and> b \<le> 102 then Some (b - 87)
     else if 65 \<le> b \<and> b \<le> 70 then Some (b - 55) else None)"

definition upper_hex :: "nat \<Rightarrow> char" where
  "upper_hex d = (if d < 10 then char_of (48 + d) else char_of (55 + d))"

text \<open>\<open>unescape\<close>: in a host only non-ASCII bytes and a percent sign may be escaped and bad
  characters are errors; in a query a plus sign is a space.\<close>

fun url_unescape :: "url_mode \<Rightarrow> string \<Rightarrow> string option" where
  "url_unescape m [] = Some []"
| "url_unescape m (c # s) =
     (if c = CHR ''%'' then
        (case s of
           a # b # t \<Rightarrow>
             (case (unhex a, unhex b) of
                (Some x, Some y) \<Rightarrow>
                  if m = EncHost \<and> x < 8 \<and> \<not> (a = CHR ''2'' \<and> b = CHR ''5'') then None
                  else map_option (\<lambda>r. char_of (16 * x + y) # r) (url_unescape m t)
              | _ \<Rightarrow> None)
         | _ \<Rightarrow> None)
      else if c = CHR ''+'' \<and> m = EncQuery then map_option (\<lambda>r. CHR '' '' # r) (url_unescape m s)
      else if m = EncHost \<and> byte c < 128 \<and> should_escape m c then None
      else map_option (\<lambda>r. c # r) (url_unescape m s))"

definition escape_char :: "url_mode \<Rightarrow> char \<Rightarrow> string" where
  "escape_char m c =
     (if should_escape m c then
        (if c = CHR '' '' \<and> m = EncQuery then ''+''
         else [CHR ''%'', upper_hex (byte c div 16), upper_hex (byte c mod 16)])
      else [c])"

definition url_escape :: "url_mode \<Rightarrow> string \<Rightarrow> string" where
  "url_escape m s = concat (map (escape_char m) s)"

text \<open>\<open>url.PathUnescape\<close>.\<close>

definition path_unescape :: "string \<Rightarrow> string option" where
  "path_unescape s = url_unescape EncPathSegment s"

lemma byte_bound: "byte c < 256"
  using byte_lt_256 .

lemma unhex_upper_hex: "d < 16 \<Longrightarrow> unhex (upper_hex d) = Some d"
  by (simp add: unhex_def upper_hex_def Let_def)

lemma unescape_escape_char:
  assumes "m \<noteq> EncHost"
  shows "url_unescape m (escape_char m c @ s) = map_option (\<lambda>r. c # r) (url_unescape m s)"
proof (cases "should_escape m c")
  case True
  show ?thesis
  proof (cases "c = CHR '' '' \<and> m = EncQuery")
    case True
    with \<open>should_escape m c\<close> show ?thesis by (simp add: escape_char_def)
  next
    case False
    have "byte c div 16 < 16" "byte c mod 16 < 16"
      using byte_bound [of c] by (simp_all add: less_mult_imp_div_less)
    moreover have "16 * (byte c div 16) + byte c mod 16 = byte c" by simp
    ultimately show ?thesis using True False assms
      by (auto simp: escape_char_def unhex_upper_hex)
  qed
next
  case False
  then have "c \<noteq> CHR ''%''" by (auto simp: should_escape_def is_alnum_def)
  moreover from False have "\<not> (c = CHR ''+'' \<and> m = EncQuery)"
    by (auto simp: should_escape_def is_alnum_def)
  ultimately show ?thesis using False assms by (auto simp: escape_char_def)
qed

lemma unescape_escape [simp]: "m \<noteq> EncHost \<Longrightarrow> url_unescape m (url_escape m s) = Some s"
  by (induction s) (simp_all add: url_escape_def unescape_escape_char)

lemma url_escape_Nil [simp]: "url_escape m [] = []"
  by (simp add: url_escape_def)

lemma escape_plain: "list_all (\<lambda>c. \<not> should_escape m c) s \<Longrightarrow> url_escape m s = s"
  by (induction s) (simp_all add: url_escape_def escape_char_def)

lemma unescape_plain:
  "list_all (\<lambda>c. \<not> should_escape m c) s \<Longrightarrow> m \<noteq> EncHost \<Longrightarrow> url_unescape m s = Some s"
  using unescape_escape [of m s] by (simp add: escape_plain)

section \<open>Queries\<close>

text \<open>\<open>url.Values\<close> as the list of its pairs, the values of a key in order. \<open>Query\<close> drops what it
  cannot decode and any pair with a semicolon.\<close>

type_synonym url_values = "(string \<times> string) list"

fun split_amp :: "string \<Rightarrow> string list" where
  "split_amp [] = [[]]"
| "split_amp (c # s) =
     (if c = CHR ''&'' then [] # split_amp s
      else (case split_amp s of [] \<Rightarrow> [[c]] | x # xs \<Rightarrow> (c # x) # xs))"

definition parse_pair :: "string \<Rightarrow> url_values" where
  "parse_pair p =
     (if p = [] \<or> CHR '';'' \<in> set p then []
      else case go_cut p (CHR ''='') of (k, v, _) \<Rightarrow>
        (case (url_unescape EncQuery k, url_unescape EncQuery v) of
           (Some k', Some v') \<Rightarrow> [(k', v')] | _ \<Rightarrow> []))"

definition parse_query :: "string \<Rightarrow> url_values" where
  "parse_query s = concat (map parse_pair (split_amp s))"

definition values_get :: "url_values \<Rightarrow> string \<Rightarrow> string" where
  "values_get vs k = (case map_of vs k of None \<Rightarrow> [] | Some v \<Rightarrow> v)"

definition values_set :: "url_values \<Rightarrow> string \<Rightarrow> string \<Rightarrow> url_values" where
  "values_set vs k v = filter (\<lambda>(k', _). k' \<noteq> k) vs @ [(k, v)]"

text \<open>\<open>Values.Encode\<close> sorts by key; the sort is stable, so the values of a key keep their order.\<close>

definition values_encode :: "url_values \<Rightarrow> string" where
  "values_encode vs =
     go_join (map (\<lambda>(k, v). url_escape EncQuery k @ ''='' @ url_escape EncQuery v)
       (sort_key fst vs)) ''&''"

lemma values_get_set [simp]: "values_get (values_set vs k v) k = v"
proof -
  have "k \<notin> fst ` set (filter (\<lambda>(k', _). k' \<noteq> k) vs)" by auto
  then have "map_of (filter (\<lambda>(k', _). k' \<noteq> k) vs @ [(k, v)]) k = Some v"
    by (simp add: map_add_def map_of_eq_None_iff [THEN iffD2])
  then show ?thesis by (simp add: values_get_def values_set_def)
qed

section \<open>References\<close>

record url =
  u_scheme :: string
  u_opaque :: string
  u_user :: "(string \<times> string option) option"
  u_host :: string
  u_path :: string
  u_raw_path :: string
  u_force_query :: bool
  u_raw_query :: string
  u_fragment :: string
  u_raw_fragment :: string
  u_omit_host :: bool

definition empty_url :: url where
  "empty_url = \<lparr>u_scheme = [], u_opaque = [], u_user = None, u_host = [], u_path = [], u_raw_path = [],
     u_force_query = False, u_raw_query = [], u_fragment = [], u_raw_fragment = [], u_omit_host = False\<rparr>"

definition is_alpha :: "char \<Rightarrow> bool" where
  "is_alpha c = (let b = byte c in (65 \<le> b \<and> b \<le> 90) \<or> (97 \<le> b \<and> b \<le> 122))"

text \<open>\<open>getScheme\<close>: \<open>None\<close> is the error "missing protocol scheme".\<close>

fun scheme_loop :: "string \<Rightarrow> string \<Rightarrow> string \<Rightarrow> (string \<times> string) option" where
  "scheme_loop raw acc [] = Some ([], raw)"
| "scheme_loop raw acc (c # s) =
     (if is_alpha c then scheme_loop raw (acc @ [c]) s
      else if is_digit c \<or> c \<in> set ''+-.'' then
        (if acc = [] then Some ([], raw) else scheme_loop raw (acc @ [c]) s)
      else if c = CHR '':'' then (if acc = [] then None else Some (acc, s))
      else Some ([], raw))"

definition lower_byte :: "char \<Rightarrow> char" where
  "lower_byte c = (if 65 \<le> byte c \<and> byte c \<le> 90 then char_of (byte c + 32) else c)"

definition get_scheme :: "string \<Rightarrow> (string \<times> string) option" where
  "get_scheme s = map_option (\<lambda>(sch, r). (map lower_byte sch, r)) (scheme_loop s [] s)"

text \<open>The host: an optional port of digits after the last colon, brackets around an IPv6 literal
  (whose zone, if any, is decoded like a host here).\<close>

definition valid_port :: "string \<Rightarrow> bool" where
  "valid_port s = (s = [] \<or> (hd s = CHR '':'' \<and> list_all is_digit (tl s)))"

definition last_index :: "char \<Rightarrow> string \<Rightarrow> nat option" where
  "last_index c s =
     (case go_index_any (rev s) [c] of None \<Rightarrow> None | Some i \<Rightarrow> Some (length s - 1 - i))"

definition parse_host :: "string \<Rightarrow> string option" where
  "parse_host h =
     (if has_prefix h ''['' then
        (case last_index (CHR '']'') h of None \<Rightarrow> None
         | Some i \<Rightarrow> if valid_port (drop (Suc i) h) then url_unescape EncHost h else None)
      else (case last_index (CHR '':'') h of
              Some i \<Rightarrow> if valid_port (drop i h) then url_unescape EncHost h else None
            | None \<Rightarrow> url_unescape EncHost h))"

definition valid_userinfo :: "string \<Rightarrow> bool" where
  "valid_userinfo s =
     list_all (\<lambda>c. is_alnum c \<or> c \<in> set ''-._:~!$&()*+,;=%@'' \<union> {CHR 0x27}) s"

definition parse_authority :: "string \<Rightarrow> ((string \<times> string option) option \<times> string) option" where
  "parse_authority a =
     (case last_index (CHR ''@'') a of
        None \<Rightarrow> map_option (\<lambda>h. (None, h)) (parse_host a)
      | Some i \<Rightarrow>
        (case parse_host (drop (Suc i) a) of None \<Rightarrow> None
         | Some h \<Rightarrow>
           let ui = take i a in
           if \<not> valid_userinfo ui then None
           else (case go_cut ui (CHR '':'') of (n, p, found) \<Rightarrow>
             if \<not> found then map_option (\<lambda>n'. (Some (n', None), h)) (url_unescape EncUserPassword ui)
             else (case (url_unescape EncUserPassword n, url_unescape EncUserPassword p) of
                 (Some n', Some p') \<Rightarrow> Some (Some (n', Some p'), h)
               | _ \<Rightarrow> None))))"

definition set_path :: "url \<Rightarrow> string \<Rightarrow> url option" where
  "set_path u p =
     map_option (\<lambda>q. u\<lparr>u_path := q, u_raw_path := (if p = url_escape EncPath q then [] else p)\<rparr>)
       (url_unescape EncPath p)"

definition has_ctl_byte :: "string \<Rightarrow> bool" where
  "has_ctl_byte s = list_ex (\<lambda>c. byte c < 32 \<or> byte c = 127) s"

definition count_char :: "char \<Rightarrow> string \<Rightarrow> nat" where
  "count_char c s = length (filter (\<lambda>d. d = c) s)"

definition parse_reference :: "string \<Rightarrow> url option" where
  "parse_reference raw =
     (if has_ctl_byte raw then None
      else if raw = ''*'' then Some (empty_url\<lparr>u_path := ''*''\<rparr>)
      else case get_scheme raw of None \<Rightarrow> None
      | Some (sch, rest0) \<Rightarrow>
        (case (if has_suffix rest0 ''?'' \<and> count_char (CHR ''?'') rest0 = 1
               then (butlast rest0, [], True)
               else case go_cut rest0 (CHR ''?'') of (a, b, _) \<Rightarrow> (a, b, False)) of
           (rest, rq, force) \<Rightarrow>
           let u = empty_url\<lparr>u_scheme := sch, u_raw_query := rq, u_force_query := force\<rparr> in
           if \<not> has_prefix rest ''/'' \<and> sch \<noteq> [] then Some (u\<lparr>u_opaque := rest\<rparr>)
           else if \<not> has_prefix rest ''/'' \<and> CHR '':'' \<in> set (fst (go_cut rest (CHR ''/''))) then None
           else if (sch \<noteq> [] \<or> \<not> has_prefix rest ''///'') \<and> has_prefix rest ''//'' then
             (let a = drop 2 rest;
                  auth = takeWhile (\<lambda>c. c \<noteq> CHR ''/'') a;
                  path = dropWhile (\<lambda>c. c \<noteq> CHR ''/'') a
              in case parse_authority auth of None \<Rightarrow> None
                 | Some (usr, h) \<Rightarrow> set_path (u\<lparr>u_user := usr, u_host := h\<rparr>) path)
           else if sch \<noteq> [] \<and> has_prefix rest ''/'' then set_path (u\<lparr>u_omit_host := True\<rparr>) rest
           else set_path u rest))"

text \<open>\<open>url.Parse\<close>.\<close>

definition url_parse :: "string \<Rightarrow> url option" where
  "url_parse s =
     (case go_cut s (CHR ''#'') of (raw, frag, _) \<Rightarrow>
        (case parse_reference raw of None \<Rightarrow> None
         | Some u \<Rightarrow>
           if frag = [] then Some u
           else map_option (\<lambda>f. u\<lparr>u_fragment := f,
                    u_raw_fragment := (if frag = url_escape EncFragment f then [] else frag)\<rparr>)
                  (url_unescape EncFragment frag)))"

text \<open>\<open>URL.Query\<close>, \<open>URL.EscapedPath\<close> and \<open>URL.String\<close>.\<close>

definition url_query :: "url \<Rightarrow> url_values" where
  "url_query u = parse_query (u_raw_query u)"

definition valid_encoded :: "url_mode \<Rightarrow> string \<Rightarrow> bool" where
  "valid_encoded m s =
     list_all (\<lambda>c. c \<in> set ''!$&()*+,;=:@[]%'' \<union> {CHR 0x27} \<or> \<not> should_escape m c) s"

definition escaped_path :: "url \<Rightarrow> string" where
  "escaped_path u =
     (if u_raw_path u \<noteq> [] \<and> valid_encoded EncPath (u_raw_path u)
         \<and> url_unescape EncPath (u_raw_path u) = Some (u_path u)
      then u_raw_path u
      else if u_path u = ''*'' then ''*'' else url_escape EncPath (u_path u))"

definition escaped_fragment :: "url \<Rightarrow> string" where
  "escaped_fragment u =
     (if u_raw_fragment u \<noteq> [] \<and> valid_encoded EncFragment (u_raw_fragment u)
         \<and> url_unescape EncFragment (u_raw_fragment u) = Some (u_fragment u)
      then u_raw_fragment u else url_escape EncFragment (u_fragment u))"

definition user_string :: "(string \<times> string option) option \<Rightarrow> string" where
  "user_string ui =
     (case ui of None \<Rightarrow> []
      | Some (n, None) \<Rightarrow> url_escape EncUserPassword n @ ''@''
      | Some (n, Some p) \<Rightarrow> url_escape EncUserPassword n @ '':'' @ url_escape EncUserPassword p @ ''@'')"

definition url_string :: "url \<Rightarrow> string" where
  "url_string u =
     (let sch = (if u_scheme u \<noteq> [] then u_scheme u @ '':'' else []);
          body =
            (if u_opaque u \<noteq> [] then u_opaque u
             else
               (let auth =
                  (if u_scheme u \<noteq> [] \<or> u_host u \<noteq> [] \<or> u_user u \<noteq> None then
                     (if u_omit_host u \<and> u_host u = [] \<and> u_user u = None then []
                      else (if u_host u \<noteq> [] \<or> u_path u \<noteq> [] \<or> u_user u \<noteq> None then ''//'' else [])
                           @ user_string (u_user u) @ url_escape EncHost (u_host u))
                   else []);
                    path = escaped_path u;
                    slash = (if path \<noteq> [] \<and> hd path \<noteq> CHR ''/'' \<and> u_host u \<noteq> [] then ''/'' else []);
                    dot = (if sch = [] \<and> auth = [] \<and> slash = [] \<and>
                              CHR '':'' \<in> set (fst (go_cut path (CHR ''/''))) then ''./'' else [])
                in auth @ slash @ dot @ path));
          query = (if u_force_query u \<or> u_raw_query u \<noteq> [] then CHR ''?'' # u_raw_query u else []);
          frag = (if u_fragment u \<noteq> [] then CHR ''#'' # escaped_fragment u else [])
      in sch @ body @ query @ frag)"

section \<open>Plain URLs\<close>

text \<open>The URLs the client builds: a lower-case scheme, a host of letters, digits, dots and dashes,
  a path of unreserved characters, and perhaps a query. Parsing them loses nothing.\<close>

definition plain_char :: "char \<Rightarrow> bool" where
  "plain_char c = (is_alnum c \<or> c \<in> set ''-_.~/'')"

definition plain_host :: "string \<Rightarrow> bool" where
  "plain_host h = (h \<noteq> [] \<and> list_all (\<lambda>c. is_alnum c \<or> c \<in> set ''-.'') h)"

definition plain_scheme :: "string \<Rightarrow> bool" where
  "plain_scheme s = (s \<noteq> [] \<and> list_all (\<lambda>c. 97 \<le> byte c \<and> byte c \<le> 122) s)"

definition plain_path :: "string \<Rightarrow> bool" where
  "plain_path p = (p \<noteq> [] \<and> hd p = CHR ''/'' \<and> list_all plain_char p)"

definition plain_query :: "string \<Rightarrow> bool" where
  "plain_query q = (q \<noteq> [] \<and> list_all (\<lambda>c. 32 \<le> byte c \<and> byte c < 127 \<and> c \<noteq> CHR ''#'') q)"

definition plain_url :: "string \<Rightarrow> string \<Rightarrow> string \<Rightarrow> url" where
  "plain_url sch h p = empty_url\<lparr>u_scheme := sch, u_host := h, u_path := p\<rparr>"

lemma scheme_loop_plain:
  assumes "list_all (\<lambda>c. 97 \<le> byte c \<and> byte c \<le> 122) s" "acc @ s \<noteq> []"
  shows "scheme_loop raw acc (s @ CHR '':'' # r) = Some (acc @ s, r)"
  using assms
proof (induction s arbitrary: acc)
  case Nil
  then show ?case by (simp add: is_alpha_def is_digit_def Let_def)
next
  case (Cons c s)
  then show ?case by (simp add: is_alpha_def Let_def)
qed

lemma get_scheme_plain:
  assumes "plain_scheme s"
  shows "get_scheme (s @ CHR '':'' # r) = Some (s, r)"
proof -
  have "map lower_byte s = s"
    using assms by (intro map_idI) (auto simp: plain_scheme_def list_all_iff lower_byte_def)
  moreover have "scheme_loop (s @ CHR '':'' # r) [] (s @ CHR '':'' # r) = Some (s, r)"
    using scheme_loop_plain [of s "[]"] assms by (simp add: plain_scheme_def)
  ultimately show ?thesis by (simp add: get_scheme_def)
qed

lemma last_index_none: "c \<notin> set s \<Longrightarrow> last_index c s = None"
proof -
  assume "c \<notin> set s"
  then have "go_index_any (rev s) [c] = None" by (simp add: go_index_any_None)
  then show ?thesis by (simp add: last_index_def)
qed

lemma list_all_notin: "list_all P s \<Longrightarrow> \<not> P c \<Longrightarrow> c \<notin> set s"
  by (auto simp: list_all_iff)

lemma list_all_weaken: "list_all P s \<Longrightarrow> (\<And>c. P c \<Longrightarrow> R c) \<Longrightarrow> list_all R s"
  by (auto simp: list_all_iff)

lemma no_ctl: "list_all P s \<Longrightarrow> (\<And>c. P c \<Longrightarrow> 32 \<le> byte c \<and> byte c \<noteq> 127) \<Longrightarrow> \<not> has_ctl_byte s"
  by (force simp: list_all_iff has_ctl_byte_def list_ex_iff)

lemma plain_host_chars:
  assumes "plain_host h"
  shows "CHR ''@'' \<notin> set h" "CHR '':'' \<notin> set h" "\<not> has_prefix h ''[''" "CHR ''/'' \<notin> set h"
    "list_all (\<lambda>c. \<not> should_escape EncHost c) h" "CHR ''%'' \<notin> set h" "\<not> has_ctl_byte h"
    "CHR ''#'' \<notin> set h" "CHR ''?'' \<notin> set h"
proof -
  have a: "list_all (\<lambda>c. is_alnum c \<or> c \<in> set ''-.'') h" and ne: "h \<noteq> []"
    using assms by (auto simp: plain_host_def)
  note out = list_all_notin [OF a]
  show "CHR ''@'' \<notin> set h" "CHR '':'' \<notin> set h" "CHR ''/'' \<notin> set h" "CHR ''%'' \<notin> set h"
    "CHR ''#'' \<notin> set h" "CHR ''?'' \<notin> set h"
    by (rule out, simp add: is_alnum_def)+
  have "CHR ''['' \<notin> set h" by (rule out) (simp add: is_alnum_def)
  then show "\<not> has_prefix h ''[''" using ne by (cases h) (auto simp: has_prefix_def)
  show "list_all (\<lambda>c. \<not> should_escape EncHost c) h"
    by (rule list_all_weaken [OF a]) (auto simp: should_escape_def)
  show "\<not> has_ctl_byte h" by (rule no_ctl [OF a]) (auto simp: is_alnum_def Let_def)
qed

lemma url_unescape_host_plain:
  "list_all (\<lambda>c. \<not> should_escape EncHost c) h \<Longrightarrow> CHR ''%'' \<notin> set h \<Longrightarrow> url_unescape EncHost h = Some h"
  by (induction h) auto

lemma parse_authority_plain: "plain_host h \<Longrightarrow> parse_authority h = Some (None, h)"
  using plain_host_chars [of h]
  by (simp add: parse_authority_def last_index_none parse_host_def url_unescape_host_plain)

lemma plain_path_chars:
  assumes "plain_path p"
  shows "list_all (\<lambda>c. \<not> should_escape EncPath c) p" "\<not> has_ctl_byte p"
    "CHR ''#'' \<notin> set p" "CHR ''?'' \<notin> set p" "p \<noteq> []" "hd p = CHR ''/''" "p \<noteq> ''*''"
proof -
  have a: "list_all plain_char p" and ne: "p \<noteq> []" and hd: "hd p = CHR ''/''"
    using assms by (auto simp: plain_path_def)
  note out = list_all_notin [OF a]
  show "CHR ''#'' \<notin> set p" "CHR ''?'' \<notin> set p" by (rule out, simp add: plain_char_def is_alnum_def)+
  show "p \<noteq> []" "hd p = CHR ''/''" "p \<noteq> ''*''" using ne hd by auto
  show "list_all (\<lambda>c. \<not> should_escape EncPath c) p"
    by (rule list_all_weaken [OF a]) (auto simp: should_escape_def plain_char_def)
  show "\<not> has_ctl_byte p" by (rule no_ctl [OF a]) (auto simp: plain_char_def is_alnum_def Let_def)
qed

lemma plain_scheme_chars:
  assumes "plain_scheme s"
  shows "\<not> has_ctl_byte s" "CHR ''#'' \<notin> set s" "CHR ''?'' \<notin> set s" "s \<noteq> []"
proof -
  have a: "list_all (\<lambda>c. 97 \<le> byte c \<and> byte c \<le> 122) s" and ne: "s \<noteq> []"
    using assms by (auto simp: plain_scheme_def)
  show "CHR ''#'' \<notin> set s" "CHR ''?'' \<notin> set s" by (rule list_all_notin [OF a], simp)+
  show "s \<noteq> []" by (rule ne)
  show "\<not> has_ctl_byte s" by (rule no_ctl [OF a]) auto
qed

lemma has_ctl_byte_append [simp]: "has_ctl_byte (a @ b) \<longleftrightarrow> has_ctl_byte a \<or> has_ctl_byte b"
  by (simp add: has_ctl_byte_def)

lemma has_ctl_byte_Cons [simp]:
  "has_ctl_byte (c # b) \<longleftrightarrow> (byte c < 32 \<or> byte c = 127) \<or> has_ctl_byte b" "\<not> has_ctl_byte []"
  by (simp_all add: has_ctl_byte_def)

lemma count_char_append [simp]: "count_char c (a @ b) = count_char c a + count_char c b"
  by (simp add: count_char_def)

lemma count_char_none: "c \<notin> set s \<Longrightarrow> count_char c s = 0"
  by (induction s) (auto simp: count_char_def)

lemma has_suffix_snoc: "has_suffix s [c] \<longleftrightarrow> s \<noteq> [] \<and> last s = c"
  by (cases s rule: rev_cases) (auto simp: has_suffix_def has_prefix_def)

lemma takeWhile_not: "c \<notin> set h \<Longrightarrow> takeWhile (\<lambda>x. x \<noteq> c) (h @ c # t) = h"
  by (induction h) auto

lemma dropWhile_not: "c \<notin> set h \<Longrightarrow> dropWhile (\<lambda>x. x \<noteq> c) (h @ c # t) = c # t"
  by (induction h) auto

lemma parse_plain_rest:
  assumes "plain_host h" "plain_path p"
  shows "takeWhile (\<lambda>c. c \<noteq> CHR ''/'') (h @ p) = h" "dropWhile (\<lambda>c. c \<noteq> CHR ''/'') (h @ p) = p"
proof -
  obtain t where t: "p = CHR ''/'' # t" using plain_path_chars [OF assms(2)] by (cases p) auto
  show "takeWhile (\<lambda>c. c \<noteq> CHR ''/'') (h @ p) = h" "dropWhile (\<lambda>c. c \<noteq> CHR ''/'') (h @ p) = p"
    using plain_host_chars(4) [OF assms(1)] by (simp_all add: t takeWhile_not dropWhile_not)
qed

lemma set_path_plain:
  "plain_path p \<Longrightarrow> set_path u p = Some (u\<lparr>u_path := p, u_raw_path := []\<rparr>)"
  using plain_path_chars(1) [of p] by (simp add: set_path_def unescape_plain escape_plain)

lemma url_parse_plain:
  assumes "plain_scheme sch" "plain_host h" "plain_path p"
  shows "url_parse (sch @ ''://'' @ h @ p) = Some (plain_url sch h p)"
proof -
  note s = plain_scheme_chars [OF assms(1)] and h = plain_host_chars [OF assms(2)]
    and p = plain_path_chars [OF assms(3)]
  let ?raw = "sch @ ''://'' @ h @ p"
  have nf: "CHR ''#'' \<notin> set ?raw" "CHR ''?'' \<notin> set ?raw" using s h p by auto
  have ctl: "\<not> has_ctl_byte ?raw" using s h p by simp
  have ns: "?raw \<noteq> ''*''" using s(4) by (cases sch) auto
  have sch: "get_scheme ?raw = Some (sch, ''//'' @ h @ p)" using get_scheme_plain [OF assms(1)] by simp
  have q: "CHR ''?'' \<notin> set (''//'' @ h @ p)" using h p by simp
  then have nq: "\<not> has_suffix (''//'' @ h @ p) ''?''"
    by (metis has_suffix_snoc last_in_set)
  have "parse_reference ?raw = Some (plain_url sch h p)"
    unfolding parse_reference_def sch option.case prod.case
    using ctl ns nq s(4) go_cut_no_sep [OF q] parse_plain_rest [OF assms(2,3)]
    by (simp add: Let_def has_prefix_def parse_authority_plain [OF assms(2)]
        set_path_plain [OF assms(3)] plain_url_def empty_url_def)
  then show ?thesis unfolding url_parse_def go_cut_no_sep [OF nf(1)] by simp
qed

lemma url_string_plain:
  assumes "plain_scheme sch" "plain_host h" "plain_path p"
  shows "url_string (plain_url sch h p) = sch @ ''://'' @ h @ p"
    "url_string ((plain_url sch h p)\<lparr>u_raw_query := q\<rparr>) =
       sch @ ''://'' @ h @ p @ (if q = [] then [] else CHR ''?'' # q)"
proof -
  note s = plain_scheme_chars [OF assms(1)] and h = plain_host_chars [OF assms(2)]
    and p = plain_path_chars [OF assms(3)]
  have "h \<noteq> []" using assms(2) by (simp add: plain_host_def)
  then show "url_string ((plain_url sch h p)\<lparr>u_raw_query := q\<rparr>) =
       sch @ ''://'' @ h @ p @ (if q = [] then [] else CHR ''?'' # q)" for q
    using s h p
    by (simp add: url_string_def plain_url_def empty_url_def Let_def escaped_path_def escape_plain
        user_string_def)
  from this [of "[]"] show "url_string (plain_url sch h p) = sch @ ''://'' @ h @ p"
    by (simp add: plain_url_def empty_url_def)
qed

lemma url_parse_plain_query:
  assumes "plain_scheme sch" "plain_host h" "plain_path p" "plain_query q"
  shows "url_parse (sch @ ''://'' @ h @ p @ CHR ''?'' # q) = Some ((plain_url sch h p)\<lparr>u_raw_query := q\<rparr>)"
proof -
  note s = plain_scheme_chars [OF assms(1)] and h = plain_host_chars [OF assms(2)]
    and p = plain_path_chars [OF assms(3)]
  let ?rest = "''//'' @ h @ p @ CHR ''?'' # q"
  let ?raw = "sch @ '':'' @ ?rest"
  have q: "q \<noteq> []" "\<not> has_ctl_byte q" "CHR ''#'' \<notin> set q"
  proof -
    have a: "list_all (\<lambda>c. 32 \<le> byte c \<and> byte c < 127 \<and> c \<noteq> CHR ''#'') q" and ne: "q \<noteq> []"
      using assms(4) by (auto simp: plain_query_def)
    show "q \<noteq> []" by (rule ne)
    show "\<not> has_ctl_byte q" by (rule no_ctl [OF a]) simp
    show "CHR ''#'' \<notin> set q" by (rule list_all_notin [OF a]) simp
  qed
  have nf: "CHR ''#'' \<notin> set ?raw" using s h p q by auto
  have ctl: "\<not> has_ctl_byte ?raw" using s h p q by simp
  have ns: "?raw \<noteq> ''*''" using s(4) by (cases sch) auto
  have sch: "get_scheme ?raw = Some (sch, ?rest)" using get_scheme_plain [OF assms(1)] by simp
  have nq: "\<not> (has_suffix ?rest ''?'' \<and> count_char (CHR ''?'') ?rest = 1)"
  proof
    assume a: "has_suffix ?rest ''?'' \<and> count_char (CHR ''?'') ?rest = 1"
    then have "last q = CHR ''?''" using q(1) by (simp add: has_suffix_snoc)
    then have "CHR ''?'' \<in> set q" using q(1) last_in_set by metis
    then have "count_char (CHR ''?'') q \<noteq> 0" by (induction q) (auto simp: count_char_def)
    moreover have "count_char (CHR ''?'') (''//'' @ h @ p @ [CHR ''?''] @ q) = Suc (count_char (CHR ''?'') q)"
      unfolding count_char_append count_char_none [OF h(9)] count_char_none [OF p(4)]
      by (simp add: count_char_def)
    ultimately show False using a by simp
  qed
  have cut: "go_cut ?rest (CHR ''?'') = (''//'' @ h @ p, q, True)"
    using go_cut_sep [of "CHR ''?''" "''//'' @ h @ p" q] h p by simp
  have cond: "(if has_suffix ?rest ''?'' \<and> count_char (CHR ''?'') ?rest = 1
      then (butlast ?rest, [], True)
      else case go_cut ?rest (CHR ''?'') of (a, b, _) \<Rightarrow> (a, b, False)) = (''//'' @ h @ p, q, False)"
    by (simp only: if_not_P [OF nq] cut prod.case)
  have "parse_reference ?raw = Some ((plain_url sch h p)\<lparr>u_raw_query := q\<rparr>)"
    unfolding parse_reference_def sch option.case prod.case cond
    using ctl ns s(4) parse_plain_rest [OF assms(2,3)]
    by (simp add: Let_def has_prefix_def parse_authority_plain [OF assms(2)]
        set_path_plain [OF assms(3)] plain_url_def empty_url_def)
  then show ?thesis unfolding url_parse_def using go_cut_no_sep [OF nf] by simp
qed

section \<open>Encoded queries\<close>

definition query_char :: "char \<Rightarrow> bool" where
  "query_char c = (is_alnum c \<or> c \<in> set ''-_.~+%'')"

lemma upper_hex_alnum: "d < 16 \<Longrightarrow> is_alnum (upper_hex d)"
  by (simp add: is_alnum_def upper_hex_def Let_def)

lemma escape_char_query: "list_all query_char (escape_char EncQuery c)"
proof (cases "should_escape EncQuery c")
  case True
  have "byte c div 16 < 16" "byte c mod 16 < 16"
    using byte_bound [of c] by (simp_all add: less_mult_imp_div_less)
  then show ?thesis using True by (simp add: escape_char_def query_char_def upper_hex_alnum)
next
  case False
  then have "is_alnum c \<or> c \<in> set ''-_.~''" by (auto simp: should_escape_def split: if_splits)
  with False show ?thesis by (auto simp: escape_char_def query_char_def)
qed

lemma url_escape_query: "list_all query_char (url_escape EncQuery s)"
  by (induction s) (simp_all add: url_escape_def escape_char_query)

lemma url_escape_query_chars:
  "CHR ''&'' \<notin> set (url_escape EncQuery s)" "CHR ''='' \<notin> set (url_escape EncQuery s)"
  "CHR '';'' \<notin> set (url_escape EncQuery s)"
  by (rule list_all_notin [OF url_escape_query], simp add: query_char_def is_alnum_def)+

definition encode_pair :: "string \<times> string \<Rightarrow> string" where
  "encode_pair kv = url_escape EncQuery (fst kv) @ ''='' @ url_escape EncQuery (snd kv)"

lemma values_encode_eq: "values_encode vs = go_join (map encode_pair (sort_key fst vs)) ''&''"
  by (simp add: values_encode_def encode_pair_def [abs_def] case_prod_beta')

lemma encode_pair_no_amp: "CHR ''&'' \<notin> set (encode_pair kv)"
  by (simp add: encode_pair_def url_escape_query_chars)

lemma parse_encode_pair: "parse_pair (encode_pair kv) = [kv]"
proof -
  have "go_cut (encode_pair kv) (CHR ''='') = (url_escape EncQuery (fst kv), url_escape EncQuery (snd kv), True)"
    unfolding encode_pair_def using go_cut_sep [OF url_escape_query_chars(2)] by simp
  moreover have "CHR '';'' \<notin> set (encode_pair kv)" "encode_pair kv \<noteq> []"
    by (simp_all add: encode_pair_def url_escape_query_chars)
  ultimately show ?thesis by (simp add: parse_pair_def)
qed

lemma split_amp_single: "CHR ''&'' \<notin> set s \<Longrightarrow> split_amp s = [s]"
  by (induction s) auto

lemma split_amp_join: "CHR ''&'' \<notin> set s \<Longrightarrow> split_amp (s @ CHR ''&'' # t) = s # split_amp t"
  by (induction s) auto

lemma parse_query_join:
  "kvs \<noteq> [] \<Longrightarrow> parse_query (go_join (map encode_pair kvs) ''&'') = kvs"
proof (induction kvs)
  case (Cons kv kvs)
  show ?case
  proof (cases kvs)
    case Nil
    then show ?thesis
      by (simp add: parse_query_def split_amp_single encode_pair_no_amp parse_encode_pair)
  next
    case (Cons kv' kvs')
    have "go_join (map encode_pair (kv # kvs)) ''&'' =
        encode_pair kv @ CHR ''&'' # go_join (map encode_pair kvs) ''&''"
      using Cons by simp
    moreover have "parse_query (go_join (map encode_pair kvs) ''&'') = kvs"
      using Cons.IH Cons by simp
    ultimately show ?thesis
      by (simp add: parse_query_def split_amp_join encode_pair_no_amp parse_encode_pair)
  qed
qed simp

lemma parse_values_encode: "parse_query (values_encode vs) = sort_key fst vs"
proof (cases "vs = []")
  case True
  then show ?thesis by (simp add: values_encode_def parse_query_def parse_pair_def)
next
  case False
  then have "sort_key fst vs \<noteq> []" by (metis length_0_conv length_sort)
  then show ?thesis unfolding values_encode_eq by (rule parse_query_join)
qed

lemma plain_query_encode: "vs \<noteq> [] \<Longrightarrow> plain_query (values_encode vs)"
proof -
  let ?P = "\<lambda>c. 32 \<le> byte c \<and> byte c < 127 \<and> c \<noteq> CHR ''#''"
  have esc: "list_all ?P (url_escape EncQuery s)" for s
    by (rule list_all_weaken [OF url_escape_query]) (auto simp: query_char_def is_alnum_def Let_def)
  have pair: "list_all ?P (encode_pair kv)" for kv by (simp add: encode_pair_def esc)
  have join: "list_all ?P (go_join (map encode_pair kvs) ''&'')" for kvs
    by (induction kvs rule: induct_list012) (simp_all add: pair)
  assume "vs \<noteq> []"
  then have "sort_key fst vs \<noteq> []" by (metis length_0_conv length_sort)
  then obtain kv kvs where kvs: "sort_key fst vs = kv # kvs" by (cases "sort_key fst vs") auto
  have "encode_pair kv \<noteq> []" by (simp add: encode_pair_def)
  then have "go_join (map encode_pair (kv # kvs)) ''&'' \<noteq> []" by (cases kvs) auto
  then show ?thesis using join [of "kv # kvs"] unfolding plain_query_def values_encode_eq kvs by simp
qed

lemma map_of_first:
  "map_of vs k = (case filter (\<lambda>kv. fst kv = k) vs of [] \<Rightarrow> None | kv # _ \<Rightarrow> Some (snd kv))"
  by (induction vs) auto

lemma sort_key_same: "(\<And>x. x \<in> set xs \<Longrightarrow> f x = a) \<Longrightarrow> sort_key f xs = xs"
  by (rule sort_key_id_if_sorted) (induction xs, auto)

lemma values_get_sort [simp]: "values_get (sort_key fst vs) k = values_get vs k"
proof -
  have "filter (\<lambda>kv. fst kv = k) (sort_key fst vs) = filter (\<lambda>kv. fst kv = k) vs"
    unfolding filter_sort by (rule sort_key_same [where a = k]) simp
  then show ?thesis by (simp add: values_get_def map_of_first)
qed

lemma values_get_parse_encode [simp]:
  "values_get (parse_query (values_encode vs)) k = values_get vs k"
  by (simp add: parse_values_encode)

end
