(* ===== verification/Uhttp.thy ===== *)
theory Uhttp
  imports Go_Errors Go_Float Go_Url
begin

text \<open>
  The part of the SDK's \<open>uhttp\<close> and \<open>ratelimit\<close> packages every request goes through: the rate
  limit headers, the gRPC code of an HTTP status, the classification of rejected token requests and
  of requests that got no response, the response cache with its key, and the pieces of
  \<open>BaseHttpClient.Do\<close>. What lies outside the program is the record \<open>svc\<close>: the wire below the
  SDK's transport, the clock, random identifiers, the RFC 850 date parser, the unicode tables, the
  classification of network failures, the media type parser, the hash of cache keys, and what a
  conversion to \<open>int64\<close> gives out of range.
\<close>

section \<open>The outside world\<close>

record 'w svc =
  sv_send :: "http_request \<Rightarrow> 'w \<Rightarrow> (gerror + http_response) \<times> 'w"
  sv_now :: "'w \<Rightarrow> gotime"
  sv_uuid :: "'w \<Rightarrow> string \<times> 'w"
  sv_rfc850 :: "string \<Rightarrow> gotime option"
  sv_unicode :: unicode_tables
  sv_network_class :: "gerror \<Rightarrow> (grpc_code \<times> string) option"
  sv_media_type :: "string \<Rightarrow> string"
  sv_hash :: "string \<Rightarrow> string"
  sv_far_int64 :: "float64 \<Rightarrow> int"
  sv_caching :: bool

text \<open>The mutable state behind a client: the response cache, the transport's own rate limit field
  and the outside world.\<close>

record 'w conn =
  cn_cache :: "string \<Rightarrow> http_response option"
  cn_rate_limit :: "rate_limit option"
  cn_world :: 'w

section \<open>Rate limit headers\<close>

definition limit_headers :: "string list" where
  "limit_headers = [''X-Ratelimit-Limit'', ''Ratelimit-Limit'', ''X-Ratelimit-Requests-Limit'', ''X-Rate-Limit-Limit'']"

definition remaining_headers :: "string list" where
  "remaining_headers = [''X-Ratelimit-Remaining'', ''Ratelimit-Remaining'', ''X-Ratelimit-Requests-Remaining'', ''X-Rate-Limit-Remaining'']"

definition reset_at_headers :: "string list" where
  "reset_at_headers = [''X-Ratelimit-Reset'', ''Ratelimit-Reset'', ''X-Ratelimit-Requests-Reset'', ''X-Rate-Limit-Reset'', ''Retry-After'']"

text \<open>\<open>strconv.ParseInt(s, 10, 64)\<close>: an optional sign and digits, in range.\<close>

definition parse_int64 :: "string \<Rightarrow> int option" where
  "parse_int64 s =
     (let neg = has_prefix s ''-'';
          ds = (if neg \<or> has_prefix s ''+'' then drop 1 s else s);
          v = (if neg then - int (digits_val ds) else int (digits_val ds))
      in if ds \<noteq> [] \<and> list_all is_digit ds \<and> - (2 ^ 63) \<le> v \<and> v < 2 ^ 63 then Some v else None)"

definition thirty_years :: int where
  "thirty_years = 60 * 60 * 24 * 365 * (2000 - 1970)"

text \<open>Go divides toward zero; the milliseconds branch only sees positive values. The relative
  branch multiplies a \<open>time.Duration\<close>, a 64-bit count of nanoseconds that wraps around.\<close>

definition wrap64 :: "int \<Rightarrow> int" where
  "wrap64 i = (i + 2 ^ 63) mod 2 ^ 64 - 2 ^ 63"

definition parse_reset_time :: "'w svc \<Rightarrow> 'w \<Rightarrow> string \<Rightarrow> gotime option" where
  "parse_reset_time sv w s =
     (case parse_int64 s of
        None \<Rightarrow> (case sv_rfc850 sv s of Some t \<Rightarrow> Some t | None \<Rightarrow> parse_rfc3339 s)
      | Some n0 \<Rightarrow>
        let n = (if n0 > thirty_years * 1000 then n0 div 1000 else n0)
        in if n > thirty_years
           then Some \<lparr>t_ns = (n + unix_epoch) * nanos, t_off = 0\<rparr>
           else Some ((sv_now sv w)\<lparr>t_ns := t_ns (sv_now sv w) + wrap64 (n * nanos)\<rparr>))"

definition normalize_rate_limit_value :: "string \<Rightarrow> string" where
  "normalize_rate_limit_value s = takeWhile is_digit (trim_space s)"

text \<open>The first of the headers that is set decides; its value must be a number.\<close>

fun header_number :: "(string \<times> string) list \<Rightarrow> string list \<Rightarrow> int option" where
  "header_number hs [] = Some 0"
| "header_number hs (k # ks) =
     (if header_get hs k = [] then header_number hs ks
      else parse_int64 (normalize_rate_limit_value (header_get hs k)))"

text \<open>The reset headers are tried until one parses; the last one tried stays when none does, which
  is the zero time.\<close>

fun header_reset :: "'w svc \<Rightarrow> 'w \<Rightarrow> (string \<times> string) list \<Rightarrow> string list \<Rightarrow> gotime" where
  "header_reset sv w hs [] = zero_time"
| "header_reset sv w hs (k # ks) =
     (if header_get hs k = [] then header_reset sv w hs ks
      else (case parse_reset_time sv w (header_get hs k) of
              Some t \<Rightarrow> t | None \<Rightarrow> header_reset sv w hs ks))"

definition add_seconds :: "gotime \<Rightarrow> int \<Rightarrow> gotime" where
  "add_seconds t s = t\<lparr>t_ns := t_ns t + s * nanos\<rparr>"

definition extract_rate_limit :: "'w svc \<Rightarrow> 'w \<Rightarrow> int \<Rightarrow> (string \<times> string) list \<Rightarrow> rate_limit option" where
  "extract_rate_limit sv w code hs =
     Option.bind (header_number hs limit_headers) (\<lambda>limit0.
     Option.bind (header_number hs remaining_headers) (\<lambda>remaining0.
       let reset0 = header_reset sv w hs reset_at_headers;
           over = (code = 429);
           st = (if over then RL_Overlimit else if remaining0 > 0 then RL_OK else RL_Unspecified);
           remaining = (if over then 0 else remaining0);
           defaults = (remaining = 0 \<and> is_zero reset0 \<and> st = RL_Overlimit)
       in Some \<lparr>rl_status = st,
                rl_limit = (if defaults then 1 else limit0),
                rl_remaining = remaining,
                rl_reset_at = Some (timestamp_of (if defaults then add_seconds (sv_now sv w) 60 else reset0))\<rparr>))"

section \<open>Status codes and content types\<close>

definition is_success_status :: "int \<Rightarrow> bool" where
  "is_success_status c = (200 \<le> c \<and> c < 300)"

definition grpc_code_of_http :: "int \<Rightarrow> grpc_code" where
  "grpc_code_of_http c =
     (if c = 400 then InvalidArgument
      else if c = 408 then DeadlineExceeded
      else if c = 429 \<or> c = 502 \<or> c = 503 \<or> c = 504 then Unavailable
      else if c = 404 then NotFound
      else if c = 401 then Unauthenticated
      else if c = 403 then PermissionDenied
      else if c = 409 then AlreadyExists
      else if c = 501 then Unimplemented
      else if 500 \<le> c \<and> c \<le> 599 then Unavailable
      else if 400 \<le> c \<and> c \<le> 499 then InvalidArgument
      else Unknown)"

definition is_json_content_type :: "unicode_tables \<Rightarrow> string \<Rightarrow> bool" where
  "is_json_content_type U ct =
     (let c = trim_space (to_lower U ct) in has_prefix c ''application'' \<and> go_contains c ''json'')"

section \<open>Errors with a status\<close>

text \<open>Details of a status are at most one rate limit; two of them match without their reset time.\<close>

definition details_cover :: "rate_limit option \<Rightarrow> rate_limit option \<Rightarrow> bool" where
  "details_cover have want =
     (case want of None \<Rightarrow> True
      | Some r \<Rightarrow> (case have of None \<Rightarrow> False
          | Some q \<Rightarrow> rl_status q = rl_status r \<and> rl_limit q = rl_limit r \<and> rl_remaining q = rl_remaining r))"

definition status_states :: "grpc_code \<Rightarrow> msg \<Rightarrow> rate_limit option \<Rightarrow> gerror \<Rightarrow> bool" where
  "status_states c m d e =
     (case find_status e of None \<Rightarrow> False
      | Some (c', m', d') \<Rightarrow> c' = c \<and> m' = m \<and> details_cover d' d)"

definition join_with_status :: "grpc_code \<Rightarrow> msg \<Rightarrow> rate_limit option \<Rightarrow> gerror list \<Rightarrow> gerror" where
  "join_with_status c m d es =
     (if status_states c m d (Joined es) then Joined es else Joined (Status c m d # es))"

definition wrap_errors :: "grpc_code \<Rightarrow> msg \<Rightarrow> gerror list \<Rightarrow> gerror" where
  "wrap_errors c m es = (if es = [] then Status c m None else join_with_status c m None es)"

definition wrap_errors_rate_limit :: "'w svc \<Rightarrow> 'w \<Rightarrow> grpc_code \<Rightarrow> http_response \<Rightarrow> gerror list \<Rightarrow> gerror" where
  "wrap_errors_rate_limit sv w c resp es =
     (let m = [S (rs_status_text resp)];
          d = extract_rate_limit sv w (rs_status resp) (rs_headers resp)
      in if es = [] then Status c m d else join_with_status c m d es)"

definition without_decode_errors :: "gerror list \<Rightarrow> gerror list" where
  "without_decode_errors es = filter (\<lambda>e. \<not> has_decode_failure e) es"

lemma status_code_wrap_errors [simp]: "status_code (wrap_errors c m es) = c"
  by (auto simp: wrap_errors_def join_with_status_def status_states_def status_code_def split: option.splits)

lemma status_code_wrap_errors_rate_limit [simp]:
  "status_code (wrap_errors_rate_limit sv w c resp es) = c"
  by (auto simp: wrap_errors_rate_limit_def join_with_status_def status_states_def status_code_def
      Let_def split: option.splits)

section \<open>Rejected token requests\<close>

definition max_error_param_length :: nat where
  "max_error_param_length = 256"

definition truncate_error_param :: "string \<Rightarrow> string" where
  "truncate_error_param p =
     (if length p \<le> max_error_param_length then p
      else if length (runes p) \<le> max_error_param_length then p
      else concat (map (\<lambda>(r, _). encode_rune r) (take max_error_param_length (runes p))) @ ''...'')"

record oauth_params =
  op_error :: "json option"
  op_description :: string

definition decode_oauth_params :: "oauth_params decoder" where
  "decode_oauth_params = decode_struct
     [(''error'', \<lambda>j a. Some (a\<lparr>op_error := Some j\<rparr>)),
      (''error_description'', dec_string (\<lambda>s a. a\<lparr>op_description := s\<rparr>))]"

text \<open>A \<open>null\<close> error decodes into the empty string, as any string target does.\<close>

definition oauth_params_json :: "string \<Rightarrow> string \<times> string" where
  "oauth_params_json body =
     (case unmarshal decode_oauth_params body \<lparr>op_error = None, op_description = []\<rparr> of
        None \<Rightarrow> ([], [])
      | Some p \<Rightarrow>
        (case op_error p of
           None \<Rightarrow> ([], op_description p)
         | Some JNull \<Rightarrow> ([], op_description p)
         | Some (JStr code) \<Rightarrow> (code, op_description p)
         | Some _ \<Rightarrow> ([], if op_description p = [] then trim_space body else op_description p)))"

text \<open>\<open>url.ParseQuery\<close> fails when any pair is malformed.\<close>

definition pair_ok :: "string \<Rightarrow> bool" where
  "pair_ok p = (p = [] \<or> parse_pair p \<noteq> [])"

definition oauth_params_body :: "'w svc \<Rightarrow> http_response option \<Rightarrow> string \<Rightarrow> string \<times> string" where
  "oauth_params_body sv resp body =
     (if body = [] then ([], [])
      else
        let ct = (case resp of None \<Rightarrow> [] | Some r \<Rightarrow> sv_media_type sv (header_get (rs_headers r) ''Content-Type''))
        in if ct = ''application/x-www-form-urlencoded'' \<or> ct = ''text/plain'' then
             (if list_all pair_ok (split_amp body)
              then (values_get (parse_query body) ''error'', values_get (parse_query body) ''error_description'')
              else ([], []))
           else oauth_params_json body)"

record token_error =
  te_resp :: "http_response option"
  te_code :: string
  te_description :: string

definition token_error_from :: "'w svc \<Rightarrow> retrieve_error \<Rightarrow> token_error" where
  "token_error_from sv r =
     (let (code, desc) =
        (if re_code r = [] then
           (let (c, d) = oauth_params_body sv (re_response r) (re_body r)
            in (c, if re_description r = [] then d else re_description r))
         else (re_code r, re_description r))
      in \<lparr>te_resp = re_response r, te_code = truncate_error_param code,
          te_description = truncate_error_param desc\<rparr>)"

definition token_error_message :: "token_error \<Rightarrow> msg" where
  "token_error_message e =
     (if te_code e \<noteq> [] \<and> te_description e \<noteq> [] then [S (te_code e), S '': '', S (te_description e)]
      else if te_code e \<noteq> [] then [S (te_code e)]
      else (case te_resp e of
          Some p \<Rightarrow> if te_description e \<noteq> [] then [S (rs_status_text p), S '': '', S (te_description e)]
                    else [S (rs_status_text p)]
        | None \<Rightarrow> if te_description e \<noteq> [] then [S (te_description e)]
                  else [S ''oauth2 token request failed'']))"

definition is_transient_status :: "int \<Rightarrow> bool" where
  "is_transient_status c = (grpc_code_of_http c = Unavailable \<or> grpc_code_of_http c = DeadlineExceeded)"

definition oauth_error_code :: "string \<Rightarrow> grpc_code option" where
  "oauth_error_code c =
     (if c = ''invalid_client'' \<or> c = ''invalid_grant'' then Some Unauthenticated
      else if c = ''unauthorized_client'' \<or> c = ''access_denied'' then Some PermissionDenied
      else if c = ''invalid_scope'' \<or> c = ''invalid_request'' \<or> c = ''unsupported_grant_type''
              \<or> c = ''unsupported_response_type'' then Some InvalidArgument
      else if c = ''server_error'' \<or> c = ''temporarily_unavailable'' then Some Unavailable
      else None)"

definition wrap_transient_token_error :: "'w svc \<Rightarrow> 'w \<Rightarrow> token_error \<Rightarrow> http_response \<Rightarrow> gerror \<Rightarrow> gerror" where
  "wrap_transient_token_error sv w te resp e =
     (let m = (if te_description te = [] then [S (rs_status_text resp)]
               else [S (rs_status_text resp), S '': '', S (te_description te)])
      in Joined [Status (grpc_code_of_http (rs_status resp)) m
                   (extract_rate_limit sv w (rs_status resp) (rs_headers resp)), e])"

definition classify_retrieve_error :: "'w svc \<Rightarrow> 'w \<Rightarrow> retrieve_error \<Rightarrow> gerror \<Rightarrow> gerror" where
  "classify_retrieve_error sv w r e =
     (let te = token_error_from sv r in
      case te_resp te of
        Some resp \<Rightarrow>
          if is_transient_status (rs_status resp) then wrap_transient_token_error sv w te resp e
          else (case oauth_error_code (te_code te) of
              Some c \<Rightarrow> wrap_errors c (token_error_message te) [e]
            | None \<Rightarrow> wrap_errors (grpc_code_of_http (rs_status resp)) (token_error_message te) [e])
      | None \<Rightarrow>
          (case oauth_error_code (te_code te) of
              Some c \<Rightarrow> wrap_errors c (token_error_message te) [e]
            | None \<Rightarrow> wrap_errors Unknown (token_error_message te) [e]))"

text \<open>\<open>ClassifyOAuth2TokenError\<close> is not on this path; \<open>wrapRequestError\<close> is: a request without a
  response loses its URL, an error with a status is kept, a rejected token request and a network
  failure are classified.\<close>

definition classify_transport_failure :: "'w svc \<Rightarrow> 'w \<Rightarrow> gerror \<Rightarrow> gerror" where
  "classify_transport_failure sv w e =
     (case find_retrieve e of
        Some r \<Rightarrow> classify_retrieve_error sv w r e
      | None \<Rightarrow> (case sv_network_class sv e of
           Some (c, m) \<Rightarrow> wrap_errors c [S m] [e] | None \<Rightarrow> e))"

definition without_request_url :: "gerror \<Rightarrow> gerror" where
  "without_request_url e =
     (case e of UrlError op u inner \<Rightarrow> Masked (error_text inner) e | _ \<Rightarrow> e)"

definition wrap_request_error :: "'w svc \<Rightarrow> 'w \<Rightarrow> gerror \<Rightarrow> gerror" where
  "wrap_request_error sv w e0 =
     (let e = without_request_url e0
      in if status_code e \<noteq> Unknown then e else classify_transport_failure sv w e)"

section \<open>The response cache\<close>

definition cache_key_headers :: "string list" where
  "cache_key_headers = [''Accept'', ''Content-Type'', ''Cookie'', ''Range'']"

definition cache_string :: "unicode_tables \<Rightarrow> url \<Rightarrow> (string \<times> string) list \<Rightarrow> string" where
  "cache_string U u hs =
     to_lower U (u_path u) @ ''?''
     @ go_join (sort_strings (map (\<lambda>(k, v). k @ ''='' @ v) (url_query u))) ''&''
     @ ''&headers=''
     @ go_join (sort_strings (map (\<lambda>(k, v). k @ ''='' @ v)
         (filter (\<lambda>(k, _). k \<in> set cache_key_headers) hs))) ''&''"

definition cache_key :: "'w svc \<Rightarrow> url \<Rightarrow> (string \<times> string) list \<Rightarrow> string" where
  "cache_key sv u hs = sv_hash sv (cache_string (sv_unicode sv) u hs)"

definition cache_get :: "'w svc \<Rightarrow> url \<Rightarrow> (string \<times> string) list \<Rightarrow> 'w conn \<Rightarrow> http_response option" where
  "cache_get sv u hs c = (if sv_caching sv then cn_cache c (cache_key sv u hs) else None)"

definition cache_set :: "'w svc \<Rightarrow> url \<Rightarrow> (string \<times> string) list \<Rightarrow> http_response \<Rightarrow> 'w conn \<Rightarrow> 'w conn" where
  "cache_set sv u hs r c =
     (if sv_caching sv then c\<lparr>cn_cache := (cn_cache c)(cache_key sv u hs \<mapsto> r)\<rparr> else c)"

text \<open>\<open>ClearCaches\<close>, and what the environment may do at any moment: an entry expires or is
  evicted.\<close>

definition clear_caches :: "'w conn \<Rightarrow> 'w conn" where
  "clear_caches c = c\<lparr>cn_cache := (\<lambda>_. None)\<rparr>"

definition cache_evict :: "string \<Rightarrow> 'w conn \<Rightarrow> 'w conn" where
  "cache_evict k c = c\<lparr>cn_cache := (cn_cache c)(k := None)\<rparr>"

section \<open>Response options\<close>

definition status_suffix :: "int \<Rightarrow> msg" where
  "status_suffix code = [S ''. status code: '', S (itoa code)]"

definition json_response_option ::
    "'w svc \<Rightarrow> 'a decoder \<Rightarrow> http_response \<Rightarrow> 'a \<Rightarrow> gerror + 'a" where
  "json_response_option sv d r a =
     (let ct = header_get (rs_headers r) ''Content-Type'' in
      if \<not> is_json_content_type (sv_unicode sv) ct
      then Inl (DecodeFailure (Plain ([S ''unexpected content type for JSON response: '', S ct]
                 @ status_suffix (rs_status r))))
      else (case unmarshal d (rs_body r) a of
          Some b \<Rightarrow> Inr b
        | None \<Rightarrow> Inl (DecodeFailure (Wrap [S ''failed to unmarshal json response: ''] (Plain [S ''json''])
                         (status_suffix (rs_status r))))))"

definition rate_limit_option ::
    "'w svc \<Rightarrow> 'w \<Rightarrow> http_response \<Rightarrow> gerror + rate_limit" where
  "rate_limit_option sv w r =
     (case extract_rate_limit sv w (rs_status r) (rs_headers r) of
        Some rl \<Rightarrow> Inr rl
      | None \<Rightarrow> Inl (Plain [S ''strconv.ParseInt: invalid syntax'']))"

text \<open>The options in order, the first error list and what they stored; a missing decoder is a
  call without \<open>WithJSONResponse\<close>.\<close>

definition run_options ::
    "'w svc \<Rightarrow> 'w \<Rightarrow> 'a decoder option \<Rightarrow> http_response \<Rightarrow> 'a \<Rightarrow> gerror list \<times> rate_limit \<times> 'a" where
  "run_options sv w d r a =
     (let (es1, rl) = (case rate_limit_option sv w r of Inr x \<Rightarrow> ([], x) | Inl e \<Rightarrow> ([e], empty_rate_limit));
          (es2, b) = (case d of None \<Rightarrow> ([], a)
             | Some dec \<Rightarrow> (case json_response_option sv dec r a of Inr x \<Rightarrow> ([], x) | Inl e \<Rightarrow> ([e], a)))
      in (es1 @ es2, rl, b))"

end
