(* ===== verification/Token_Scope.thy ===== *)
theory Token_Scope
  imports Uhttp
begin

text \<open>
  \<open>src/pkg/client/token_scope.go\<close>: the OAuth scope classes, the token sources with their fallback
  to the read source, and the mapping of token failures to gRPC statuses.
\<close>

section \<open>Scope classes and token sources\<close>

datatype scope_class = ScopeRead | ScopeUsersWrite | ScopeVendorsWrite

text \<open>The classes are a finite type: what holds for all of them is decided by cases.\<close>

instantiation scope_class :: enum
begin

definition enum_scope_class :: "scope_class list" where
  "enum_scope_class = [ScopeRead, ScopeUsersWrite, ScopeVendorsWrite]"

definition enum_all_scope_class :: "(scope_class \<Rightarrow> bool) \<Rightarrow> bool" where
  "enum_all_scope_class P = (P ScopeRead \<and> P ScopeUsersWrite \<and> P ScopeVendorsWrite)"

definition enum_ex_scope_class :: "(scope_class \<Rightarrow> bool) \<Rightarrow> bool" where
  "enum_ex_scope_class P = (P ScopeRead \<or> P ScopeUsersWrite \<or> P ScopeVendorsWrite)"

instance
proof
  have U: "(UNIV :: scope_class set) = {ScopeRead, ScopeUsersWrite, ScopeVendorsWrite}"
    by (auto intro: scope_class.exhaust)
  show "(UNIV :: scope_class set) = set enum_class.enum" "distinct (enum_class.enum :: scope_class list)"
    by (simp_all add: enum_scope_class_def U)
  show "enum_class.enum_all P = Ball UNIV P" "enum_class.enum_ex P = Bex UNIV P" for P :: "scope_class \<Rightarrow> bool"
    by (simp_all add: enum_all_scope_class_def enum_ex_scope_class_def U)
qed

end

lemma all_classes: "(\<forall>k :: scope_class. P k) = (P ScopeRead \<and> P ScopeUsersWrite \<and> P ScopeVendorsWrite)"
  unfolding enum_all_scope_class_def [symmetric] by (simp add: enum_all)

definition users_write_scope :: string where
  "users_write_scope = ''users:write''"

definition vendors_write_scope :: string where
  "vendors_write_scope = ''vendors:write''"

text \<open>A token source is asked with the outside world and answers a token or an error.\<close>

type_synonym 'w token_source = "'w \<Rightarrow> (gerror + string) \<times> 'w"

record 'w token_sources =
  ts_read :: "'w token_source"
  ts_users_write :: "'w token_source option"
  ts_vendors_write :: "'w token_source option"
  ts_read_scopes :: "string list"

definition for_class :: "'w token_sources \<Rightarrow> scope_class \<Rightarrow> 'w token_source" where
  "for_class s class =
     (case class of
        ScopeUsersWrite \<Rightarrow> (case ts_users_write s of Some t \<Rightarrow> t | None \<Rightarrow> ts_read s)
      | ScopeVendorsWrite \<Rightarrow> (case ts_vendors_write s of Some t \<Rightarrow> t | None \<Rightarrow> ts_read s)
      | ScopeRead \<Rightarrow> ts_read s)"

text \<open>Without sources for the write classes every class is served by the read source.\<close>

lemma for_class_read_only:
  assumes "ts_users_write s = None" "ts_vendors_write s = None"
  shows "for_class s k = ts_read s"
proof -
  have "\<forall>k. for_class s k = ts_read s" unfolding all_classes using assms by (simp add: for_class_def)
  then show ?thesis ..
qed

text \<open>A context carries at most one scope class; without one it is the zero value, read.\<close>

type_synonym context_scope = "scope_class option"

definition with_scope_class :: "context_scope \<Rightarrow> scope_class \<Rightarrow> context_scope" where
  "with_scope_class ctx class = Some class"

definition scope_class_from :: "context_scope \<Rightarrow> scope_class" where
  "scope_class_from ctx = (case ctx of Some c \<Rightarrow> c | None \<Rightarrow> ScopeRead)"

text \<open>\<open>Token.Token\<close>: the static token of the access-token configuration.\<close>

definition static_token :: "string \<Rightarrow> 'w token_source" where
  "static_token t w = (if t = [] then Inl (Plain [S ''access token is empty'']) else Inr t, w)"

section \<open>Token failures\<close>

definition missing_write_scope_error :: "string \<Rightarrow> string \<Rightarrow> gerror \<Rightarrow> gerror" where
  "missing_write_scope_error scope operations e =
     wrap_errors FailedPrecondition
       [S ''Ramp OAuth app is not configured for scope '', Q scope,
        S ''; add it to the app in Ramp (Settings > Developers) to enable '', S operations] [e]"

definition is_unauthorized :: "retrieve_error \<Rightarrow> bool" where
  "is_unauthorized r = (case re_response r of Some p \<Rightarrow> rs_status p = 401 | None \<Rightarrow> False)"

definition classify_token_error :: "gerror \<Rightarrow> scope_class \<Rightarrow> string list \<Rightarrow> gerror" where
  "classify_token_error e class read_scopes =
     (case find_retrieve e of
        None \<Rightarrow> Wrap [S ''failed to get token: ''] e []
      | Some r \<Rightarrow>
        let e' = Redacted r in
        if re_code r = ''invalid_scope'' then
          (case class of
             ScopeUsersWrite \<Rightarrow> missing_write_scope_error users_write_scope
               ''creating, deactivating and reactivating users'' e'
           | ScopeVendorsWrite \<Rightarrow> missing_write_scope_error vendors_write_scope
               ''granting and revoking vendor ownership'' e'
           | ScopeRead \<Rightarrow> wrap_errors FailedPrecondition
               [S ''Ramp OAuth app is missing one of the required read scopes: '',
                S (go_join read_scopes '' '')] [e'])
        else if re_code r = ''invalid_client'' \<or> is_unauthorized r then
          wrap_errors Unauthenticated [S ''Ramp rejected the OAuth client credentials''] [e']
        else Wrap [S ''failed to get token: ''] e' [])"

lemma classify_token_error_retrieve:
  "find_retrieve e = Some r \<Longrightarrow>
     classify_token_error e class scopes = classify_token_error (Retrieve r) class scopes"
  by (simp add: classify_token_error_def)

lemma status_states_Redacted [simp]: "\<not> status_states c m d (Joined [Redacted r])"
  by (simp add: status_states_def)

text \<open>The status a caller reads off a classified token failure.\<close>

lemma classify_token_error_status:
  "status_code (classify_token_error e class scopes) =
     (case find_retrieve e of
        None \<Rightarrow> status_code e
      | Some r \<Rightarrow>
          if re_code r = ''invalid_scope'' then FailedPrecondition
          else if re_code r = ''invalid_client'' \<or> is_unauthorized r then Unauthenticated
          else Unknown)"
  by (auto simp: classify_token_error_def missing_write_scope_error_def Let_def
      split: option.splits scope_class.splits)

lemma find_retrieve_classify:
  "find_retrieve (classify_token_error e class scopes) = find_retrieve e"
  by (auto simp: classify_token_error_def missing_write_scope_error_def Let_def wrap_errors_def
      join_with_status_def split: option.splits scope_class.splits)

text \<open>Two rejections with the same error code and response status are told apart by nothing in the
  message: it depends on neither the body nor the description nor the error URI.\<close>

definition same_public_part :: "retrieve_error \<Rightarrow> retrieve_error \<Rightarrow> bool" where
  "same_public_part r s =
     (re_code r = re_code s \<and>
      map_option (\<lambda>p. (rs_status p, rs_status_text p)) (re_response r) =
      map_option (\<lambda>p. (rs_status p, rs_status_text p)) (re_response s))"

lemma redacted_text_public: "same_public_part r s \<Longrightarrow> redacted_text r = redacted_text s"
  by (auto simp: same_public_part_def redacted_text_def split: option.splits)

lemma is_unauthorized_public: "same_public_part r s \<Longrightarrow> is_unauthorized r = is_unauthorized s"
  by (auto simp: same_public_part_def is_unauthorized_def split: option.splits)

lemma classify_text_public:
  assumes "find_retrieve e = Some r" "find_retrieve f = Some s" "same_public_part r s"
  shows "error_text (classify_token_error e class scopes) = error_text (classify_token_error f class scopes)"
proof -
  have "re_code r = re_code s" using assms(3) by (simp add: same_public_part_def)
  with assms redacted_text_public [OF assms(3)] is_unauthorized_public [OF assms(3)] show ?thesis
    by (auto simp: classify_token_error_def missing_write_scope_error_def wrap_errors_def
        join_with_status_def Let_def split: scope_class.splits)
qed

end
