(* ===== verification/Ramp_Client.thy ===== *)
theory Ramp_Client
  imports Token_Scope
begin

text \<open>
  \<open>src/pkg/client/client.go\<close> and \<open>helpers.go\<close>: the client, its transport that picks and sets the
  token, and the one path every request takes (\<open>doQuery\<close>), together with the SDK's
  \<open>BaseHttpClient.Do\<close> that this path calls. Redirects are not followed: the wire's answer is the
  final response.
\<close>

section \<open>Base URLs\<close>

definition api_path :: string where
  "api_path = ''developer''"

definition api_version :: string where
  "api_version = ''v1''"

definition resolve_base_url :: "string \<Rightarrow> string" where
  "resolve_base_url s = trim_right s ''/''"

definition token_url :: "string \<Rightarrow> string" where
  "token_url base = resolve_base_url base @ ''/'' @ api_path @ ''/'' @ api_version @ ''/token''"

record 'w client =
  cl_base_url :: string
  cl_sources :: "'w token_sources"

definition new_with_token_sources :: "'w token_sources \<Rightarrow> string \<Rightarrow> 'w client" where
  "new_with_token_sources sources base = \<lparr>cl_base_url = base, cl_sources = sources\<rparr>"

definition new_client :: "'w token_source \<Rightarrow> string \<Rightarrow> 'w client" where
  "new_client src base =
     new_with_token_sources
       \<lparr>ts_read = src, ts_users_write = None, ts_vendors_write = None, ts_read_scopes = []\<rparr> base"

text \<open>\<open>NewWithTokenSources\<close> and \<open>New\<close> as they can fail: the SDK may not be able to make an HTTP client.\<close>

definition create_client :: "gerror option \<Rightarrow> 'w token_sources \<Rightarrow> string \<Rightarrow> gerror + 'w client" where
  "create_client http sources base =
     (case http of
        Some e \<Rightarrow> Inl (Wrap [S ''failed to create HTTP client: ''] e [])
      | None \<Rightarrow> Inr (new_with_token_sources sources base))"

definition create_token_client :: "gerror option \<Rightarrow> 'w token_source \<Rightarrow> string \<Rightarrow> gerror + 'w client" where
  "create_token_client http src base =
     create_client http
       \<lparr>ts_read = src, ts_users_write = None, ts_vendors_write = None, ts_read_scopes = []\<rparr> base"

lemma create_token_client_simps [simp]:
  "create_token_client None src base = Inr (new_client src base)"
  "create_client None sources base = Inr (new_with_token_sources sources base)"
  by (simp_all add: create_token_client_def create_client_def new_client_def)

definition url_error :: "string \<Rightarrow> gerror" where
  "url_error s = UrlError ''parse'' s (Plain [S ''invalid URL''])"

definition new_unpaginated_url :: "'w client \<Rightarrow> string \<Rightarrow> gerror + string" where
  "new_unpaginated_url cl path =
     (let s = resolve_base_url (cl_base_url cl) @ ''/'' @ api_path @ ''/'' @ api_version @ ''/'' @ path
      in case url_parse s of None \<Rightarrow> Inl (url_error s) | Some u \<Rightarrow> Inr (url_string u))"

section \<open>The transport\<close>

text \<open>\<open>openGraphHttpTransport.RoundTrip\<close>: forget the previous rate limit, fetch a token for the
  request's scope class, set it, send, and note a 429.\<close>

definition round_trip ::
    "'w svc \<Rightarrow> 'w token_sources \<Rightarrow> context_scope \<Rightarrow> http_request \<Rightarrow> 'w conn
       \<Rightarrow> (gerror + http_response) \<times> 'w conn" where
  "round_trip sv sources ctx rq c0 =
     (let class = scope_class_from ctx; c1 = c0\<lparr>cn_rate_limit := None\<rparr> in
      case for_class sources class (cn_world c1) of
        (Inl e, w) \<Rightarrow> (Inl (classify_token_error e class (ts_read_scopes sources)), c1\<lparr>cn_world := w\<rparr>)
      | (Inr tok, w) \<Rightarrow>
        (case sv_send sv (rq\<lparr>rq_headers := header_set ''Authorization'' (''Bearer '' @ tok) (rq_headers rq)\<rparr>) w of
           (Inl e, w') \<Rightarrow> (Inl e, c1\<lparr>cn_world := w'\<rparr>)
         | (Inr resp, w') \<Rightarrow>
           (Inr resp,
            c1\<lparr>cn_world := w',
               cn_rate_limit :=
                 (if rs_status resp = 429
                  then Some \<lparr>rl_status = RL_Overlimit, rl_limit = 0, rl_remaining = 0,
                             rl_reset_at = Some (timestamp_of (add_seconds (sv_now sv w') 60))\<rparr>
                  else None)\<rparr>)))"

section \<open>BaseHttpClient.Do\<close>

definition method_get :: string where "method_get = ''GET''"
definition method_post :: string where "method_post = ''POST''"
definition method_patch :: string where "method_patch = ''PATCH''"

text \<open>The operation a \<open>url.Error\<close> of \<open>http.Client.Do\<close> names: the method with a capital.\<close>

definition url_error_op :: "string \<Rightarrow> string" where
  "url_error_op m = (case m of [] \<Rightarrow> ''Get'' | c # s \<Rightarrow> c # map lower_byte s)"

text \<open>After a response is there, from the wire or from the cache: run the options, turn an
  unsuccessful status into a gRPC status, remember the answer of a successful GET. The answer is
  remembered whether or not it could be decoded.\<close>

definition finish_do ::
    "'w svc \<Rightarrow> http_request \<Rightarrow> url \<Rightarrow> 'a decoder option \<Rightarrow> 'a \<Rightarrow> http_response \<Rightarrow> 'w conn
       \<Rightarrow> ((gerror + 'a) \<times> rate_limit) \<times> 'w conn" where
  "finish_do sv rq u dec a resp c =
     (case run_options sv (cn_world c) dec resp a of (es, rl, b) \<Rightarrow>
        if \<not> is_success_status (rs_status resp) then
          ((Inl (wrap_errors_rate_limit sv (cn_world c) (grpc_code_of_http (rs_status resp)) resp
                   (without_decode_errors es)), rl), c)
        else
          ((case errors_join es of Some e \<Rightarrow> Inl e | None \<Rightarrow> Inr b, rl),
           if rq_method rq = method_get \<and> rs_status resp = 200
           then cache_set sv u (rq_headers rq) resp c else c))"

definition http_do ::
    "'w svc \<Rightarrow> 'w token_sources \<Rightarrow> context_scope \<Rightarrow> http_request \<Rightarrow> url \<Rightarrow> 'a decoder option \<Rightarrow> 'a
       \<Rightarrow> 'w conn \<Rightarrow> ((gerror + 'a) \<times> rate_limit) \<times> 'w conn" where
  "http_do sv sources ctx rq u dec a c =
     (case (if rq_method rq = method_get \<and> header_get (rq_headers rq) ''Cache-Control'' \<noteq> ''no-cache''
            then cache_get sv u (rq_headers rq) c else None) of
        Some resp \<Rightarrow> finish_do sv rq u dec a resp c
      | None \<Rightarrow>
        (case round_trip sv sources ctx rq c of
           (Inl e, c') \<Rightarrow>
             ((Inl (wrap_request_error sv (cn_world c')
                      (UrlError (url_error_op (rq_method rq)) (rq_url rq) e)), empty_rate_limit), c')
         | (Inr resp, c') \<Rightarrow> finish_do sv rq u dec a resp c'))"

section \<open>Queries\<close>

text \<open>What a client operation gives: its value or error, the rate limit it reports (nil when the
  request could not be built), and the state.\<close>

type_synonym 'a reply = "(gerror + 'a) \<times> rate_limit option"

definition wrap_reply :: "msg \<Rightarrow> ('a \<Rightarrow> 'b) \<Rightarrow> 'a reply \<Rightarrow> 'b reply" where
  "wrap_reply m f r = (case r of (Inl e, rl) \<Rightarrow> (Inl (Wrap m e []), rl) | (Inr a, rl) \<Rightarrow> (Inr (f a), rl))"

definition build_request :: "string \<Rightarrow> url \<Rightarrow> json option \<Rightarrow> bool \<Rightarrow> http_request" where
  "build_request meth u body no_cache =
     \<lparr>rq_method = meth, rq_url = url_string u,
      rq_headers =
        (if no_cache then header_set ''Cache-Control'' ''no-cache'' else id)
          (if body \<noteq> None then header_set ''Content-Type'' ''application/json'' [] else []),
      rq_body = map_option print_json body\<rparr>"

definition do_query ::
    "'w svc \<Rightarrow> 'w client \<Rightarrow> context_scope \<Rightarrow> string \<Rightarrow> string \<Rightarrow> json option \<Rightarrow> 'a decoder option \<Rightarrow> 'a
       \<Rightarrow> bool \<Rightarrow> 'w conn \<Rightarrow> 'a reply \<times> 'w conn" where
  "do_query sv cl ctx meth request_url body dec a no_cache c =
     (case url_parse request_url of
        None \<Rightarrow> ((Inl (Wrap [S ''failed to parse request URL '', S request_url, S '': ''] (url_error request_url) []), None), c)
      | Some u0 \<Rightarrow>
        (case url_parse (url_string u0) of
           None \<Rightarrow> ((Inl (Wrap [S ''failed to create request '', S (url_string u0), S '': '']
                            (url_error (url_string u0)) []), None), c)
         | Some u \<Rightarrow>
           (case http_do sv (cl_sources cl) ctx (build_request meth u body no_cache) u dec a c of
              ((Inl e, rl), c') \<Rightarrow>
                ((Inl (Wrap [S ''failed to execute request '', S (url_string u0), S '': ''] e []), Some rl), c')
            | ((Inr b, rl), c') \<Rightarrow> ((Inr b, Some rl), c'))))"

definition query ::
    "'w svc \<Rightarrow> 'w client \<Rightarrow> context_scope \<Rightarrow> string \<Rightarrow> string \<Rightarrow> 'a decoder option \<Rightarrow> 'a
       \<Rightarrow> 'w conn \<Rightarrow> 'a reply \<times> 'w conn" where
  "query sv cl ctx meth u dec a = do_query sv cl ctx meth u None dec a False"

definition query_uncached ::
    "'w svc \<Rightarrow> 'w client \<Rightarrow> context_scope \<Rightarrow> string \<Rightarrow> string \<Rightarrow> 'a decoder option \<Rightarrow> 'a
       \<Rightarrow> 'w conn \<Rightarrow> 'a reply \<times> 'w conn" where
  "query_uncached sv cl ctx meth u dec a = do_query sv cl ctx meth u None dec a True"

definition query_with_body ::
    "'w svc \<Rightarrow> 'w client \<Rightarrow> context_scope \<Rightarrow> string \<Rightarrow> string \<Rightarrow> json \<Rightarrow> 'a decoder option \<Rightarrow> 'a
       \<Rightarrow> 'w conn \<Rightarrow> 'a reply \<times> 'w conn" where
  "query_with_body sv cl ctx meth u body dec a = do_query sv cl ctx meth u (Some body) dec a False"

text \<open>The body of an unsuccessful answer is logged, cut off at one read of at most one MiB: a value here,
  the result of the request does not depend on it. A buffer that is empty answers its read with EOF.\<close>

datatype log_entry = LogError string | LogDebug string string

definition max_logged_body :: nat where
  "max_logged_body = 1024 * 1024"

definition log_body :: "string option \<Rightarrow> log_entry option" where
  "log_body body =
     (case body of
        None \<Rightarrow> None
      | Some b \<Rightarrow>
        if b = [] then Some (LogError ''error reading response body'')
        else Some (LogDebug ''response body: '' (take max_logged_body b)))"

lemma log_body_bounded: "log_body body = Some (LogDebug m b) \<Longrightarrow> length b \<le> max_logged_body"
  by (auto simp: log_body_def split: option.splits if_splits)

section \<open>Facts about the request path\<close>

text \<open>The rate limit field of the transport says something only after a 429.\<close>

lemma round_trip_rate_limit:
  "round_trip sv sources ctx rq c = (r, c') \<Longrightarrow>
     (cn_rate_limit c' \<noteq> None \<longleftrightarrow> (\<exists>resp. r = Inr resp \<and> rs_status resp = 429))"
  by (auto simp: round_trip_def Let_def split: prod.splits sum.splits if_splits)

lemma round_trip_cache [simp]:
  "round_trip sv sources ctx rq c = (r, c') \<Longrightarrow> cn_cache c' = cn_cache c"
  by (auto simp: round_trip_def Let_def split: prod.splits sum.splits if_splits)

text \<open>An answer of the server without a successful status is an error with the code of its
  status, and nothing is remembered.\<close>

lemma finish_do_error:
  assumes "\<not> is_success_status (rs_status resp)"
  shows "\<exists>e rl. finish_do sv rq u dec a resp c = ((Inl e, rl), c)
           \<and> status_code e = grpc_code_of_http (rs_status resp)"
  using assms by (auto simp: finish_do_def split: prod.splits)

lemma finish_do_state:
  "finish_do sv rq u dec a resp c = (r, c') \<Longrightarrow>
     c' = c \<or> (rq_method rq = method_get \<and> rs_status resp = 200
                \<and> c' = cache_set sv u (rq_headers rq) resp c)"
  by (auto simp: finish_do_def split: prod.splits if_splits)

lemma http_do_hit:
  assumes "rq_method rq = method_get" "header_get (rq_headers rq) ''Cache-Control'' \<noteq> ''no-cache''"
    and "cache_get sv u (rq_headers rq) c = Some resp"
  shows "http_do sv sources ctx rq u dec a c = finish_do sv rq u dec a resp c"
  using assms by (simp add: http_do_def)

lemma http_do_miss:
  assumes "rq_method rq \<noteq> method_get \<or> header_get (rq_headers rq) ''Cache-Control'' = ''no-cache''
           \<or> cache_get sv u (rq_headers rq) c = None"
  shows "http_do sv sources ctx rq u dec a c =
    (case round_trip sv sources ctx rq c of
       (Inl e, c') \<Rightarrow> ((Inl (wrap_request_error sv (cn_world c')
             (UrlError (url_error_op (rq_method rq)) (rq_url rq) e)), empty_rate_limit), c')
     | (Inr resp, c') \<Rightarrow> finish_do sv rq u dec a resp c')"
  using assms by (auto simp: http_do_def split: option.splits)

lemma cache_set_world [simp]: "cn_world (cache_set sv u hs r c) = cn_world c"
  by (simp add: cache_set_def)

lemma finish_do_world: "finish_do sv rq u dec a resp c = (r, c') \<Longrightarrow> cn_world c' = cn_world c"
  using finish_do_state by fastforce

text \<open>A request that is not a GET never reads or writes the response cache.\<close>

lemma http_do_cache_other:
  assumes "rq_method rq \<noteq> method_get" "http_do sv sources ctx rq u dec a c = (r, c')"
  shows "cn_cache c' = cn_cache c"
  using assms
  by (auto simp: http_do_def split: prod.splits sum.splits option.splits
      dest!: finish_do_state round_trip_cache)

lemma do_query_cache_other:
  assumes "meth \<noteq> method_get" "do_query sv cl ctx meth s body dec a nc c = (r, c')"
  shows "cn_cache c' = cn_cache c"
  using assms
  by (auto simp: do_query_def build_request_def split: option.splits prod.splits sum.splits
      dest!: http_do_cache_other [rotated])

section \<open>A value that was decoded came from a body\<close>

lemma run_options_decoded:
  "run_options sv w (Some dec) resp a = (es, rl, b) \<Longrightarrow> es = [] \<Longrightarrow> unmarshal dec (rs_body resp) a = Some b"
  by (auto simp: run_options_def json_response_option_def Let_def split: sum.splits if_splits option.splits)

lemma finish_do_decoded:
  "finish_do sv rq u (Some dec) a resp c = ((Inr b, rl), c') \<Longrightarrow>
     is_success_status (rs_status resp) \<and> unmarshal dec (rs_body resp) a = Some b"
  by (auto simp: finish_do_def errors_join_def split: prod.splits if_splits dest: run_options_decoded)

lemma do_query_decoded:
  assumes "do_query sv cl ctx meth s body (Some dec) a nc c = ((Inr b, rl), c')"
  shows "\<exists>t. unmarshal dec t a = Some b"
  using assms
  by (auto simp: do_query_def http_do_def split: option.splits prod.splits sum.splits if_splits
      dest: finish_do_decoded)

end
