(* ===== verification/Ramp_Models.thy ===== *)
theory Ramp_Models
  imports Uhttp
begin

text \<open>
  \<open>src/pkg/client/models.go\<close> and \<open>vm_models.go\<close>: the wire types as records, one decoder per type in
  the order of its fields, and \<open>Money.MinorUnits\<close>. A pointer is an option, so a \<open>null\<close> entry of a
  list of pointers is \<open>None\<close>; a nil slice and an empty one are both the empty list.
\<close>

section \<open>Users, tasks and pages\<close>

record page =
  pg_next :: string

definition zero_page :: page where
  "zero_page = \<lparr>pg_next = []\<rparr>"

definition decode_page :: "page decoder" where
  "decode_page = decode_struct
     [(''next'', dec_string (\<lambda>x a. a\<lparr>pg_next := x\<rparr>))]"

record user =
  us_id :: string
  us_email :: string
  us_first_name :: string
  us_last_name :: string
  us_role :: string
  us_status :: string

definition zero_user :: user where
  "zero_user = \<lparr>us_id = [], us_email = [], us_first_name = [], us_last_name = [], us_role = [],
     us_status = []\<rparr>"

definition decode_user :: "user decoder" where
  "decode_user = decode_struct
     [(''id'', dec_string (\<lambda>x a. a\<lparr>us_id := x\<rparr>)),
      (''email'', dec_string (\<lambda>x a. a\<lparr>us_email := x\<rparr>)),
      (''first_name'', dec_string (\<lambda>x a. a\<lparr>us_first_name := x\<rparr>)),
      (''last_name'', dec_string (\<lambda>x a. a\<lparr>us_last_name := x\<rparr>)),
      (''role'', dec_string (\<lambda>x a. a\<lparr>us_role := x\<rparr>)),
      (''status'', dec_string (\<lambda>x a. a\<lparr>us_status := x\<rparr>))]"

record users_list =
  ul_page :: page
  ul_users :: "user option list"

definition zero_users_list :: users_list where
  "zero_users_list = \<lparr>ul_page = zero_page, ul_users = []\<rparr>"

definition decode_users_list :: "users_list decoder" where
  "decode_users_list = decode_struct
     [(''page'', dec_nested decode_page ul_page (\<lambda>x a. a\<lparr>ul_page := x\<rparr>)),
      (''data'', dec_list (elem_pointer decode_user zero_user) None ul_users (\<lambda>x a. a\<lparr>ul_users := x\<rparr>))]"

record deferred_task =
  dt_id :: string

definition zero_deferred_task :: deferred_task where
  "zero_deferred_task = \<lparr>dt_id = []\<rparr>"

definition decode_deferred_task :: "deferred_task decoder" where
  "decode_deferred_task = decode_struct
     [(''id'', dec_string (\<lambda>x a. a\<lparr>dt_id := x\<rparr>))]"

section \<open>Money\<close>

definition dec_float :: "(float64 \<Rightarrow> 'a \<Rightarrow> 'a) \<Rightarrow> 'a decoder" where
  "dec_float upd j a =
     (case j of JNull \<Rightarrow> Some a | JNum s \<Rightarrow> map_option (\<lambda>v. upd v a) (parse_float s) | _ \<Rightarrow> None)"

record money =
  mo_amount :: float64
  mo_currency_code :: string
  mo_minor_unit_conversion_rate :: int

definition zero_money :: money where
  "zero_money = \<lparr>mo_amount = FFin 0 0, mo_currency_code = [], mo_minor_unit_conversion_rate = 0\<rparr>"

definition decode_money :: "money decoder" where
  "decode_money = decode_struct
     [(''amount'', dec_float (\<lambda>x a. a\<lparr>mo_amount := x\<rparr>)),
      (''currency_code'', dec_string (\<lambda>x a. a\<lparr>mo_currency_code := x\<rparr>)),
      (''minor_unit_conversion_rate'', dec_int (\<lambda>x a. a\<lparr>mo_minor_unit_conversion_rate := x\<rparr>))]"

text \<open>\<open>Money.MinorUnits\<close>, nil included. The code adds a half and truncates.\<close>

definition minor_units :: "'w svc \<Rightarrow> money option \<Rightarrow> int" where
  "minor_units sv m =
     (case m of None \<Rightarrow> 0
      | Some m \<Rightarrow>
        if mo_currency_code m = [] then 0
        else
          let rate = (if mo_minor_unit_conversion_rate m \<le> 0 then 100 else mo_minor_unit_conversion_rate m);
              v = fl_mul_pos (mo_amount m) (fl_of_int rate)
          in if fl_nonneg v then fl_to_int64 (sv_far_int64 sv) (fl_add v fl_half)
             else fl_to_int64 (sv_far_int64 sv) (fl_add v fl_minus_half))"

section \<open>Vendors\<close>

record vendor =
  ve_id :: string
  ve_name :: string
  ve_name_legal :: string
  ve_is_active :: bool
  ve_is_deletable :: bool
  ve_vendor_owner_id :: string
  ve_external_vendor_id :: string
  ve_default_entity_id :: string
  ve_accounting_vendor_remote_id :: string
  ve_merchant_id :: string
  ve_description :: string
  ve_vendor_type :: string
  ve_billing_frequency :: string
  ve_country :: string
  ve_state :: string
  ve_subsidiary :: "json list"
  ve_contacts :: "json list"
  ve_created_at :: string
  ve_total_spend_all_time :: "money option"
  ve_total_spend_last_30_days :: "money option"
  ve_total_spend_last_365_days :: "money option"
  ve_total_spend_ytd :: "money option"

definition zero_vendor :: vendor where
  "zero_vendor = \<lparr>ve_id = [], ve_name = [], ve_name_legal = [], ve_is_active = False,
     ve_is_deletable = False, ve_vendor_owner_id = [], ve_external_vendor_id = [],
     ve_default_entity_id = [], ve_accounting_vendor_remote_id = [],
     ve_merchant_id = [], ve_description = [], ve_vendor_type = [],
     ve_billing_frequency = [], ve_country = [], ve_state = [], ve_subsidiary = [],
     ve_contacts = [], ve_created_at = [], ve_total_spend_all_time = None,
     ve_total_spend_last_30_days = None, ve_total_spend_last_365_days = None,
     ve_total_spend_ytd = None\<rparr>"

definition decode_vendor :: "vendor decoder" where
  "decode_vendor = decode_struct
     [(''id'', dec_string (\<lambda>x a. a\<lparr>ve_id := x\<rparr>)),
      (''name'', dec_string (\<lambda>x a. a\<lparr>ve_name := x\<rparr>)),
      (''name_legal'', dec_string (\<lambda>x a. a\<lparr>ve_name_legal := x\<rparr>)),
      (''is_active'', dec_bool (\<lambda>x a. a\<lparr>ve_is_active := x\<rparr>)),
      (''is_deletable'', dec_bool (\<lambda>x a. a\<lparr>ve_is_deletable := x\<rparr>)),
      (''vendor_owner_id'', dec_string (\<lambda>x a. a\<lparr>ve_vendor_owner_id := x\<rparr>)),
      (''external_vendor_id'', dec_string (\<lambda>x a. a\<lparr>ve_external_vendor_id := x\<rparr>)),
      (''default_entity_id'', dec_string (\<lambda>x a. a\<lparr>ve_default_entity_id := x\<rparr>)),
      (''accounting_vendor_remote_id'', dec_string (\<lambda>x a. a\<lparr>ve_accounting_vendor_remote_id := x\<rparr>)),
      (''merchant_id'', dec_string (\<lambda>x a. a\<lparr>ve_merchant_id := x\<rparr>)),
      (''description'', dec_string (\<lambda>x a. a\<lparr>ve_description := x\<rparr>)),
      (''vendor_type'', dec_string (\<lambda>x a. a\<lparr>ve_vendor_type := x\<rparr>)),
      (''billing_frequency'', dec_string (\<lambda>x a. a\<lparr>ve_billing_frequency := x\<rparr>)),
      (''country'', dec_string (\<lambda>x a. a\<lparr>ve_country := x\<rparr>)),
      (''state'', dec_string (\<lambda>x a. a\<lparr>ve_state := x\<rparr>)),
      (''subsidiary'', dec_raw_list (\<lambda>x a. a\<lparr>ve_subsidiary := x\<rparr>)),
      (''contacts'', dec_raw_list (\<lambda>x a. a\<lparr>ve_contacts := x\<rparr>)),
      (''created_at'', dec_string (\<lambda>x a. a\<lparr>ve_created_at := x\<rparr>)),
      (''total_spend_all_time'', dec_pointer decode_money zero_money ve_total_spend_all_time (\<lambda>x a. a\<lparr>ve_total_spend_all_time := x\<rparr>)),
      (''total_spend_last_30_days'', dec_pointer decode_money zero_money ve_total_spend_last_30_days (\<lambda>x a. a\<lparr>ve_total_spend_last_30_days := x\<rparr>)),
      (''total_spend_last_365_days'', dec_pointer decode_money zero_money ve_total_spend_last_365_days (\<lambda>x a. a\<lparr>ve_total_spend_last_365_days := x\<rparr>)),
      (''total_spend_ytd'', dec_pointer decode_money zero_money ve_total_spend_ytd (\<lambda>x a. a\<lparr>ve_total_spend_ytd := x\<rparr>))]"

record vendors_list =
  vl_page :: page
  vl_vendors :: "vendor option list"

definition zero_vendors_list :: vendors_list where
  "zero_vendors_list = \<lparr>vl_page = zero_page, vl_vendors = []\<rparr>"

definition decode_vendors_list :: "vendors_list decoder" where
  "decode_vendors_list = decode_struct
     [(''page'', dec_nested decode_page vl_page (\<lambda>x a. a\<lparr>vl_page := x\<rparr>)),
      (''data'', dec_list (elem_pointer decode_vendor zero_vendor) None vl_vendors (\<lambda>x a. a\<lparr>vl_vendors := x\<rparr>))]"

section \<open>Vendor agreements\<close>

record contract_owner =
  co_id :: string
  co_first_name :: string
  co_last_name :: string
  co_full_name :: string
  co_email :: string
  co_profile_picture_url :: string

definition zero_contract_owner :: contract_owner where
  "zero_contract_owner = \<lparr>co_id = [], co_first_name = [], co_last_name = [], co_full_name = [],
     co_email = [], co_profile_picture_url = []\<rparr>"

definition decode_contract_owner :: "contract_owner decoder" where
  "decode_contract_owner = decode_struct
     [(''id'', dec_string (\<lambda>x a. a\<lparr>co_id := x\<rparr>)),
      (''first_name'', dec_string (\<lambda>x a. a\<lparr>co_first_name := x\<rparr>)),
      (''last_name'', dec_string (\<lambda>x a. a\<lparr>co_last_name := x\<rparr>)),
      (''full_name'', dec_string (\<lambda>x a. a\<lparr>co_full_name := x\<rparr>)),
      (''email'', dec_string (\<lambda>x a. a\<lparr>co_email := x\<rparr>)),
      (''profile_picture_url'', dec_string (\<lambda>x a. a\<lparr>co_profile_picture_url := x\<rparr>))]"

record payee_business_vendor =
  bv_uuid :: string
  bv_vendor_tracking_category_option_id :: int

definition zero_payee_business_vendor :: payee_business_vendor where
  "zero_payee_business_vendor = \<lparr>bv_uuid = [], bv_vendor_tracking_category_option_id = 0\<rparr>"

definition decode_payee_business_vendor :: "payee_business_vendor decoder" where
  "decode_payee_business_vendor = decode_struct
     [(''uuid'', dec_string (\<lambda>x a. a\<lparr>bv_uuid := x\<rparr>)),
      (''vendor_tracking_category_option_id'', dec_int (\<lambda>x a. a\<lparr>bv_vendor_tracking_category_option_id := x\<rparr>))]"

record payee =
  py_uuid :: string
  py_name :: string
  py_dba_name :: string
  py_website :: string
  py_image_url :: string
  py_business_vendor :: "payee_business_vendor option"

definition zero_payee :: payee where
  "zero_payee = \<lparr>py_uuid = [], py_name = [], py_dba_name = [], py_website = [],
     py_image_url = [], py_business_vendor = None\<rparr>"

definition decode_payee :: "payee decoder" where
  "decode_payee = decode_struct
     [(''uuid'', dec_string (\<lambda>x a. a\<lparr>py_uuid := x\<rparr>)),
      (''name'', dec_string (\<lambda>x a. a\<lparr>py_name := x\<rparr>)),
      (''dba_name'', dec_string (\<lambda>x a. a\<lparr>py_dba_name := x\<rparr>)),
      (''website'', dec_string (\<lambda>x a. a\<lparr>py_website := x\<rparr>)),
      (''image_url'', dec_string (\<lambda>x a. a\<lparr>py_image_url := x\<rparr>)),
      (''business_vendor'', dec_pointer decode_payee_business_vendor zero_payee_business_vendor py_business_vendor (\<lambda>x a. a\<lparr>py_business_vendor := x\<rparr>))]"

record days_remaining =
  dr_num_days_until_end :: "int option"
  dr_is_expired :: "bool option"
  dr_is_overdue :: "bool option"
  dr_end_date_used :: "string option"

definition zero_days_remaining :: days_remaining where
  "zero_days_remaining = \<lparr>dr_num_days_until_end = None, dr_is_expired = None, dr_is_overdue = None,
     dr_end_date_used = None\<rparr>"

definition decode_days_remaining :: "days_remaining decoder" where
  "decode_days_remaining = decode_struct
     [(''num_days_until_end'', dec_pointer (dec_int (\<lambda>x _. x)) 0 dr_num_days_until_end (\<lambda>x a. a\<lparr>dr_num_days_until_end := x\<rparr>)),
      (''is_expired'', dec_pointer (dec_bool (\<lambda>x _. x)) False dr_is_expired (\<lambda>x a. a\<lparr>dr_is_expired := x\<rparr>)),
      (''is_overdue'', dec_pointer (dec_bool (\<lambda>x _. x)) False dr_is_overdue (\<lambda>x a. a\<lparr>dr_is_overdue := x\<rparr>)),
      (''end_date_used'', dec_pointer (dec_string (\<lambda>x _. x)) [] dr_end_date_used (\<lambda>x a. a\<lparr>dr_end_date_used := x\<rparr>))]"

record agreement_item =
  ai_id :: string
  ai_name :: string
  ai_description :: string
  ai_start_date :: string
  ai_end_date :: string
  ai_last_date_to_terminate :: string
  ai_auto_renewal :: bool
  ai_renewal_status :: string
  ai_is_up_for_renewal :: bool
  ai_is_snoozed :: bool
  ai_notifications_on :: bool
  ai_currency :: string
  ai_total_value :: "money option"
  ai_payee_id :: string
  ai_payee_name :: string
  ai_logo :: string
  ai_contract_owners :: "contract_owner list"
  ai_days_remaining :: "days_remaining option"
  ai_created_at :: string
  ai_updated_at :: string
  ai_deleted_at :: string

definition zero_agreement_item :: agreement_item where
  "zero_agreement_item = \<lparr>ai_id = [], ai_name = [], ai_description = [], ai_start_date = [],
     ai_end_date = [], ai_last_date_to_terminate = [], ai_auto_renewal = False,
     ai_renewal_status = [], ai_is_up_for_renewal = False, ai_is_snoozed = False,
     ai_notifications_on = False, ai_currency = [], ai_total_value = None,
     ai_payee_id = [], ai_payee_name = [], ai_logo = [], ai_contract_owners = [],
     ai_days_remaining = None, ai_created_at = [], ai_updated_at = [],
     ai_deleted_at = []\<rparr>"

definition decode_agreement_item :: "agreement_item decoder" where
  "decode_agreement_item = decode_struct
     [(''id'', dec_string (\<lambda>x a. a\<lparr>ai_id := x\<rparr>)),
      (''name'', dec_string (\<lambda>x a. a\<lparr>ai_name := x\<rparr>)),
      (''description'', dec_string (\<lambda>x a. a\<lparr>ai_description := x\<rparr>)),
      (''start_date'', dec_string (\<lambda>x a. a\<lparr>ai_start_date := x\<rparr>)),
      (''end_date'', dec_string (\<lambda>x a. a\<lparr>ai_end_date := x\<rparr>)),
      (''last_date_to_terminate'', dec_string (\<lambda>x a. a\<lparr>ai_last_date_to_terminate := x\<rparr>)),
      (''auto_renewal'', dec_bool (\<lambda>x a. a\<lparr>ai_auto_renewal := x\<rparr>)),
      (''renewal_status'', dec_string (\<lambda>x a. a\<lparr>ai_renewal_status := x\<rparr>)),
      (''is_up_for_renewal'', dec_bool (\<lambda>x a. a\<lparr>ai_is_up_for_renewal := x\<rparr>)),
      (''is_snoozed'', dec_bool (\<lambda>x a. a\<lparr>ai_is_snoozed := x\<rparr>)),
      (''notifications_on'', dec_bool (\<lambda>x a. a\<lparr>ai_notifications_on := x\<rparr>)),
      (''currency'', dec_string (\<lambda>x a. a\<lparr>ai_currency := x\<rparr>)),
      (''total_value'', dec_pointer decode_money zero_money ai_total_value (\<lambda>x a. a\<lparr>ai_total_value := x\<rparr>)),
      (''payee_id'', dec_string (\<lambda>x a. a\<lparr>ai_payee_id := x\<rparr>)),
      (''payee_name'', dec_string (\<lambda>x a. a\<lparr>ai_payee_name := x\<rparr>)),
      (''logo'', dec_string (\<lambda>x a. a\<lparr>ai_logo := x\<rparr>)),
      (''contract_owners'', dec_list decode_contract_owner zero_contract_owner ai_contract_owners (\<lambda>x a. a\<lparr>ai_contract_owners := x\<rparr>)),
      (''days_remaining'', dec_pointer decode_days_remaining zero_days_remaining ai_days_remaining (\<lambda>x a. a\<lparr>ai_days_remaining := x\<rparr>)),
      (''created_at'', dec_string (\<lambda>x a. a\<lparr>ai_created_at := x\<rparr>)),
      (''updated_at'', dec_string (\<lambda>x a. a\<lparr>ai_updated_at := x\<rparr>)),
      (''deleted_at'', dec_string (\<lambda>x a. a\<lparr>ai_deleted_at := x\<rparr>))]"

text \<open>Line items are maps to any value: an element is an object or \<open>null\<close>, and every number in it
  must fit a \<open>float64\<close>.\<close>

fun numbers_ok :: "json \<Rightarrow> bool" where
  "numbers_ok (JNum s) = (parse_float s \<noteq> None)"
| "numbers_ok (JArr xs) = list_all numbers_ok xs"
| "numbers_ok (JObj ms) = list_all (\<lambda>(k, v). numbers_ok v) ms"
| "numbers_ok _ = True"

definition line_item_ok :: "json \<Rightarrow> bool" where
  "line_item_ok j = (case j of JNull \<Rightarrow> True | JObj ms \<Rightarrow> numbers_ok j | _ \<Rightarrow> False)"

definition dec_line_items :: "(json list \<Rightarrow> 'a \<Rightarrow> 'a) \<Rightarrow> 'a decoder" where
  "dec_line_items upd j a =
     (case j of JNull \<Rightarrow> Some (upd [] a)
      | JArr js \<Rightarrow> if list_all line_item_ok js then Some (upd js a) else None
      | _ \<Rightarrow> None)"

record vendor_agreement =
  va_id :: string
  va_name :: string
  va_description :: string
  va_start_date :: string
  va_end_date :: string
  va_last_date_to_terminate :: string
  va_auto_renewal :: bool
  va_renewal_status :: string
  va_is_active :: bool
  va_is_up_for_renewal :: bool
  va_notifications_on :: bool
  va_currency :: string
  va_total_value :: "money option"
  va_contract_owners :: "contract_owner list"
  va_payee :: "payee option"
  va_days_remaining :: "days_remaining option"
  va_line_items :: "json list"
  va_created_at :: string
  va_updated_at :: string
  va_archived_at :: string
  va_deleted_at :: string

definition zero_vendor_agreement :: vendor_agreement where
  "zero_vendor_agreement = \<lparr>va_id = [], va_name = [], va_description = [], va_start_date = [],
     va_end_date = [], va_last_date_to_terminate = [], va_auto_renewal = False,
     va_renewal_status = [], va_is_active = False, va_is_up_for_renewal = False,
     va_notifications_on = False, va_currency = [], va_total_value = None,
     va_contract_owners = [], va_payee = None, va_days_remaining = None,
     va_line_items = [], va_created_at = [], va_updated_at = [],
     va_archived_at = [], va_deleted_at = []\<rparr>"

definition decode_vendor_agreement :: "vendor_agreement decoder" where
  "decode_vendor_agreement = decode_struct
     [(''id'', dec_string (\<lambda>x a. a\<lparr>va_id := x\<rparr>)),
      (''name'', dec_string (\<lambda>x a. a\<lparr>va_name := x\<rparr>)),
      (''description'', dec_string (\<lambda>x a. a\<lparr>va_description := x\<rparr>)),
      (''start_date'', dec_string (\<lambda>x a. a\<lparr>va_start_date := x\<rparr>)),
      (''end_date'', dec_string (\<lambda>x a. a\<lparr>va_end_date := x\<rparr>)),
      (''last_date_to_terminate'', dec_string (\<lambda>x a. a\<lparr>va_last_date_to_terminate := x\<rparr>)),
      (''auto_renewal'', dec_bool (\<lambda>x a. a\<lparr>va_auto_renewal := x\<rparr>)),
      (''renewal_status'', dec_string (\<lambda>x a. a\<lparr>va_renewal_status := x\<rparr>)),
      (''is_active'', dec_bool (\<lambda>x a. a\<lparr>va_is_active := x\<rparr>)),
      (''is_up_for_renewal'', dec_bool (\<lambda>x a. a\<lparr>va_is_up_for_renewal := x\<rparr>)),
      (''notifications_on'', dec_bool (\<lambda>x a. a\<lparr>va_notifications_on := x\<rparr>)),
      (''currency'', dec_string (\<lambda>x a. a\<lparr>va_currency := x\<rparr>)),
      (''total_value'', dec_pointer decode_money zero_money va_total_value (\<lambda>x a. a\<lparr>va_total_value := x\<rparr>)),
      (''contract_owners'', dec_list decode_contract_owner zero_contract_owner va_contract_owners (\<lambda>x a. a\<lparr>va_contract_owners := x\<rparr>)),
      (''payee'', dec_pointer decode_payee zero_payee va_payee (\<lambda>x a. a\<lparr>va_payee := x\<rparr>)),
      (''days_remaining'', dec_pointer decode_days_remaining zero_days_remaining va_days_remaining (\<lambda>x a. a\<lparr>va_days_remaining := x\<rparr>)),
      (''line_items'', dec_line_items (\<lambda>x a. a\<lparr>va_line_items := x\<rparr>)),
      (''created_at'', dec_string (\<lambda>x a. a\<lparr>va_created_at := x\<rparr>)),
      (''updated_at'', dec_string (\<lambda>x a. a\<lparr>va_updated_at := x\<rparr>)),
      (''archived_at'', dec_string (\<lambda>x a. a\<lparr>va_archived_at := x\<rparr>)),
      (''deleted_at'', dec_string (\<lambda>x a. a\<lparr>va_deleted_at := x\<rparr>))]"

record agreements_list =
  al_page :: page
  al_data :: "agreement_item option list"

definition zero_agreements_list :: agreements_list where
  "zero_agreements_list = \<lparr>al_page = zero_page, al_data = []\<rparr>"

definition decode_agreements_fields :: "agreements_list decoder" where
  "decode_agreements_fields = decode_struct
     [(''page'', dec_nested decode_page al_page (\<lambda>x a. a\<lparr>al_page := x\<rparr>)),
      (''data'', dec_list (elem_pointer decode_agreement_item zero_agreement_item) None al_data (\<lambda>x a. a\<lparr>al_data := x\<rparr>))]"

text \<open>\<open>VendorAgreementsList.UnmarshalJSON\<close>: a bare array is the list of a single page; anything else
  is decoded as the struct into a fresh value. The decoder hands it a value, so the empty input
  the method also tolerates does not occur.\<close>

definition decode_agreements_list :: "agreements_list decoder" where
  "decode_agreements_list j l =
     (case j of
        JArr js \<Rightarrow> map_option (\<lambda>ds. l\<lparr>al_page := zero_page, al_data := ds\<rparr>)
                     (decode_elems (elem_pointer decode_agreement_item zero_agreement_item) None js [])
      | _ \<Rightarrow> decode_agreements_fields j zero_agreements_list)"

record agreements_request =
  ar_include_archived :: bool
  ar_is_active :: "bool option"
  ar_page_size :: int
  ar_start :: string

definition empty_agreements_request :: agreements_request where
  "empty_agreements_request =
     \<lparr>ar_include_archived = False, ar_is_active = None, ar_page_size = 0, ar_start = []\<rparr>"

text \<open>The request body: every field is \<open>omitempty\<close>.\<close>

definition json_of_agreements_request :: "agreements_request \<Rightarrow> json" where
  "json_of_agreements_request r = JObj
     ((if ar_include_archived r then [(''include_archived'', JBool True)] else [])
      @ (case ar_is_active r of None \<Rightarrow> [] | Some b \<Rightarrow> [(''is_active'', JBool b)])
      @ (if ar_page_size r = 0 then [] else [(''page_size'', JNum (itoa (ar_page_size r)))])
      @ (if ar_start r = [] then [] else [(''start'', JStr (ar_start r))]))"

section \<open>Audit log\<close>

record audit_reference =
  af_id :: string
  af_label :: string
  af_resource_name :: string
  af_url :: string

definition zero_audit_reference :: audit_reference where
  "zero_audit_reference = \<lparr>af_id = [], af_label = [], af_resource_name = [], af_url = []\<rparr>"

definition decode_audit_reference :: "audit_reference decoder" where
  "decode_audit_reference = decode_struct
     [(''id'', dec_string (\<lambda>x a. a\<lparr>af_id := x\<rparr>)),
      (''label'', dec_string (\<lambda>x a. a\<lparr>af_label := x\<rparr>)),
      (''resource_name'', dec_string (\<lambda>x a. a\<lparr>af_resource_name := x\<rparr>)),
      (''url'', dec_string (\<lambda>x a. a\<lparr>af_url := x\<rparr>))]"

record audit_details =
  ad_references :: "audit_reference list"

definition zero_audit_details :: audit_details where
  "zero_audit_details = \<lparr>ad_references = []\<rparr>"

definition decode_audit_details :: "audit_details decoder" where
  "decode_audit_details = decode_struct
     [(''references'', dec_list decode_audit_reference zero_audit_reference ad_references (\<lambda>x a. a\<lparr>ad_references := x\<rparr>))]"

record audit_event =
  ae_id :: string
  ae_event_type :: string
  ae_event_time :: string
  ae_actor_type :: string
  ae_actor_id :: string
  ae_additional_details :: string
  ae_primary_reference :: "audit_reference option"
  ae_event_details :: "audit_details option"

definition zero_audit_event :: audit_event where
  "zero_audit_event = \<lparr>ae_id = [], ae_event_type = [], ae_event_time = [], ae_actor_type = [],
     ae_actor_id = [], ae_additional_details = [], ae_primary_reference = None,
     ae_event_details = None\<rparr>"

definition decode_audit_event :: "audit_event decoder" where
  "decode_audit_event = decode_struct
     [(''id'', dec_string (\<lambda>x a. a\<lparr>ae_id := x\<rparr>)),
      (''event_type'', dec_string (\<lambda>x a. a\<lparr>ae_event_type := x\<rparr>)),
      (''event_time'', dec_string (\<lambda>x a. a\<lparr>ae_event_time := x\<rparr>)),
      (''actor_type'', dec_string (\<lambda>x a. a\<lparr>ae_actor_type := x\<rparr>)),
      (''actor_id'', dec_string (\<lambda>x a. a\<lparr>ae_actor_id := x\<rparr>)),
      (''additional_details'', dec_string (\<lambda>x a. a\<lparr>ae_additional_details := x\<rparr>)),
      (''primary_reference'', dec_pointer decode_audit_reference zero_audit_reference ae_primary_reference (\<lambda>x a. a\<lparr>ae_primary_reference := x\<rparr>)),
      (''event_details'', dec_pointer decode_audit_details zero_audit_details ae_event_details (\<lambda>x a. a\<lparr>ae_event_details := x\<rparr>))]"

record audit_events_list =
  aq_page :: page
  aq_data_raw :: "json list"

definition zero_audit_events_list :: audit_events_list where
  "zero_audit_events_list = \<lparr>aq_page = zero_page, aq_data_raw = []\<rparr>"

definition decode_audit_events_list :: "audit_events_list decoder" where
  "decode_audit_events_list = decode_struct
     [(''page'', dec_nested decode_page aq_page (\<lambda>x a. a\<lparr>aq_page := x\<rparr>)),
      (''data'', dec_raw_list (\<lambda>x a. a\<lparr>aq_data_raw := x\<rparr>))]"

section \<open>Rounding of amounts\<close>

text \<open>On multiples of half a minor unit the conversion rounds half away from zero.\<close>

lemma minor_units_half:
  assumes "mo_currency_code m \<noteq> []"
    and "fl_mul_pos (mo_amount m)
           (fl_of_int (if mo_minor_unit_conversion_rate m \<le> 0 then 100 else mo_minor_unit_conversion_rate m))
         = fl_make h (- 1)"
    and "\<bar>h\<bar> < 2 ^ 53 - 1"
  shows "minor_units sv (Some m) = (if 0 \<le> h then (h + 1) div 2 else - ((1 - h) div 2))"
proof (cases "0 \<le> h")
  case True
  have "fl_add (fl_make h (- 1)) fl_half = fl_make (h + 1) (- 1)"
    using fl_add_half_multiple [of h 1] assms(3) True by (simp add: fl_half_def)
  moreover have t: "trunc_pair (h + 1) (- 1) = (h + 1) div 2" using True by (simp add: trunc_pair_def)
  moreover have "fl_to_int64 far (fl_make (h + 1) (- 1)) = (h + 1) div 2" for far
    using fl_to_int64_make [of "h + 1" "- 1" far] assms(3) True unfolding t by simp
  ultimately show ?thesis
    using assms(1,2) True by (simp add: minor_units_def Let_def fl_nonneg_make)
next
  case False
  have "fl_add (fl_make h (- 1)) fl_minus_half = fl_make (h - 1) (- 1)"
    using fl_add_half_multiple [of h "- 1"] assms(3) False by (simp add: fl_minus_half_def)
  moreover have t: "trunc_pair (h - 1) (- 1) = - ((1 - h) div 2)"
    using False by (simp add: trunc_pair_def)
  moreover have "fl_to_int64 far (fl_make (h - 1) (- 1)) = - ((1 - h) div 2)" for far
    using fl_to_int64_make [of "h - 1" "- 1" far] assms(3) False unfolding t by simp
  ultimately show ?thesis
    using assms(1,2) False by (simp add: minor_units_def Let_def fl_nonneg_make)
qed

lemma minor_units_no_currency [simp]:
  "minor_units sv None = 0" "mo_currency_code m = [] \<Longrightarrow> minor_units sv (Some m) = 0"
  by (simp_all add: minor_units_def)

end
