(* ===== verification/Ramp_Api.thy ===== *)
theory Ramp_Api
  imports Ramp_Client Ramp_Models
begin

text \<open>
  The client's operations, \<open>src/pkg/client/users.go\<close>, \<open>vendors.go\<close>, \<open>agreements.go\<close> and
  \<open>audit_log.go\<close>: one definition per method, each building its URL, choosing its scope class and
  decoding its answer. A nil pointer the code would dereference is the value \<open>Panicked\<close>.
\<close>

section \<open>List parameters\<close>

definition default_page_size :: int where
  "default_page_size = 100"

text \<open>The value of \<open>page_size\<close> is only set where the URL has none.\<close>

definition with_page_size :: "int \<Rightarrow> url_values \<Rightarrow> url_values" where
  "with_page_size n q =
     (if values_get q ''page_size'' = [] then values_set q ''page_size'' (itoa n) else q)"

definition add_users_list_params :: "string \<Rightarrow> string \<Rightarrow> gerror + string" where
  "add_users_list_params req_url role =
     (case url_parse req_url of
        None \<Rightarrow> Inl (Wrap [S ''ramp-client: failed to parse users URL: ''] (url_error req_url) [])
      | Some u \<Rightarrow>
        let q1 = with_page_size default_page_size (url_query u);
            q2 = (if role = [] then q1 else values_set q1 ''role'' role)
        in Inr (url_string (u\<lparr>u_raw_query := values_encode q2\<rparr>)))"

definition add_vendors_list_params :: "string \<Rightarrow> gerror + string" where
  "add_vendors_list_params req_url =
     (case url_parse req_url of
        None \<Rightarrow> Inl (Wrap [S ''baton-ramp: failed to parse vendors URL: ''] (url_error req_url) [])
      | Some u \<Rightarrow>
        Inr (url_string (u\<lparr>u_raw_query := values_encode (with_page_size default_page_size (url_query u))\<rparr>)))"

definition add_audit_log_events_list_params :: "string \<Rightarrow> int \<Rightarrow> gerror + string" where
  "add_audit_log_events_list_params req_url page_size =
     (case url_parse req_url of
        None \<Rightarrow> Inl (Wrap [S ''baton-ramp: failed to parse audit log events URL: ''] (url_error req_url) [])
      | Some u \<Rightarrow>
        let n = (if page_size \<le> 0 then default_page_size else page_size)
        in Inr (url_string (u\<lparr>u_raw_query := values_encode (with_page_size n (url_query u))\<rparr>)))"

text \<open>The first page is asked at a path of the API, a later one at the URL the server gave.\<close>

definition page_url :: "'w client \<Rightarrow> string \<Rightarrow> string \<Rightarrow> gerror + string" where
  "page_url cl path pagination =
     (if pagination = [] then new_unpaginated_url cl path else Inr pagination)"

section \<open>Users\<close>

definition users_endpoint :: string where "users_endpoint = ''users''"
definition users_deferred_endpoint :: string where "users_deferred_endpoint = ''users/deferred''"

record users_response =
  ur_users :: "user option list"
  ur_pagination :: string

definition list_users_role ::
    "'w svc \<Rightarrow> 'w client \<Rightarrow> string \<Rightarrow> string \<Rightarrow> 'w conn \<Rightarrow> users_response reply \<times> 'w conn" where
  "list_users_role sv cl pagination role c =
     (case page_url cl users_endpoint pagination of
        Inl e \<Rightarrow> ((Inl e, None), c)
      | Inr u0 \<Rightarrow>
        (case add_users_list_params u0 role of
           Inl e \<Rightarrow> ((Inl e, None), c)
         | Inr u \<Rightarrow>
           (case query sv cl None method_get u (Some decode_users_list) zero_users_list c of
              (r, c') \<Rightarrow>
                (wrap_reply [S ''ramp-client: error listing users '']
                   (\<lambda>l. \<lparr>ur_users = ul_users l, ur_pagination = pg_next (ul_page l)\<rparr>) r, c'))))"

definition list_users ::
    "'w svc \<Rightarrow> 'w client \<Rightarrow> string \<Rightarrow> 'w conn \<Rightarrow> users_response reply \<times> 'w conn" where
  "list_users sv cl pagination = list_users_role sv cl pagination []"

definition list_users_by_role ::
    "'w svc \<Rightarrow> 'w client \<Rightarrow> string \<Rightarrow> string \<Rightarrow> 'w conn \<Rightarrow> users_response reply \<times> 'w conn" where
  "list_users_by_role sv cl role pagination = list_users_role sv cl pagination role"

record create_user_request =
  cu_email :: string
  cu_first_name :: string
  cu_last_name :: string
  cu_role :: string
  cu_idempotency_key :: string

definition json_of_create_user :: "create_user_request \<Rightarrow> json" where
  "json_of_create_user r = JObj
     [(''email'', JStr (cu_email r)), (''first_name'', JStr (cu_first_name r)),
      (''last_name'', JStr (cu_last_name r)), (''role'', JStr (cu_role r)),
      (''idempotency_key'', JStr (cu_idempotency_key r))]"

definition create_user ::
    "'w svc \<Rightarrow> 'w client \<Rightarrow> create_user_request \<Rightarrow> 'w conn \<Rightarrow> deferred_task reply \<times> 'w conn" where
  "create_user sv cl req0 c0 =
     (let ctx = with_scope_class None ScopeUsersWrite;
          (req, c) = (if cu_idempotency_key req0 = [] then
              (case sv_uuid sv (cn_world c0) of (k, w) \<Rightarrow> (req0\<lparr>cu_idempotency_key := k\<rparr>, c0\<lparr>cn_world := w\<rparr>))
            else (req0, c0))
      in case new_unpaginated_url cl users_deferred_endpoint of
           Inl e \<Rightarrow> ((Inl e, None), c)
         | Inr u \<Rightarrow>
           (case query_with_body sv cl ctx method_post u (json_of_create_user req)
                   (Some decode_deferred_task) zero_deferred_task c of
              (r, c') \<Rightarrow> (wrap_reply [S ''ramp-client: error creating user: ''] id r, c')))"

definition nil_dereference :: gerror where
  "nil_dereference = Panicked [S ''invalid memory address or nil pointer dereference'']"

fun first_with_email :: "unicode_tables \<Rightarrow> string \<Rightarrow> user option list \<Rightarrow> gerror + user option" where
  "first_with_email U e [] = Inr None"
| "first_with_email U e (None # us) = Inl nil_dereference"
| "first_with_email U e (Some u # us) =
     (if equal_fold U (us_email u) e then Inr (Some u) else first_with_email U e us)"

definition find_user_by_email ::
    "'w svc \<Rightarrow> 'w client \<Rightarrow> string \<Rightarrow> 'w conn \<Rightarrow> user option reply \<times> 'w conn" where
  "find_user_by_email sv cl email c =
     (case new_unpaginated_url cl users_endpoint of
        Inl e \<Rightarrow> ((Inl e, None), c)
      | Inr req_url \<Rightarrow>
        (case url_parse req_url of
           None \<Rightarrow> ((Inl (Wrap [S ''ramp-client: failed to parse users URL: ''] (url_error req_url) []), None), c)
         | Some pu \<Rightarrow>
           let u = url_string (pu\<lparr>u_raw_query := values_encode (values_set (url_query pu) ''email'' email)\<rparr>)
           in case query_uncached sv cl None method_get u (Some decode_users_list) zero_users_list c of
                ((Inl e, rl), c') \<Rightarrow> ((Inl (Wrap [S ''ramp-client: error finding user by email: ''] e []), rl), c')
              | ((Inr l, rl), c') \<Rightarrow> ((first_with_email (sv_unicode sv) email (ul_users l), rl), c')))"

definition user_state_change ::
    "string \<Rightarrow> string \<Rightarrow> 'w svc \<Rightarrow> 'w client \<Rightarrow> string \<Rightarrow> 'w conn \<Rightarrow> unit reply \<times> 'w conn" where
  "user_state_change verb doing sv cl user_id c =
     (case new_unpaginated_url cl (users_endpoint @ ''/'' @ user_id @ ''/'' @ verb) of
        Inl e \<Rightarrow> ((Inl e, None), c)
      | Inr u \<Rightarrow>
        (case query sv cl (with_scope_class None ScopeUsersWrite) method_patch u None () c of
           (r, c') \<Rightarrow> (wrap_reply [S ''ramp-client: error '', S doing, S '' user '', S user_id, S '': ''] id r, c')))"

definition deactivate_user :: "'w svc \<Rightarrow> 'w client \<Rightarrow> string \<Rightarrow> 'w conn \<Rightarrow> unit reply \<times> 'w conn" where
  "deactivate_user = user_state_change ''deactivate'' ''deactivating''"

definition reactivate_user :: "'w svc \<Rightarrow> 'w client \<Rightarrow> string \<Rightarrow> 'w conn \<Rightarrow> unit reply \<times> 'w conn" where
  "reactivate_user = user_state_change ''reactivate'' ''reactivating''"

section \<open>Vendors\<close>

definition vendors_path :: string where "vendors_path = ''vendors''"

record vendors_response =
  vr_vendors :: "vendor option list"
  vr_pagination :: string

definition list_vendors ::
    "'w svc \<Rightarrow> 'w client \<Rightarrow> string \<Rightarrow> 'w conn \<Rightarrow> vendors_response reply \<times> 'w conn" where
  "list_vendors sv cl pagination c =
     (case page_url cl vendors_path pagination of
        Inl e \<Rightarrow> ((Inl e, None), c)
      | Inr u0 \<Rightarrow>
        (case add_vendors_list_params u0 of
           Inl e \<Rightarrow> ((Inl e, None), c)
         | Inr u \<Rightarrow>
           (case query sv cl None method_get u (Some decode_vendors_list) zero_vendors_list c of
              (r, c') \<Rightarrow>
                (wrap_reply [S ''baton-ramp: error listing vendors: '']
                   (\<lambda>l. \<lparr>vr_vendors = vl_vendors l, vr_pagination = pg_next (vl_page l)\<rparr>) r, c'))))"

definition get_vendor :: "'w svc \<Rightarrow> 'w client \<Rightarrow> string \<Rightarrow> 'w conn \<Rightarrow> vendor reply \<times> 'w conn" where
  "get_vendor sv cl vendor_id c =
     (case new_unpaginated_url cl (vendors_path @ ''/'' @ vendor_id) of
        Inl e \<Rightarrow> ((Inl e, None), c)
      | Inr u \<Rightarrow>
        (case query sv cl None method_get u (Some decode_vendor) zero_vendor c of
           (r, c') \<Rightarrow> (wrap_reply [S ''baton-ramp: error getting vendor '', S vendor_id, S '': ''] id r, c')))"

text \<open>The body clears the owner with \<open>null\<close>.\<close>

definition json_of_owner_patch :: "string \<Rightarrow> json" where
  "json_of_owner_patch owner_id =
     JObj [(''vendor_owner_id'', if owner_id = [] then JNull else JStr owner_id)]"

definition update_vendor_owner ::
    "'w svc \<Rightarrow> 'w client \<Rightarrow> string \<Rightarrow> string \<Rightarrow> 'w conn \<Rightarrow> unit reply \<times> 'w conn" where
  "update_vendor_owner sv cl vendor_id owner_id c =
     (case new_unpaginated_url cl (vendors_path @ ''/'' @ vendor_id) of
        Inl e \<Rightarrow> ((Inl e, None), c)
      | Inr u \<Rightarrow>
        (case query_with_body sv cl (with_scope_class None ScopeVendorsWrite) method_patch u
                (json_of_owner_patch owner_id) (Some decode_vendor) zero_vendor c of
           (r, c') \<Rightarrow>
             (wrap_reply [S ''baton-ramp: error updating vendor owner for '', S vendor_id, S '': ''] (\<lambda>_. ()) r, c')))"

section \<open>Vendor agreements\<close>

definition vendor_agreements_path :: string where "vendor_agreements_path = ''vendors/agreements''"

record agreements_response =
  gs_agreements :: "agreement_item option list"
  gs_pagination :: string

definition list_vendor_agreements ::
    "'w svc \<Rightarrow> 'w client \<Rightarrow> agreements_request option \<Rightarrow> string \<Rightarrow> 'w conn
       \<Rightarrow> agreements_response reply \<times> 'w conn" where
  "list_vendor_agreements sv cl req0 pagination c =
     (case page_url cl vendor_agreements_path pagination of
        Inl e \<Rightarrow> ((Inl e, None), c)
      | Inr u \<Rightarrow>
        let req1 = (case req0 of None \<Rightarrow> empty_agreements_request | Some r \<Rightarrow> r);
            req = (if ar_page_size req1 \<le> 0 then req1\<lparr>ar_page_size := default_page_size\<rparr> else req1)
        in case query_with_body sv cl None method_post u (json_of_agreements_request req)
                  (Some decode_agreements_list) zero_agreements_list c of
             (r, c') \<Rightarrow>
               (wrap_reply [S ''baton-ramp: error listing vendor agreements: '']
                  (\<lambda>l. \<lparr>gs_agreements = al_data l, gs_pagination = pg_next (al_page l)\<rparr>) r, c'))"

definition get_vendor_agreement ::
    "'w svc \<Rightarrow> 'w client \<Rightarrow> string \<Rightarrow> 'w conn \<Rightarrow> vendor_agreement reply \<times> 'w conn" where
  "get_vendor_agreement sv cl agreement_id c =
     (case new_unpaginated_url cl (vendor_agreements_path @ ''/'' @ agreement_id) of
        Inl e \<Rightarrow> ((Inl e, None), c)
      | Inr u \<Rightarrow>
        (case query sv cl None method_get u (Some decode_vendor_agreement) zero_vendor_agreement c of
           (r, c') \<Rightarrow>
             (wrap_reply [S ''baton-ramp: error getting vendor agreement '', S agreement_id, S '': ''] id r, c')))"

section \<open>Audit log events\<close>

definition audit_log_events_path :: string where "audit_log_events_path = ''audit-logs/events''"

text \<open>One entry of \<open>data\<close>: a batch, an event, or an error.\<close>

definition flatten_entry :: "json \<Rightarrow> gerror + audit_event option list" where
  "flatten_entry j =
     (case j of
        JArr js \<Rightarrow>
          (case decode_elems (elem_pointer decode_audit_event zero_audit_event) None js [] of
             Some evs \<Rightarrow> Inr evs
           | None \<Rightarrow> Inl (Wrap [S ''baton-ramp: failed to decode audit log entry batch: ''] (Plain [S ''json'']) []))
      | JObj ms \<Rightarrow>
          (case decode_audit_event j zero_audit_event of
             Some ev \<Rightarrow> Inr [Some ev]
           | None \<Rightarrow> Inl (Wrap [S ''baton-ramp: failed to decode audit log entry: ''] (Plain [S ''json'']) []))
      | _ \<Rightarrow> Inl (Plain [S ''baton-ramp: failed to decode audit log entry: expected object or array'']))"

definition flatten_audit_events :: "json list \<Rightarrow> gerror + audit_event option list" where
  "flatten_audit_events raw =
     (case map_res flatten_entry raw of Inl e \<Rightarrow> Inl e | Inr evss \<Rightarrow> Inr (concat evss))"

definition list_audit_log_events ::
    "'w svc \<Rightarrow> 'w client \<Rightarrow> int \<Rightarrow> string \<Rightarrow> 'w conn
       \<Rightarrow> (audit_event option list \<times> string) reply \<times> 'w conn" where
  "list_audit_log_events sv cl page_size pagination c =
     (case page_url cl audit_log_events_path pagination of
        Inl e \<Rightarrow> ((Inl e, None), c)
      | Inr u0 \<Rightarrow>
        (case add_audit_log_events_list_params u0 page_size of
           Inl e \<Rightarrow> ((Inl e, None), c)
         | Inr u \<Rightarrow>
           (case query sv cl None method_get u (Some decode_audit_events_list) zero_audit_events_list c of
              ((Inl e, rl), c') \<Rightarrow> ((Inl (Wrap [S ''baton-ramp: error listing audit log events: ''] e []), rl), c')
            | ((Inr l, rl), c') \<Rightarrow>
              (case flatten_audit_events (aq_data_raw l) of
                 Inl e \<Rightarrow> ((Inl e, rl), c')
               | Inr evs \<Rightarrow> ((Inr (evs, pg_next (aq_page l)), rl), c')))))"

end
