(* ===== verification/Sdk.thy ===== *)
theory Sdk
  imports Go_Errors
begin

text \<open>
  The SDK data the connector builds: resource types, resources with their traits carried as
  annotations, entitlements and grants, and the SDK functions the connector calls to build them
  (packages \<open>annotations\<close>, \<open>types/resource\<close>, \<open>types/entitlement\<close> and \<open>types/grant\<close>), including the
  checks that make a trait option fail.
\<close>

section \<open>Messages\<close>

datatype trait_kind = TraitUser | TraitRole | TraitVendor | TraitVendorAgreement

datatype resource_status = ResourceEnabled | ResourceDisabled

record trait_money =
  tm_amount_minor :: int
  tm_currency_code :: string

record user_trait =
  ut_emails :: "(string \<times> bool) list"
  ut_login :: string
  ut_status :: "resource_status option"
  ut_human :: bool

record vendor_trait =
  vt_vendor_id :: string
  vt_vendor_name :: string
  vt_dba_name :: string
  vt_deep_link_url :: string
  vt_external_vendor_id :: string
  vt_source_business_id :: string
  vt_source_entity_id :: string
  vt_trailing_30d :: "trait_money option"
  vt_trailing_365d :: "trait_money option"
  vt_ytd :: "trait_money option"

datatype renewal_status =
    RenewalUnspecified | RenewalNotStarted | RenewalInitiated | RenewalRenewed
  | RenewalCancelled | RenewalRejected | RenewalExpired

record agreement_trait =
  at_name :: string
  at_start_date :: "timestamp option"
  at_end_date :: "timestamp option"
  at_last_date :: "timestamp option"
  at_auto_renewal :: bool
  at_renewal_status :: renewal_status
  at_renewal_status_raw :: string
  at_total_value :: "trait_money option"

definition zero_user_trait :: user_trait where
  "zero_user_trait = \<lparr>ut_emails = [], ut_login = [], ut_status = None, ut_human = False\<rparr>"

definition zero_vendor_trait :: vendor_trait where
  "zero_vendor_trait =
     \<lparr>vt_vendor_id = [], vt_vendor_name = [], vt_dba_name = [], vt_deep_link_url = [],
      vt_external_vendor_id = [], vt_source_business_id = [], vt_source_entity_id = [],
      vt_trailing_30d = None, vt_trailing_365d = None, vt_ytd = None\<rparr>"

definition zero_agreement_trait :: agreement_trait where
  "zero_agreement_trait =
     \<lparr>at_name = [], at_start_date = None, at_end_date = None, at_last_date = None,
      at_auto_renewal = False, at_renewal_status = RenewalUnspecified, at_renewal_status_raw = [],
      at_total_value = None\<rparr>"

section \<open>Annotations\<close>

datatype annotation =
    ARateLimit rate_limit
  | AGrantAlreadyExists
  | AGrantAlreadyRevoked
  | AUserTrait user_trait
  | ARoleTrait
  | AVendorTrait vendor_trait
  | AAgreementTrait agreement_trait
  | ACapabilityPermissions "string list"
  | AOptInRequired

fun anno_kind :: "annotation \<Rightarrow> nat" where
  "anno_kind (ARateLimit _) = 0"
| "anno_kind AGrantAlreadyExists = 1"
| "anno_kind AGrantAlreadyRevoked = 2"
| "anno_kind (AUserTrait _) = 3"
| "anno_kind ARoleTrait = 4"
| "anno_kind (AVendorTrait _) = 5"
| "anno_kind (AAgreementTrait _) = 6"
| "anno_kind (ACapabilityPermissions _) = 7"
| "anno_kind AOptInRequired = 8"

definition anno_append :: "annotation list \<Rightarrow> annotation \<Rightarrow> annotation list" where
  "anno_append as m = as @ [m]"

text \<open>\<open>Update\<close> replaces every annotation of the same message type, or appends one.\<close>

definition anno_update :: "annotation list \<Rightarrow> annotation \<Rightarrow> annotation list" where
  "anno_update as m =
     (if list_ex (\<lambda>a. anno_kind a = anno_kind m) as
      then map (\<lambda>a. if anno_kind a = anno_kind m then m else a) as
      else as @ [m])"

definition new_annotations :: "annotation list \<Rightarrow> annotation list" where
  "new_annotations ms = foldl anno_update [] ms"

text \<open>\<open>WithRateLimiting\<close>: a nil description is a typed nil, which is stored as the empty one.\<close>

definition with_rate_limiting :: "annotation list \<Rightarrow> rate_limit option \<Rightarrow> annotation list" where
  "with_rate_limiting as rl =
     anno_update as (ARateLimit (case rl of None \<Rightarrow> empty_rate_limit | Some r \<Rightarrow> r))"

definition anno_pick :: "nat \<Rightarrow> annotation list \<Rightarrow> annotation option" where
  "anno_pick k as = find (\<lambda>a. anno_kind a = k) as"

lemma anno_pick_update [simp]:
  "anno_pick (anno_kind m) (anno_update as m) = Some m"
proof (cases "list_ex (\<lambda>a. anno_kind a = anno_kind m) as")
  case True
  then have "find (\<lambda>a. anno_kind a = anno_kind m)
      (map (\<lambda>a. if anno_kind a = anno_kind m then m else a) as) = Some m"
    by (induction as) auto
  with True show ?thesis by (simp add: anno_pick_def anno_update_def)
next
  case False
  then have "find (\<lambda>a. anno_kind a = anno_kind m) as = None"
    by (simp add: find_None_iff list_ex_iff)
  then have "find (\<lambda>a. anno_kind a = anno_kind m) (as @ [m]) = Some m"
    by (induction as) (auto split: if_splits)
  with False show ?thesis by (simp add: anno_pick_def anno_update_def)
qed

lemma anno_pick_update_other:
  assumes "k \<noteq> anno_kind m"
  shows "anno_pick k (anno_update as m) = anno_pick k as"
proof -
  have "find (\<lambda>a. anno_kind a = k) (map (\<lambda>a. if anno_kind a = anno_kind m then m else a) as) =
      find (\<lambda>a. anno_kind a = k) as"
    using assms by (induction as) auto
  moreover have "find (\<lambda>a. anno_kind a = k) (as @ [m]) = find (\<lambda>a. anno_kind a = k) as"
    using assms by (induction as) auto
  ultimately show ?thesis by (simp add: anno_pick_def anno_update_def)
qed

lemma with_rate_limiting_Nil [simp]:
  "with_rate_limiting [] rl = [ARateLimit (case rl of None \<Rightarrow> empty_rate_limit | Some r \<Rightarrow> r)]"
  by (simp add: with_rate_limiting_def anno_update_def)

lemma with_rate_limiting_twice [simp]:
  "with_rate_limiting [ARateLimit q] rl = [ARateLimit (case rl of None \<Rightarrow> empty_rate_limit | Some r \<Rightarrow> r)]"
  by (simp add: with_rate_limiting_def anno_update_def)

section \<open>Resources\<close>

record resource_type =
  rt_id :: string
  rt_display_name :: string
  rt_traits :: "trait_kind list"
  rt_annotations :: "annotation list"

record resource_id =
  ri_type :: string
  ri_resource :: string

record resource =
  res_id :: resource_id
  res_display_name :: string
  res_external_id :: "string option"
  res_status :: "(resource_status \<times> string) option"
  res_annotations :: "annotation list"

type_synonym resource_option = "resource \<Rightarrow> gerror + resource"

fun apply_options :: "('a \<Rightarrow> gerror + 'a) list \<Rightarrow> 'a \<Rightarrow> gerror + 'a" where
  "apply_options [] a = Inr a"
| "apply_options (f # fs) a = (case f a of Inl e \<Rightarrow> Inl e | Inr b \<Rightarrow> apply_options fs b)"

definition new_resource_id :: "resource_type \<Rightarrow> string \<Rightarrow> resource_id" where
  "new_resource_id rt i = \<lparr>ri_type = rt_id rt, ri_resource = i\<rparr>"

text \<open>The object identifiers here are strings, for which \<open>NewResourceID\<close> cannot fail.\<close>

definition new_resource :: "string \<Rightarrow> resource_type \<Rightarrow> string \<Rightarrow> resource_option list \<Rightarrow> gerror + resource" where
  "new_resource name rt i opts =
     apply_options opts
       \<lparr>res_id = new_resource_id rt i, res_display_name = name, res_external_id = None,
        res_status = None, res_annotations = []\<rparr>"

definition with_external_id :: "string \<Rightarrow> resource_option" where
  "with_external_id i r = Inr (r\<lparr>res_external_id := Some i\<rparr>)"

definition with_resource_status :: "resource_status \<Rightarrow> string \<Rightarrow> resource_option" where
  "with_resource_status s d r = Inr (r\<lparr>res_status := Some (s, d)\<rparr>)"

definition with_role_trait :: resource_option where
  "with_role_trait r = Inr (r\<lparr>res_annotations := anno_update (res_annotations r) ARoleTrait\<rparr>)"

subsection \<open>The user trait\<close>

type_synonym user_trait_option = "user_trait \<Rightarrow> gerror + user_trait"

definition with_email :: "string \<Rightarrow> bool \<Rightarrow> user_trait_option" where
  "with_email e primary t = Inr (if e = [] then t else t\<lparr>ut_emails := ut_emails t @ [(e, primary)]\<rparr>)"

definition with_user_login :: "string \<Rightarrow> user_trait_option" where
  "with_user_login l t = Inr (if l = [] then t else t\<lparr>ut_login := l\<rparr>)"

definition new_user_trait :: "user_trait_option list \<Rightarrow> gerror + user_trait" where
  "new_user_trait opts =
     (case apply_options opts zero_user_trait of Inl e \<Rightarrow> Inl e
      | Inr t \<Rightarrow> Inr (t\<lparr>ut_status := (case ut_status t of None \<Rightarrow> Some ResourceEnabled | s \<Rightarrow> s),
                        ut_human := True\<rparr>))"

definition with_user_trait :: "user_trait_option list \<Rightarrow> resource_option" where
  "with_user_trait opts r =
     (case (case anno_pick 3 (res_annotations r) of
              Some (AUserTrait t) \<Rightarrow> apply_options opts t
            | _ \<Rightarrow> new_user_trait opts) of
        Inl e \<Rightarrow> Inl e
      | Inr t \<Rightarrow>
        Inr (r\<lparr>res_annotations := anno_update (res_annotations r) (AUserTrait t),
               res_status := (case (ut_status t, res_status r) of
                   (Some s, None) \<Rightarrow> Some (s, []) | (_, rs) \<Rightarrow> rs)\<rparr>))"

subsection \<open>The vendor trait\<close>

type_synonym vendor_trait_option = "vendor_trait \<Rightarrow> gerror + vendor_trait"

definition with_vendor_identity :: "string \<Rightarrow> string \<Rightarrow> string \<Rightarrow> vendor_trait_option" where
  "with_vendor_identity i n dba t =
     (if i = [] then Inl (Plain [S ''vendor_id cannot be empty''])
      else if n = [] then Inl (Plain [S ''vendor_name cannot be empty''])
      else Inr (t\<lparr>vt_vendor_id := i, vt_vendor_name := n, vt_dba_name := dba\<rparr>))"

definition with_external_vendor_id :: "string \<Rightarrow> vendor_trait_option" where
  "with_external_vendor_id i t = Inr (t\<lparr>vt_external_vendor_id := i\<rparr>)"

definition with_vendor_deep_link_url :: "string \<Rightarrow> vendor_trait_option" where
  "with_vendor_deep_link_url u t = Inr (t\<lparr>vt_deep_link_url := u\<rparr>)"

definition with_vendor_source_scoping :: "string \<Rightarrow> string \<Rightarrow> vendor_trait_option" where
  "with_vendor_source_scoping b e t = Inr (t\<lparr>vt_source_business_id := b, vt_source_entity_id := e\<rparr>)"

definition with_trailing_30_day_spend :: "trait_money \<Rightarrow> vendor_trait_option" where
  "with_trailing_30_day_spend m t = Inr (t\<lparr>vt_trailing_30d := Some m\<rparr>)"

definition with_trailing_365_day_spend :: "trait_money \<Rightarrow> vendor_trait_option" where
  "with_trailing_365_day_spend m t = Inr (t\<lparr>vt_trailing_365d := Some m\<rparr>)"

definition with_ytd_spend :: "trait_money \<Rightarrow> vendor_trait_option" where
  "with_ytd_spend m t = Inr (t\<lparr>vt_ytd := Some m\<rparr>)"

definition with_vendor_trait :: "vendor_trait_option list \<Rightarrow> resource_option" where
  "with_vendor_trait opts r =
     (case apply_options opts
             (case anno_pick 5 (res_annotations r) of Some (AVendorTrait t) \<Rightarrow> t | _ \<Rightarrow> zero_vendor_trait) of
        Inl e \<Rightarrow> Inl e
      | Inr t \<Rightarrow>
        if vt_vendor_id t = [] then Inl (Plain [S ''vendor_id must be set (use WithVendorIdentity)''])
        else if vt_vendor_name t = [] then Inl (Plain [S ''vendor_name must be set (use WithVendorIdentity)''])
        else Inr (r\<lparr>res_annotations := anno_update (res_annotations r) (AVendorTrait t)\<rparr>))"

subsection \<open>The vendor agreement trait\<close>

type_synonym agreement_trait_option = "agreement_trait \<Rightarrow> gerror + agreement_trait"

definition with_agreement_term :: "string \<Rightarrow> gotime \<Rightarrow> gotime \<Rightarrow> bool \<Rightarrow> agreement_trait_option" where
  "with_agreement_term n s e ar t =
     Inr (t\<lparr>at_name := n,
            at_start_date := (if is_zero s then at_start_date t else Some (timestamp_of s)),
            at_end_date := (if is_zero e then at_end_date t else Some (timestamp_of e)),
            at_auto_renewal := ar\<rparr>)"

definition with_last_date_to_terminate :: "gotime \<Rightarrow> agreement_trait_option" where
  "with_last_date_to_terminate d t =
     Inr (if is_zero d then t else t\<lparr>at_last_date := Some (timestamp_of d)\<rparr>)"

definition with_renewal_status :: "renewal_status \<Rightarrow> string \<Rightarrow> agreement_trait_option" where
  "with_renewal_status s raw t = Inr (t\<lparr>at_renewal_status := s, at_renewal_status_raw := raw\<rparr>)"

definition with_total_value :: "trait_money option \<Rightarrow> agreement_trait_option" where
  "with_total_value m t = Inr (t\<lparr>at_total_value := m\<rparr>)"

definition date_order_ok :: "timestamp option \<Rightarrow> timestamp option \<Rightarrow> bool" where
  "date_order_ok a b =
     (case (a, b) of (Some x, Some y) \<Rightarrow> \<not> before (as_time y) (as_time x) | _ \<Rightarrow> True)"

definition validate_date_ordering :: "agreement_trait \<Rightarrow> gerror option" where
  "validate_date_ordering t =
     (if \<not> date_order_ok (at_start_date t) (at_end_date t)
      then Some (Plain [S ''end_date must not precede start_date''])
      else if \<not> date_order_ok (at_last_date t) (at_end_date t)
      then Some (Plain [S ''last_date_to_terminate must not exceed end_date''])
      else None)"

definition with_vendor_agreement_trait :: "agreement_trait_option list \<Rightarrow> resource_option" where
  "with_vendor_agreement_trait opts r =
     (case apply_options opts
             (case anno_pick 6 (res_annotations r) of Some (AAgreementTrait t) \<Rightarrow> t | _ \<Rightarrow> zero_agreement_trait) of
        Inl e \<Rightarrow> Inl e
      | Inr t \<Rightarrow>
        (case validate_date_ordering t of
           Some e \<Rightarrow> Inl e
         | None \<Rightarrow> Inr (r\<lparr>res_annotations := anno_update (res_annotations r) (AAgreementTrait t)\<rparr>)))"

section \<open>Entitlements and grants\<close>

record entitlement =
  en_id :: string
  en_display_name :: string
  en_slug :: string
  en_description :: string
  en_resource :: resource
  en_grantable_to :: "resource_type list"

record grant =
  gr_id :: string
  gr_entitlement_id :: string
  gr_entitlement_resource :: resource
  gr_principal :: resource_id

definition new_entitlement_id :: "resource \<Rightarrow> string \<Rightarrow> string" where
  "new_entitlement_id r p = ri_type (res_id r) @ '':'' @ ri_resource (res_id r) @ '':'' @ p"

text \<open>\<open>NewAssignmentEntitlement\<close> with the options the connector passes: a description, a display
  name and the types it can be granted to.\<close>

definition new_assignment_entitlement ::
    "resource \<Rightarrow> string \<Rightarrow> string \<Rightarrow> string \<Rightarrow> resource_type list \<Rightarrow> entitlement" where
  "new_assignment_entitlement r n desc disp gt =
     \<lparr>en_id = new_entitlement_id r n, en_display_name = disp, en_slug = n, en_description = desc,
      en_resource = r, en_grantable_to = gt\<rparr>"

definition new_grant :: "resource \<Rightarrow> string \<Rightarrow> resource_id \<Rightarrow> grant" where
  "new_grant r n p =
     \<lparr>gr_id = new_entitlement_id r n @ '':'' @ ri_type p @ '':'' @ ri_resource p,
      gr_entitlement_id = new_entitlement_id r n, gr_entitlement_resource = r, gr_principal = p\<rparr>"

lemmas sdk_option_defs =
  with_external_id_def with_resource_status_def with_role_trait_def with_email_def with_user_login_def
  with_vendor_identity_def with_external_vendor_id_def with_vendor_deep_link_url_def
  with_vendor_source_scoping_def with_trailing_30_day_spend_def with_trailing_365_day_spend_def
  with_ytd_spend_def with_agreement_term_def with_last_date_to_terminate_def with_renewal_status_def
  with_total_value_def

lemma apply_options_append:
  "apply_options (fs @ gs) a =
     (case apply_options fs a of Inl e \<Rightarrow> Inl e | Inr b \<Rightarrow> apply_options gs b)"
  by (induction fs arbitrary: a) (auto split: sum.splits)

end
