(* ===== verification/Resource_Types.thy ===== *)
theory Resource_Types
  imports Sdk
begin

text \<open>
  \<open>src/pkg/connector/resource_types.go\<close>: the four resource types the connector advertises, with the
  permissions each needs.
\<close>

definition capability_permissions :: "string list \<Rightarrow> annotation" where
  "capability_permissions perms = ACapabilityPermissions perms"

definition user_resource_type_id :: string where "user_resource_type_id = ''user''"
definition user_resource_type_display_name :: string where "user_resource_type_display_name = ''User''"
definition role_resource_type_id :: string where "role_resource_type_id = ''role''"
definition vendor_resource_type_id :: string where "vendor_resource_type_id = ''vendor''"
definition vendor_agreement_resource_type_id :: string where
  "vendor_agreement_resource_type_id = ''vendor_agreement''"

definition user_resource_type :: resource_type where
  "user_resource_type =
     \<lparr>rt_id = user_resource_type_id, rt_display_name = user_resource_type_display_name,
      rt_traits = [TraitUser],
      rt_annotations = new_annotations [capability_permissions [''users:read'', ''users:write'']]\<rparr>"

definition role_resource_type :: resource_type where
  "role_resource_type =
     \<lparr>rt_id = role_resource_type_id, rt_display_name = ''Role'', rt_traits = [TraitRole],
      rt_annotations = new_annotations [capability_permissions [''users:read'']]\<rparr>"

definition vendor_resource_type :: resource_type where
  "vendor_resource_type =
     \<lparr>rt_id = vendor_resource_type_id, rt_display_name = ''Vendor'', rt_traits = [TraitVendor],
      rt_annotations = new_annotations [capability_permissions [''vendors:read'', ''vendors:write'']]\<rparr>"

definition vendor_agreement_resource_type :: resource_type where
  "vendor_agreement_resource_type =
     \<lparr>rt_id = vendor_agreement_resource_type_id, rt_display_name = ''Vendor Agreement'',
      rt_traits = [TraitVendor, TraitVendorAgreement],
      rt_annotations = new_annotations [capability_permissions [''vendors:read''], AOptInRequired]\<rparr>"

lemmas resource_type_id_defs =
  user_resource_type_id_def role_resource_type_id_def vendor_resource_type_id_def
  vendor_agreement_resource_type_id_def

lemma rt_ids [simp]:
  "rt_id user_resource_type = user_resource_type_id" "rt_id role_resource_type = role_resource_type_id"
  "rt_id vendor_resource_type = vendor_resource_type_id"
  "rt_id vendor_agreement_resource_type = vendor_agreement_resource_type_id"
  by (simp_all add: user_resource_type_def role_resource_type_def vendor_resource_type_def
      vendor_agreement_resource_type_def)

text \<open>What an operation of a syncer gives: its value or error, and annotations.\<close>

type_synonym 'a sync_reply = "(gerror + 'a) \<times> annotation list"

end
