(* ===== verification/Owner_Cache.thy ===== *)
theory Owner_Cache
  imports Resource_Types
begin

text \<open>
  The map of owners that the vendor and the agreement syncer fill while listing and read when asked
  for grants (\<open>vendorOwners\<close> in \<open>vendors.go\<close>, \<open>agreementOwners\<close> in \<open>vendor_agreements.go\<close>; each access
  is under a mutex and is one step here). A Go map is nil or a map; reading a nil map finds nothing and
  writing to it panics, which the first step of a listing rules out.
\<close>

type_synonym 'v owners = "(string \<rightharpoonup> 'v) option"

definition no_owners :: "'v owners" where
  "no_owners = None"

text \<open>The step after a page was fetched: start over on the first page, and when there is no map.\<close>

definition owners_begin :: "string \<Rightarrow> 'v owners \<Rightarrow> 'v owners" where
  "owners_begin token m = (if token = [] \<or> m = None then Some Map.empty else m)"

definition owners_put :: "string \<Rightarrow> 'v \<Rightarrow> 'v owners \<Rightarrow> 'v owners" where
  "owners_put k v m = map_option (\<lambda>f. f(k \<mapsto> v)) m"

definition owners_find :: "'v owners \<Rightarrow> string \<Rightarrow> 'v option" where
  "owners_find m k = (case m of None \<Rightarrow> None | Some f \<Rightarrow> f k)"

definition owners_ready :: "'v owners \<Rightarrow> bool" where
  "owners_ready m = (m \<noteq> None)"

section \<open>The interface\<close>

text \<open>What listing and asking for grants rely on.\<close>

locale owner_cache =
  fixes start :: "string \<Rightarrow> 'c \<Rightarrow> 'c"
    and put :: "string \<Rightarrow> 'v \<Rightarrow> 'c \<Rightarrow> 'c"
    and find :: "'c \<Rightarrow> string \<Rightarrow> 'v option"
    and ready :: "'c \<Rightarrow> bool"
  assumes ready_start: "ready (start t c)"
    and ready_put: "ready c \<Longrightarrow> ready (put k v c)"
    and find_fresh: "find (start [] c) k = None"
    and find_later: "t \<noteq> [] \<Longrightarrow> find (start t c) k = find c k"
    and find_put: "ready c \<Longrightarrow> find (put k v c) k' = (if k' = k then Some v else find c k')"
begin

text \<open>One page stores its items in order; a listing is its pages with the tokens they were asked with.\<close>

definition put_page :: "(string \<times> 'v) list \<Rightarrow> 'c \<Rightarrow> 'c" where
  "put_page items c = fold (\<lambda>(k, v). put k v) items c"

fun put_pages :: "(string \<times> (string \<times> 'v) list) list \<Rightarrow> 'c \<Rightarrow> 'c" where
  "put_pages [] c = c"
| "put_pages ((t, items) # ps) c = put_pages ps (put_page items (start t c))"

lemma ready_put_page: "ready c \<Longrightarrow> ready (put_page items c)"
  unfolding put_page_def by (induction items arbitrary: c) (auto simp: ready_put)

lemma find_put_page:
  "ready c \<Longrightarrow> find (put_page items c) k = (case map_of (rev items) k of Some v \<Rightarrow> Some v | None \<Rightarrow> find c k)"
  unfolding put_page_def
proof (induction items arbitrary: c)
  case (Cons a items)
  obtain j v where a: "a = (j, v)" by fastforce
  have "find (fold (\<lambda>(k, v). put k v) items (put j v c)) k =
      (case map_of (rev items) k of Some v \<Rightarrow> Some v | None \<Rightarrow> find (put j v c) k)"
    using Cons.IH [OF ready_put [OF Cons.prems]] .
  then show ?case using Cons.prems by (simp add: a find_put map_add_def split: option.split)
qed simp

lemma find_later_pages:
  assumes "ready c" "list_all (\<lambda>(t, _). t \<noteq> []) ps"
  shows "find (put_pages ps c) k = (case map_of (rev (concat (map snd ps))) k of Some v \<Rightarrow> Some v | None \<Rightarrow> find c k)"
  using assms
proof (induction ps arbitrary: c)
  case (Cons p ps)
  obtain t items where p: "p = (t, items)" by fastforce
  let ?c = "put_page items (start t c)"
  have "ready ?c" by (intro ready_put_page ready_start)
  with Cons p have "find (put_pages ps ?c) k =
      (case map_of (rev (concat (map snd ps))) k of Some v \<Rightarrow> Some v | None \<Rightarrow> find ?c k)" by simp
  then show ?case using Cons.prems
    by (simp add: p find_put_page ready_start find_later map_add_def split: option.split)
qed simp

lemma put_pages_snoc: "put_pages (ps @ [(t, items)]) c = put_page items (start t (put_pages ps c))"
  by (induction ps arbitrary: c) auto

text \<open>After a whole listing the cache holds what was listed last for an identifier, whatever it held
  before, and nothing else.\<close>

lemma find_listing:
  assumes "list_all (\<lambda>(t, _). t \<noteq> []) ps"
  shows "find (put_pages (([], items) # ps) c) k = map_of (rev (concat (map snd (([], items) # ps)))) k"
  using assms
  by (simp add: find_later_pages ready_put_page ready_start find_put_page find_fresh map_add_def split: option.split)

end

lemma owners_simps [simp]:
  "owners_find no_owners k = None"
  "owners_find (Some f) k = f k"
  "owners_put k v (Some f) = Some (f(k \<mapsto> v))"
  by (simp_all add: owners_find_def no_owners_def owners_put_def)

interpretation ow: owner_cache owners_begin owners_put owners_find owners_ready
  by unfold_locales (auto simp: owners_begin_def owners_put_def owners_find_def owners_ready_def)

end
