(* ===== verification/Agreements.thy ===== *)
theory Agreements
  imports Ramp_Api Owner_Cache
begin

text \<open>
  \<open>src/pkg/connector/vendor_agreements.go\<close>: dates, renewal states and amounts as the traits want them,
  agreements as resources with a vendor and an agreement trait, and the agreement syncer with its
  cache of contract owners.
\<close>

section \<open>Values\<close>

definition parse_ramp_date :: "string \<Rightarrow> gerror + gotime" where
  "parse_ramp_date s =
     (if s = [] then Inr zero_time
      else case parse_rfc3339 s of Some t \<Rightarrow> Inr t
        | None \<Rightarrow> (case parse_date_only s of Some t \<Rightarrow> Inr t
            | None \<Rightarrow> Inl (Plain [S ''unrecognized date format '', Q s])))"

definition map_ramp_renewal_status :: "string \<Rightarrow> renewal_status" where
  "map_ramp_renewal_status raw =
     (if raw = ''NOT_STARTED'' then RenewalNotStarted
      else if raw = ''INITIATED'' then RenewalInitiated
      else if raw = ''RENEWED'' then RenewalRenewed
      else if raw = ''CANCELLED'' then RenewalCancelled
      else if raw = ''REJECTED'' then RenewalRejected
      else if raw = ''EXPIRED'' then RenewalExpired
      else RenewalUnspecified)"

definition ramp_money_to_trait_money :: "'w svc \<Rightarrow> money option \<Rightarrow> trait_money option" where
  "ramp_money_to_trait_money sv m =
     (case m of None \<Rightarrow> None
      | Some x \<Rightarrow> if mo_currency_code x = [] then None
          else Some \<lparr>tm_amount_minor = minor_units sv m, tm_currency_code = mo_currency_code x\<rparr>)"

definition agreement_deep_link_url :: "string \<Rightarrow> string" where
  "agreement_deep_link_url i = (if i = [] then [] else ''https://app.ramp.com/contracts/'' @ i)"

section \<open>Agreements as resources\<close>

definition agreement_vendor_trait_option :: "agreement_item \<Rightarrow> resource_option" where
  "agreement_vendor_trait_option a =
     (let n = (if ai_payee_name a = [] then ai_name a else ai_payee_name a)
      in with_vendor_trait
           [with_vendor_identity (ai_payee_id a) n [],
            with_vendor_deep_link_url (agreement_deep_link_url (ai_id a))])"

definition agreement_dates :: "agreement_item \<Rightarrow> gerror + (gotime \<times> gotime \<times> gotime)" where
  "agreement_dates a =
     (case parse_ramp_date (ai_start_date a) of
        Inl e \<Rightarrow> Inl (Wrap [S ''start_date: ''] e [])
      | Inr s \<Rightarrow>
        (case parse_ramp_date (ai_end_date a) of
           Inl e \<Rightarrow> Inl (Wrap [S ''end_date: ''] e [])
         | Inr n \<Rightarrow>
           (case parse_ramp_date (ai_last_date_to_terminate a) of
              Inl e \<Rightarrow> Inl (Wrap [S ''last_date_to_terminate: ''] e [])
            | Inr l \<Rightarrow> Inr (s, n, l))))"

definition agreement_trait_option :: "'w svc \<Rightarrow> agreement_item \<Rightarrow> gerror + resource_option" where
  "agreement_trait_option sv a =
     (case agreement_dates a of
        Inl e \<Rightarrow> Inl e
      | Inr (start, end0, lastd) \<Rightarrow>
        let st = map_ramp_renewal_status (ai_renewal_status a) in
        Inr (with_vendor_agreement_trait
          ([with_agreement_term (ai_name a) start end0 (ai_auto_renewal a)]
           @ (if is_zero lastd then [] else [with_last_date_to_terminate lastd])
           @ (if st \<noteq> RenewalUnspecified \<or> ai_renewal_status a \<noteq> []
              then [with_renewal_status st (ai_renewal_status a)] else [])
           @ (case ai_total_value a of
                Some m \<Rightarrow> if mo_currency_code m \<noteq> []
                  then [with_total_value (ramp_money_to_trait_money sv (ai_total_value a))] else []
              | None \<Rightarrow> []))))"

definition build_agreement_resource :: "'w svc \<Rightarrow> agreement_item \<Rightarrow> gerror + resource" where
  "build_agreement_resource sv a =
     (case agreement_trait_option sv a of
        Inl e \<Rightarrow> Inl (Wrap [S ''agreement trait: ''] e [])
      | Inr opt \<Rightarrow>
        new_resource (ai_name a) vendor_agreement_resource_type (ai_id a)
          [with_external_id (ai_id a), agreement_vendor_trait_option a, opt])"

text \<open>The list shape of an agreement that was fetched by itself.\<close>

definition vendor_agreement_list_item_from_get :: "vendor_agreement option \<Rightarrow> agreement_item" where
  "vendor_agreement_list_item_from_get ag =
     (case ag of None \<Rightarrow> zero_agreement_item
      | Some g \<Rightarrow>
        let (pid, pname, logo) =
          (case va_payee g of None \<Rightarrow> ([], [], [])
           | Some p \<Rightarrow>
             (case py_business_vendor p of
                Some b \<Rightarrow> if bv_uuid b \<noteq> [] then bv_uuid b else py_uuid p
              | None \<Rightarrow> py_uuid p,
              if py_name p = [] then py_dba_name p else py_name p,
              py_image_url p))
        in zero_agreement_item
             \<lparr>ai_id := va_id g, ai_name := va_name g, ai_description := va_description g,
              ai_start_date := va_start_date g, ai_end_date := va_end_date g,
              ai_last_date_to_terminate := va_last_date_to_terminate g,
              ai_auto_renewal := va_auto_renewal g, ai_renewal_status := va_renewal_status g,
              ai_is_up_for_renewal := va_is_up_for_renewal g, ai_notifications_on := va_notifications_on g,
              ai_currency := va_currency g, ai_total_value := va_total_value g,
              ai_payee_id := pid, ai_payee_name := pname, ai_logo := logo,
              ai_contract_owners := va_contract_owners g, ai_days_remaining := va_days_remaining g,
              ai_created_at := va_created_at g, ai_updated_at := va_updated_at g,
              ai_deleted_at := va_deleted_at g\<rparr>)"

section \<open>The syncer\<close>

definition contract_owner_entitlement :: string where
  "contract_owner_entitlement = ''contract_owner''"

type_synonym agreement_owners = "contract_owner list owners"

text \<open>The owners of an agreement are stored before its resource is built.\<close>

fun agreement_page ::
    "'w svc \<Rightarrow> agreement_item option list \<Rightarrow> agreement_owners \<Rightarrow> (gerror + resource list) \<times> agreement_owners" where
  "agreement_page sv [] m = (Inr [], m)"
| "agreement_page sv (None # as) m = (Inl nil_dereference, m)"
| "agreement_page sv (Some a # as) m =
     (let m1 = owners_put (ai_id a) (ai_contract_owners a) m in
      case build_agreement_resource sv a of
        Inl e \<Rightarrow> (Inl (Wrap [S ''baton-ramp: failed to build agreement resource '', S (ai_id a), S '': ''] e []), m1)
      | Inr r \<Rightarrow>
        (case agreement_page sv as m1 of
           (Inl e, m2) \<Rightarrow> (Inl e, m2) | (Inr rs, m2) \<Rightarrow> (Inr (r # rs), m2)))"

definition agreement_list ::
    "'w svc \<Rightarrow> 'w client \<Rightarrow> string \<Rightarrow> agreement_owners \<Rightarrow> 'w conn
       \<Rightarrow> (resource list \<times> string) sync_reply \<times> agreement_owners \<times> 'w conn" where
  "agreement_list sv cl token m c =
     (case list_vendor_agreements sv cl (Some empty_agreements_request) token c of
        ((r, rl), c') \<Rightarrow>
          let annos = with_rate_limiting [] rl in
          (case r of
             Inl e \<Rightarrow> ((Inl (Wrap [S ''baton-ramp: failed to list vendor agreements: ''] e []), annos), m, c')
           | Inr resp \<Rightarrow>
             (case agreement_page sv (gs_agreements resp) (owners_begin token m) of
                (Inl e, m') \<Rightarrow> ((Inl e, annos), m', c')
              | (Inr rs, m') \<Rightarrow> ((Inr (rs, gs_pagination resp), annos), m', c'))))"

definition agreement_get ::
    "'w svc \<Rightarrow> 'w client \<Rightarrow> resource_id \<Rightarrow> 'w conn \<Rightarrow> resource sync_reply \<times> 'w conn" where
  "agreement_get sv cl i c =
     (case get_vendor_agreement sv cl (ri_resource i) c of
        ((r, rl), c') \<Rightarrow>
          let annos = with_rate_limiting [] rl in
          (case r of
             Inl e \<Rightarrow> ((Inl (Wrap [S ''baton-ramp: failed to get agreement '', S (ri_resource i), S '': ''] e []), annos), c')
           | Inr g \<Rightarrow>
             (case build_agreement_resource sv (vendor_agreement_list_item_from_get (Some g)) of
                Inl e \<Rightarrow>
                  ((Inl (Wrap [S ''baton-ramp: failed to build agreement resource '', S (va_id g), S '': ''] e []), annos), c')
              | Inr res \<Rightarrow> ((Inr res, annos), c'))))"

definition agreement_entitlements :: "resource \<Rightarrow> (entitlement list \<times> string) sync_reply" where
  "agreement_entitlements r =
     (Inr ([new_assignment_entitlement r contract_owner_entitlement
              (''Contract owner of vendor agreement '' @ res_display_name r)
              (''Is contract owner of '' @ res_display_name r @ '' in Ramp'') [user_resource_type]], []), [])"

definition owner_grants :: "resource \<Rightarrow> contract_owner list \<Rightarrow> grant list" where
  "owner_grants r os =
     map (\<lambda>p. new_grant r contract_owner_entitlement (new_resource_id user_resource_type (co_id p)))
       (filter (\<lambda>p. co_id p \<noteq> []) os)"

definition agreement_grants ::
    "'w svc \<Rightarrow> 'w client \<Rightarrow> resource \<Rightarrow> agreement_owners \<Rightarrow> 'w conn
       \<Rightarrow> (grant list \<times> string) sync_reply \<times> 'w conn" where
  "agreement_grants sv cl r m c =
     (let i = ri_resource (res_id r) in
      case owners_find m i of
        Some os \<Rightarrow> ((Inr (owner_grants r os, []), []), c)
      | None \<Rightarrow>
        (case get_vendor_agreement sv cl i c of
           ((q, rl), c') \<Rightarrow>
             let annos = with_rate_limiting [] rl in
             (case q of
                Inl e \<Rightarrow> ((Inl (Wrap [S ''baton-ramp: failed to get agreement '', S i, S '': ''] e []), annos), c')
              | Inr g \<Rightarrow> ((Inr (owner_grants r (va_contract_owners g), []), annos), c'))))"

section \<open>Facts\<close>

text \<open>What makes an agreement unusable, the first reason in the code's order.\<close>

definition agreement_ok :: "agreement_item \<Rightarrow> bool" where
  "agreement_ok a =
     (ai_payee_id a \<noteq> [] \<and> (ai_payee_name a \<noteq> [] \<or> ai_name a \<noteq> [])
      \<and> (case agreement_dates a of Inl _ \<Rightarrow> False
         | Inr (s, n, l) \<Rightarrow>
           (is_zero s \<or> is_zero n \<or> \<not> before n s) \<and> (is_zero l \<or> is_zero n \<or> \<not> before n l)))"

definition agreement_vendor_trait :: "agreement_item \<Rightarrow> vendor_trait" where
  "agreement_vendor_trait a = zero_vendor_trait
     \<lparr>vt_vendor_id := ai_payee_id a,
      vt_vendor_name := (if ai_payee_name a = [] then ai_name a else ai_payee_name a),
      vt_deep_link_url := agreement_deep_link_url (ai_id a)\<rparr>"

definition date_stamp :: "gotime \<Rightarrow> timestamp option" where
  "date_stamp t = (if is_zero t then None else Some (timestamp_of t))"

definition agreement_trait_of :: "'w svc \<Rightarrow> agreement_item \<Rightarrow> gotime \<times> gotime \<times> gotime \<Rightarrow> agreement_trait" where
  "agreement_trait_of sv a d =
     (case d of (s, n, l) \<Rightarrow>
        \<lparr>at_name = ai_name a, at_start_date = date_stamp s, at_end_date = date_stamp n, at_last_date = date_stamp l,
         at_auto_renewal = ai_auto_renewal a, at_renewal_status = map_ramp_renewal_status (ai_renewal_status a),
         at_renewal_status_raw = ai_renewal_status a,
         at_total_value = ramp_money_to_trait_money sv (ai_total_value a)\<rparr>)"

lemma agreement_options:
  assumes "agreement_dates a = Inr (s, n, l)" "agreement_trait_option sv a = Inr opt"
    and "anno_pick 6 (res_annotations r) = None"
  shows "opt r =
    (case validate_date_ordering (agreement_trait_of sv a (s, n, l)) of
       Some e \<Rightarrow> Inl e
     | None \<Rightarrow> Inr (r\<lparr>res_annotations := anno_update (res_annotations r) (AAgreementTrait (agreement_trait_of sv a (s, n, l)))\<rparr>))"
proof -
  have raw: "ai_renewal_status a = [] \<Longrightarrow> map_ramp_renewal_status (ai_renewal_status a) = RenewalUnspecified"
    by (simp add: map_ramp_renewal_status_def)
  have tv: "ai_total_value a = Some m \<Longrightarrow> mo_currency_code m = [] \<Longrightarrow> ramp_money_to_trait_money sv (ai_total_value a) = None"
    "ai_total_value a = None \<Longrightarrow> ramp_money_to_trait_money sv (ai_total_value a) = None" for m
    by (simp_all add: ramp_money_to_trait_money_def)
  have "apply_options
      ([with_agreement_term (ai_name a) s n (ai_auto_renewal a)]
           @ (if is_zero l then [] else [with_last_date_to_terminate l])
           @ (if map_ramp_renewal_status (ai_renewal_status a) \<noteq> RenewalUnspecified \<or> ai_renewal_status a \<noteq> []
              then [with_renewal_status (map_ramp_renewal_status (ai_renewal_status a)) (ai_renewal_status a)] else [])
           @ (case ai_total_value a of
                Some m \<Rightarrow> if mo_currency_code m \<noteq> []
                  then [with_total_value (ramp_money_to_trait_money sv (ai_total_value a))] else []
              | None \<Rightarrow> [])) zero_agreement_trait = Inr (agreement_trait_of sv a (s, n, l))"
    using raw tv
    by (auto simp: agreement_trait_of_def date_stamp_def sdk_option_defs zero_agreement_trait_def split: option.splits)
  then show ?thesis
    using assms by (auto simp: agreement_trait_option_def with_vendor_agreement_trait_def Let_def)
qed

lemma anno_pick_external [simp]: "anno_pick k [] = None"
  by (simp add: anno_pick_def)

lemma date_order_stamp:
  "date_order_ok (date_stamp a) (date_stamp b) \<longleftrightarrow> is_zero a \<or> is_zero b \<or> \<not> before b a"
  by (simp add: date_order_ok_def date_stamp_def before_def)

lemma validate_stamps:
  "validate_date_ordering (agreement_trait_of sv a (s, n, l)) = None \<longleftrightarrow>
     (is_zero s \<or> is_zero n \<or> \<not> before n s) \<and> (is_zero l \<or> is_zero n \<or> \<not> before n l)"
  by (simp add: validate_date_ordering_def agreement_trait_of_def date_order_stamp)

definition agreement_resource_of :: "'w svc \<Rightarrow> agreement_item \<Rightarrow> gotime \<times> gotime \<times> gotime \<Rightarrow> resource" where
  "agreement_resource_of sv a d =
     \<lparr>res_id = \<lparr>ri_type = ''vendor_agreement'', ri_resource = ai_id a\<rparr>, res_display_name = ai_name a,
      res_external_id = Some (ai_id a), res_status = None,
      res_annotations = [AVendorTrait (agreement_vendor_trait a), AAgreementTrait (agreement_trait_of sv a d)]\<rparr>"

lemma agreement_vendor_option:
  "agreement_vendor_trait_option a r =
     (if ai_payee_id a = [] then Inl (Plain [S ''vendor_id cannot be empty''])
      else if ai_payee_name a = [] \<and> ai_name a = [] then Inl (Plain [S ''vendor_name cannot be empty''])
      else Inr (r\<lparr>res_annotations := anno_update (res_annotations r) (AVendorTrait (agreement_vendor_trait a))\<rparr>))"
  if "anno_pick 5 (res_annotations r) = None"
  using that
  by (simp add: agreement_vendor_trait_option_def with_vendor_trait_def sdk_option_defs agreement_vendor_trait_def
      zero_vendor_trait_def Let_def)

lemma build_agreement_ok:
  assumes "agreement_dates a = Inr d" "agreement_ok a"
  shows "build_agreement_resource sv a = Inr (agreement_resource_of sv a d)"
proof -
  obtain s n l where d: "d = (s, n, l)" by (metis prod_cases3)
  obtain opt where opt: "agreement_trait_option sv a = Inr opt"
    using assms(1) by (simp add: agreement_trait_option_def d Let_def)
  have "validate_date_ordering (agreement_trait_of sv a (s, n, l)) = None"
    using assms by (simp add: validate_stamps agreement_ok_def d)
  then show ?thesis
    using assms(2) opt
    by (auto simp: build_agreement_resource_def new_resource_def with_external_id_def agreement_vendor_option
        agreement_options [OF assms(1) [unfolded d] opt] agreement_ok_def agreement_resource_of_def d
        anno_update_def anno_pick_def new_resource_id_def vendor_agreement_resource_type_id_def)
qed

lemma build_agreement_error:
  assumes "\<not> agreement_ok a"
  shows "\<exists>e. build_agreement_resource sv a = Inl e"
proof (cases "agreement_dates a")
  case (Inl e)
  then show ?thesis by (simp add: build_agreement_resource_def agreement_trait_option_def)
next
  case (Inr d)
  obtain s n l where d: "d = (s, n, l)" by (metis prod_cases3)
  obtain opt where opt: "agreement_trait_option sv a = Inr opt"
    using Inr by (simp add: agreement_trait_option_def d Let_def)
  have "validate_date_ordering (agreement_trait_of sv a (s, n, l)) \<noteq> None"
    if "ai_payee_id a \<noteq> []" "ai_payee_name a \<noteq> [] \<or> ai_name a \<noteq> []"
    using assms that by (auto simp: validate_stamps agreement_ok_def Inr d)
  then show ?thesis
    using opt
    by (auto simp: build_agreement_resource_def new_resource_def with_external_id_def agreement_vendor_option
        agreement_options [OF Inr [unfolded d] opt] anno_update_def anno_pick_def)
qed

lemma build_agreement_iff: "(\<exists>r. build_agreement_resource sv a = Inr r) \<longleftrightarrow> agreement_ok a"
proof (cases "agreement_ok a")
  case True
  then obtain d where "agreement_dates a = Inr d" by (auto simp: agreement_ok_def split: sum.splits)
  from build_agreement_ok [OF this True, of sv] True show ?thesis by simp
next
  case False
  from build_agreement_error [OF this, of sv] False show ?thesis by auto
qed

definition agreement_entry :: "agreement_item \<Rightarrow> string \<times> contract_owner list" where
  "agreement_entry a = (ai_id a, ai_contract_owners a)"

lemma agreement_page_ok:
  "agreement_page sv as m = (Inr rs, m') \<Longrightarrow>
     \<exists>items. as = map Some items \<and> list_all agreement_ok items
       \<and> list_all2 (\<lambda>a r. build_agreement_resource sv a = Inr r) items rs
       \<and> m' = ow.put_page (map agreement_entry items) m"
proof (induction sv as m arbitrary: rs m' rule: agreement_page.induct)
  case (1 sv m)
  then show ?case by (simp add: ow.put_page_def)
next
  case (2 sv as m)
  then show ?case by simp
next
  case (3 sv a as m)
  obtain r where r: "build_agreement_resource sv a = Inr r"
    using "3.prems" by (auto simp: Let_def split: sum.splits)
  let ?m1 = "owners_put (ai_id a) (ai_contract_owners a) m"
  obtain rs2 where rs2: "agreement_page sv as ?m1 = (Inr rs2, m')" "rs = r # rs2"
    using "3.prems" r by (auto simp: Let_def split: sum.splits prod.splits)
  obtain items where items: "as = map Some items" "list_all agreement_ok items"
    "list_all2 (\<lambda>a r. build_agreement_resource sv a = Inr r) items rs2" "m' = ow.put_page (map agreement_entry items) ?m1"
    using "3.IH" [OF refl r rs2(1)] by blast
  have "agreement_ok a" using r build_agreement_iff by blast
  with items r rs2(2) have "Some a # as = map Some (a # items) \<and> list_all agreement_ok (a # items)
      \<and> list_all2 (\<lambda>a r. build_agreement_resource sv a = Inr r) (a # items) rs
      \<and> m' = ow.put_page (map agreement_entry (a # items)) m"
    by (simp add: ow.put_page_def agreement_entry_def)
  then show ?case by (rule exI)
qed

lemma agreement_page_bad:
  "a \<in> set as \<Longrightarrow> (a = None \<or> (\<exists>x. a = Some x \<and> \<not> agreement_ok x)) \<Longrightarrow> \<exists>e m'. agreement_page sv as m = (Inl e, m')"
  using agreement_page_ok by (cases "agreement_page sv as m"; cases "fst (agreement_page sv as m)") (fastforce simp: list_all_iff)+

section \<open>A listing and the grants after it\<close>

lemma agreement_list_cache:
  assumes "agreement_list sv cl t m c = ((Inr (rs, nx), an), m', c')"
    and "list_vendor_agreements sv cl (Some empty_agreements_request) t c = ((Inr resp, rl), c1)"
  shows "\<exists>items. gs_agreements resp = map Some items \<and> list_all agreement_ok items
           \<and> list_all2 (\<lambda>a r. build_agreement_resource sv a = Inr r) items rs
           \<and> m' = ow.put_page (map agreement_entry items) (owners_begin t m)"
proof -
  obtain m2 where "agreement_page sv (gs_agreements resp) (owners_begin t m) = (Inr rs, m2)" "m2 = m'"
    using assms by (auto simp: agreement_list_def Let_def split: sum.splits prod.splits)
  then show ?thesis using agreement_page_ok by blast
qed

text \<open>Listings: a first page asked without a token, later pages with the token of the page before. Each
  step is a successful call of \<open>List\<close>; the agreements listed so far, the next token, the cache.\<close>

inductive agreements_listed ::
    "'w svc \<Rightarrow> 'w client \<Rightarrow> agreement_item list \<Rightarrow> string \<Rightarrow> agreement_owners \<Rightarrow> bool" for sv cl where
  first_page: "list_vendor_agreements sv cl (Some empty_agreements_request) [] c = ((Inr resp, rl), c1) \<Longrightarrow>
    gs_agreements resp = map Some items \<Longrightarrow>
    agreement_list sv cl [] m c = ((Inr (rs, nx), an), m', c') \<Longrightarrow> agreements_listed sv cl items nx m'"
| next_page: "agreements_listed sv cl its t m \<Longrightarrow> t \<noteq> [] \<Longrightarrow>
    list_vendor_agreements sv cl (Some empty_agreements_request) t c = ((Inr resp, rl), c1) \<Longrightarrow>
    gs_agreements resp = map Some items \<Longrightarrow>
    agreement_list sv cl t m c = ((Inr (rs, nx), an), m', c') \<Longrightarrow> agreements_listed sv cl (its @ items) nx m'"

lemma agreements_listed_pages:
  "agreements_listed sv cl its nx m \<Longrightarrow>
     \<exists>first ps m0. list_all (\<lambda>(t, _). t \<noteq> []) ps \<and> m = ow.put_pages (([], first) # ps) m0
       \<and> map agreement_entry its = concat (map snd (([], first) # ps))"
proof (induction rule: agreements_listed.induct)
  case (first_page c resp rl c1 items m rs nx an m' c')
  then have "m' = ow.put_pages [([], map agreement_entry items)] m"
    using agreement_list_cache [OF first_page(3,1)] by (auto simp: inj_map_eq_map)
  then show ?case by (intro exI [of _ "map agreement_entry items"] exI [of _ "[]"] exI [of _ m]) simp
next
  case (next_page its t m c resp rl c1 items rs nx an m' c')
  then obtain fp ps m0 where ps: "list_all (\<lambda>(t, _). t \<noteq> []) ps" "m = ow.put_pages (([], fp) # ps) m0"
    "map agreement_entry its = concat (map snd (([], fp) # ps))" by blast
  have "m' = ow.put_page (map agreement_entry items) (owners_begin t m)"
    using agreement_list_cache [OF next_page(5,3)] next_page(4) by (auto simp: inj_map_eq_map)
  also have "\<dots> = ow.put_pages (([], fp) # ps @ [(t, map agreement_entry items)]) m0"
    using ow.put_pages_snoc [of "([], fp) # ps" t "map agreement_entry items" m0] ps(2) by simp
  finally show ?case using ps next_page(2)
    by (intro exI [of _ fp] exI [of _ "ps @ [(t, map agreement_entry items)]"] exI [of _ m0]) simp
qed

lemma agreements_listed_find:
  assumes "agreements_listed sv cl its nx m"
  shows "owners_find m k = map_of (rev (map agreement_entry its)) k"
proof -
  obtain fp ps m0 where ps: "list_all (\<lambda>(t, _). t \<noteq> []) ps" "m = ow.put_pages (([], fp) # ps) m0"
    "map agreement_entry its = concat (map snd (([], fp) # ps))"
    using agreements_listed_pages [OF assms] by blast
  show ?thesis unfolding ps(2) using ow.find_listing [OF ps(1), of fp m0 k] ps(3) by simp
qed

lemma map_of_entry:
  assumes "a \<in> set its" "distinct (map ai_id its)"
  shows "map_of (rev (map agreement_entry its)) (ai_id a) = Some (ai_contract_owners a)"
proof -
  have "distinct (map fst (rev (map agreement_entry its)))"
    using assms(2) by (simp add: rev_map [symmetric] agreement_entry_def o_def)
  moreover have "(ai_id a, ai_contract_owners a) \<in> set (rev (map agreement_entry its))"
    using assms(1) by (auto simp: agreement_entry_def)
  ultimately show ?thesis by simp
qed

section \<open>Dates\<close>

definition day_ns :: int where "day_ns = 86400 * nanos"

lemma parse_date_only_midnight: "parse_date_only s = Some t \<Longrightarrow> t_ns t mod day_ns = 0 \<and> t_off t = 0"
  by (auto simp: parse_date_only_def make_time_def day_ns_def nanos_def bind_eq_Some_conv Let_def split: if_splits)

end
