(* ===== verification/Vendors.thy ===== *)
theory Vendors
  imports Agreements
begin

text \<open>
  \<open>src/pkg/connector/vendors.go\<close>: vendors as resources with their trait, the vendor syncer with its
  cache of owners, and the assignment and removal of a vendor's one owner.
\<close>

section \<open>Vendors as resources\<close>

definition vendor_owner_entitlement :: string where
  "vendor_owner_entitlement = ''owner''"

definition vendor_deep_link_url :: "string \<Rightarrow> string" where
  "vendor_deep_link_url i = (if i = [] then [] else ''https://app.ramp.com/vendors/'' @ i)"

definition spend_option ::
    "'w svc \<Rightarrow> (trait_money \<Rightarrow> vendor_trait_option) \<Rightarrow> money option \<Rightarrow> vendor_trait_option list" where
  "spend_option sv opt m = (case ramp_money_to_trait_money sv m of Some x \<Rightarrow> [opt x] | None \<Rightarrow> [])"

definition build_vendor_trait_option :: "'w svc \<Rightarrow> vendor \<Rightarrow> resource_option" where
  "build_vendor_trait_option sv v =
     (let legal = (if ve_name_legal v = [] then ve_name v else ve_name_legal v);
          dba = (if ve_name_legal v \<noteq> [] \<and> ve_name_legal v \<noteq> ve_name v then ve_name v else [])
      in with_vendor_trait
           ([with_vendor_identity (ve_id v) legal dba,
             with_vendor_deep_link_url (vendor_deep_link_url (ve_id v))]
            @ (if ve_external_vendor_id v \<noteq> [] then [with_external_vendor_id (ve_external_vendor_id v)] else [])
            @ (if ve_default_entity_id v \<noteq> [] then [with_vendor_source_scoping [] (ve_default_entity_id v)] else [])
            @ spend_option sv with_trailing_30_day_spend (ve_total_spend_last_30_days v)
            @ spend_option sv with_trailing_365_day_spend (ve_total_spend_last_365_days v)
            @ spend_option sv with_ytd_spend (ve_total_spend_ytd v)))"

definition vendor_resource :: "'w svc \<Rightarrow> vendor \<Rightarrow> gerror + resource" where
  "vendor_resource sv v =
     new_resource (ve_name v) vendor_resource_type (ve_id v)
       [with_external_id (ve_id v), build_vendor_trait_option sv v]"

section \<open>The syncer\<close>

type_synonym vendor_owners = "string owners"

fun vendor_page ::
    "'w svc \<Rightarrow> vendor option list \<Rightarrow> vendor_owners \<Rightarrow> (gerror + resource list) \<times> vendor_owners" where
  "vendor_page sv [] m = (Inr [], m)"
| "vendor_page sv (None # vs) m = (Inl nil_dereference, m)"
| "vendor_page sv (Some v # vs) m =
     (let m1 = owners_put (ve_id v) (ve_vendor_owner_id v) m in
      case vendor_resource sv v of
        Inl e \<Rightarrow> (Inl (Wrap [S ''baton-ramp: failed to create vendor resource '', S (ve_id v), S '': ''] e []), m1)
      | Inr r \<Rightarrow>
        (case vendor_page sv vs m1 of
           (Inl e, m2) \<Rightarrow> (Inl e, m2) | (Inr rs, m2) \<Rightarrow> (Inr (r # rs), m2)))"

definition vendor_list ::
    "'w svc \<Rightarrow> 'w client \<Rightarrow> string \<Rightarrow> vendor_owners \<Rightarrow> 'w conn
       \<Rightarrow> (resource list \<times> string) sync_reply \<times> vendor_owners \<times> 'w conn" where
  "vendor_list sv cl token m c =
     (case list_vendors sv cl token c of
        ((r, rl), c') \<Rightarrow>
          let annos = with_rate_limiting [] rl in
          (case r of
             Inl e \<Rightarrow> ((Inl (Wrap [S ''baton-ramp: failed to list vendors: ''] e []), annos), m, c')
           | Inr resp \<Rightarrow>
             (case vendor_page sv (vr_vendors resp) (owners_begin token m) of
                (Inl e, m') \<Rightarrow> ((Inl e, annos), m', c')
              | (Inr rs, m') \<Rightarrow> ((Inr (rs, vr_pagination resp), annos), m', c'))))"

definition failed_get_vendor :: "string \<Rightarrow> gerror \<Rightarrow> gerror" where
  "failed_get_vendor i e = Wrap [S ''baton-ramp: failed to get vendor '', S i, S '': ''] e []"

definition vendor_get ::
    "'w svc \<Rightarrow> 'w client \<Rightarrow> resource_id \<Rightarrow> 'w conn \<Rightarrow> resource sync_reply \<times> 'w conn" where
  "vendor_get sv cl i c =
     (case get_vendor sv cl (ri_resource i) c of
        ((r, rl), c') \<Rightarrow>
          let annos = with_rate_limiting [] rl in
          (case r of
             Inl e \<Rightarrow> ((Inl (failed_get_vendor (ri_resource i) e), annos), c')
           | Inr v \<Rightarrow>
             (case vendor_resource sv v of
                Inl e \<Rightarrow>
                  ((Inl (Wrap [S ''baton-ramp: failed to create vendor resource '', S (ve_id v), S '': ''] e []), annos), c')
              | Inr res \<Rightarrow> ((Inr res, annos), c'))))"

definition vendor_entitlements :: "resource \<Rightarrow> (entitlement list \<times> string) sync_reply" where
  "vendor_entitlements r =
     (Inr ([new_assignment_entitlement r vendor_owner_entitlement (''Owner of vendor '' @ res_display_name r)
              (''Is owner of '' @ res_display_name r @ '' in Ramp'') [user_resource_type]], []), [])"

definition owner_grant :: "resource \<Rightarrow> string \<Rightarrow> grant" where
  "owner_grant r owner_id = new_grant r vendor_owner_entitlement (new_resource_id user_resource_type owner_id)"

definition vendor_grants ::
    "'w svc \<Rightarrow> 'w client \<Rightarrow> resource \<Rightarrow> vendor_owners \<Rightarrow> 'w conn
       \<Rightarrow> (grant list \<times> string) sync_reply \<times> 'w conn" where
  "vendor_grants sv cl r m c =
     (let i = ri_resource (res_id r);
          finish = (\<lambda>owner annos c'. ((Inr (if owner = [] then [] else [owner_grant r owner], []), annos), c'))
      in case owners_find m i of
           Some owner \<Rightarrow> finish owner [] c
         | None \<Rightarrow>
           (case get_vendor sv cl i c of
              ((q, rl), c') \<Rightarrow>
                let annos = with_rate_limiting [] rl in
                (case q of
                   Inl e \<Rightarrow> ((Inl (failed_get_vendor i e), annos), c')
                 | Inr v \<Rightarrow> finish (ve_vendor_owner_id v) annos c')))"

section \<open>The owner of a vendor\<close>

definition vendor_grant ::
    "'w svc \<Rightarrow> 'w client \<Rightarrow> resource \<Rightarrow> entitlement \<Rightarrow> 'w conn \<Rightarrow> grant list sync_reply \<times> 'w conn" where
  "vendor_grant sv cl who ent c =
     (let vendor_id = ri_resource (res_id (en_resource ent)); user_id = ri_resource (res_id who) in
      case get_vendor sv cl vendor_id c of
        ((r, rl), c1) \<Rightarrow>
          let annos = with_rate_limiting [] rl in
          (case r of
             Inl e \<Rightarrow> ((Inl (failed_get_vendor vendor_id e), annos), c1)
           | Inr v \<Rightarrow>
             if ve_vendor_owner_id v = user_id then ((Inr [], anno_append annos AGrantAlreadyExists), c1)
             else
               (case update_vendor_owner sv cl vendor_id user_id c1 of
                  ((r2, rl2), c2) \<Rightarrow>
                    let annos2 = with_rate_limiting annos rl2 in
                    (case r2 of
                       Inl e \<Rightarrow>
                         ((Inl (Wrap [S ''baton-ramp: failed to grant vendor owner for vendor '', S vendor_id, S '': ''] e []), annos2), c2)
                     | Inr _ \<Rightarrow> ((Inr [owner_grant (en_resource ent) user_id], annos2), c2)))))"

definition vendor_revoke ::
    "'w svc \<Rightarrow> 'w client \<Rightarrow> grant \<Rightarrow> 'w conn \<Rightarrow> unit sync_reply \<times> 'w conn" where
  "vendor_revoke sv cl g c =
     (let vendor_id = ri_resource (res_id (gr_entitlement_resource g)); user_id = ri_resource (gr_principal g) in
      case get_vendor sv cl vendor_id c of
        ((r, rl), c1) \<Rightarrow>
          let annos = with_rate_limiting [] rl in
          (case r of
             Inl e \<Rightarrow> ((Inl (failed_get_vendor vendor_id e), annos), c1)
           | Inr v \<Rightarrow>
             if ve_vendor_owner_id v \<noteq> user_id then ((Inr (), anno_append annos AGrantAlreadyRevoked), c1)
             else
               (case update_vendor_owner sv cl vendor_id [] c1 of
                  ((r2, rl2), c2) \<Rightarrow>
                    let annos2 = with_rate_limiting annos rl2 in
                    (case r2 of
                       Inl e \<Rightarrow>
                         ((Inl (Wrap [S ''baton-ramp: failed to revoke vendor owner for vendor '', S vendor_id, S '': ''] e []), annos2), c2)
                     | Inr _ \<Rightarrow> ((Inr (), annos2), c2)))))"

section \<open>Facts\<close>

definition vendor_ok :: "vendor \<Rightarrow> bool" where
  "vendor_ok v = (ve_id v \<noteq> [] \<and> (ve_name_legal v \<noteq> [] \<or> ve_name v \<noteq> []))"

definition vendor_trait_of :: "'w svc \<Rightarrow> vendor \<Rightarrow> vendor_trait" where
  "vendor_trait_of sv v =
     \<lparr>vt_vendor_id = ve_id v,
      vt_vendor_name = (if ve_name_legal v = [] then ve_name v else ve_name_legal v),
      vt_dba_name = (if ve_name_legal v \<in> {[], ve_name v} then [] else ve_name v),
      vt_deep_link_url = vendor_deep_link_url (ve_id v), vt_external_vendor_id = ve_external_vendor_id v,
      vt_source_business_id = [], vt_source_entity_id = ve_default_entity_id v,
      vt_trailing_30d = ramp_money_to_trait_money sv (ve_total_spend_last_30_days v),
      vt_trailing_365d = ramp_money_to_trait_money sv (ve_total_spend_last_365_days v),
      vt_ytd = ramp_money_to_trait_money sv (ve_total_spend_ytd v)\<rparr>"

definition vendor_resource_of :: "'w svc \<Rightarrow> vendor \<Rightarrow> resource" where
  "vendor_resource_of sv v =
     \<lparr>res_id = \<lparr>ri_type = ''vendor'', ri_resource = ve_id v\<rparr>, res_display_name = ve_name v,
      res_external_id = Some (ve_id v), res_status = None, res_annotations = [AVendorTrait (vendor_trait_of sv v)]\<rparr>"

lemma spend_option_apply:
  "apply_options (spend_option sv opt m) t =
     (case ramp_money_to_trait_money sv m of None \<Rightarrow> Inr t | Some x \<Rightarrow> opt x t)"
  by (simp add: spend_option_def split: option.splits sum.splits)

lemma apply_options_if:
  "apply_options (if b then [f] else []) t = (if b then f t else Inr t)"
  by (simp split: sum.splits)

lemma vendor_options_apply:
  assumes "ve_id v \<noteq> []" "legal \<noteq> []"
  shows "apply_options
    ([with_vendor_identity (ve_id v) legal dba, with_vendor_deep_link_url (vendor_deep_link_url (ve_id v))]
      @ (if ve_external_vendor_id v \<noteq> [] then [with_external_vendor_id (ve_external_vendor_id v)] else [])
      @ (if ve_default_entity_id v \<noteq> [] then [with_vendor_source_scoping [] (ve_default_entity_id v)] else [])
      @ spend_option sv with_trailing_30_day_spend (ve_total_spend_last_30_days v)
      @ spend_option sv with_trailing_365_day_spend (ve_total_spend_last_365_days v)
      @ spend_option sv with_ytd_spend (ve_total_spend_ytd v)) zero_vendor_trait =
    Inr ((vendor_trait_of sv v)\<lparr>vt_vendor_name := legal, vt_dba_name := dba\<rparr>)"
  using assms
  by (simp add: apply_options_append apply_options_if spend_option_apply sdk_option_defs zero_vendor_trait_def
      vendor_trait_of_def split: option.splits)

lemma build_vendor_trait:
  assumes "vendor_ok v" "anno_pick 5 (res_annotations r) = None"
  shows "build_vendor_trait_option sv v r =
     Inr (r\<lparr>res_annotations := anno_update (res_annotations r) (AVendorTrait (vendor_trait_of sv v))\<rparr>)"
proof -
  have id: "ve_id v \<noteq> []" and legal: "(if ve_name_legal v = [] then ve_name v else ve_name_legal v) \<noteq> []"
    using assms(1) by (auto simp: vendor_ok_def)
  show ?thesis
    unfolding build_vendor_trait_option_def Let_def with_vendor_trait_def assms(2) option.case
      vendor_options_apply [OF id legal] sum.case
    using id legal by (simp add: vendor_trait_of_def)
qed

lemma vendor_resource_ok: "vendor_ok v \<Longrightarrow> vendor_resource sv v = Inr (vendor_resource_of sv v)"
  by (simp add: vendor_resource_def new_resource_def with_external_id_def build_vendor_trait
      vendor_resource_of_def new_resource_id_def vendor_resource_type_id_def anno_update_def)

lemma vendor_resource_error: "\<not> vendor_ok v \<Longrightarrow> \<exists>e. vendor_resource sv v = Inl e"
  by (auto simp: vendor_ok_def vendor_resource_def new_resource_def build_vendor_trait_option_def Let_def
      with_vendor_trait_def sdk_option_defs)

lemma vendor_resource_iff: "(\<exists>r. vendor_resource sv v = Inr r) \<longleftrightarrow> vendor_ok v"
  using vendor_resource_ok vendor_resource_error by (metis sum.distinct(1))

end
