(* ===== verification/Owner_Register.thy ===== *)
theory Owner_Register
  imports Vendors
begin

text \<open>
  What the assignment and the removal of a vendor's owner promise: an abstract machine whose state is only
  who owns what, with operations that may fail before or after they took effect. The interface
  \<open>owner_service\<close> asks of a call that it makes a step of this machine; whole runs of calls then are runs
  of the machine. Grant and Revoke are such calls as long as the API's answers are not served
  from the response cache.
\<close>

section \<open>Who owns what\<close>

text \<open>The platform grants the owner entitlement of a vendor to a user, and revokes a grant.\<close>

datatype owner_op = Assign resource entitlement | Remove grant

fun op_vendor :: "owner_op \<Rightarrow> string" where
  "op_vendor (Assign who ent) = ri_resource (res_id (en_resource ent))"
| "op_vendor (Remove g) = ri_resource (res_id (gr_entitlement_resource g))"

fun op_user :: "owner_op \<Rightarrow> string" where
  "op_user (Assign who ent) = ri_resource (res_id who)"
| "op_user (Remove g) = ri_resource (gr_principal g)"

text \<open>A vendor has one owner: assigning replaces the one before, removing clears only the named one. The answer
  has the grants made, and whether there was nothing to do.\<close>

fun owned_after :: "owner_op \<Rightarrow> (string \<Rightarrow> string) \<Rightarrow> string \<Rightarrow> string" where
  "owned_after (Assign who ent) w = w(op_vendor (Assign who ent) := op_user (Assign who ent))"
| "owned_after (Remove g) w = (if w (op_vendor (Remove g)) = op_user (Remove g) then w(op_vendor (Remove g) := []) else w)"

fun owner_reply :: "owner_op \<Rightarrow> (string \<Rightarrow> string) \<Rightarrow> grant list \<times> bool" where
  "owner_reply (Assign who ent) w =
     (if w (op_vendor (Assign who ent)) = op_user (Assign who ent) then ([], True)
      else ([owner_grant (en_resource ent) (op_user (Assign who ent))], False))"
| "owner_reply (Remove g) w = ([], w (op_vendor (Remove g)) \<noteq> op_user (Remove g))"

inductive owner_step :: "owner_op \<Rightarrow> (string \<Rightarrow> string) \<Rightarrow> (grant list \<times> bool) option \<Rightarrow> (string \<Rightarrow> string) \<Rightarrow> bool" where
  made: "owner_step op w (Some (owner_reply op w)) (owned_after op w)"
| unsent: "owner_step op w None w"
| unanswered: "owner_step op w None (owned_after op w)"

inductive_simps owner_step_made: "owner_step op w (Some r) w'"

lemma owner_step_keeps: "owner_step op w r w' \<Longrightarrow> P (op_user op) \<Longrightarrow> P [] \<Longrightarrow> \<forall>v. P (w v) \<Longrightarrow> \<forall>v. P (w' v)"
  by (cases op) (auto elim!: owner_step.cases split: if_splits)

inductive owner_run ::
    "owner_op list \<Rightarrow> (string \<Rightarrow> string) \<Rightarrow> (grant list \<times> bool) option list \<Rightarrow> (string \<Rightarrow> string) \<Rightarrow> bool" where
  stop: "owner_run [] w [] w"
| more: "owner_step op w r w1 \<Longrightarrow> owner_run ops w1 rs w2 \<Longrightarrow> owner_run (op # ops) w (r # rs) w2"

text \<open>Calls one after the other.\<close>

fun run_calls :: "('op \<Rightarrow> 's \<Rightarrow> 'r \<times> 's) \<Rightarrow> 'op list \<Rightarrow> 's \<Rightarrow> 'r list \<times> 's" where
  "run_calls call [] s = ([], s)"
| "run_calls call (op # ops) s =
     (case call op s of (r, s1) \<Rightarrow> (case run_calls call ops s1 of (rs, s2) \<Rightarrow> (r # rs, s2)))"

section \<open>The interface\<close>

locale owner_service =
  fixes call :: "owner_op \<Rightarrow> 's \<Rightarrow> (grant list \<times> bool) option \<times> 's"
    and owner :: "'s \<Rightarrow> string \<Rightarrow> string"
    and inv :: "'s \<Rightarrow> bool"
    and good :: "owner_op \<Rightarrow> bool"
  assumes call_law: "good op \<Longrightarrow> inv s \<Longrightarrow> call op s = (r, s') \<Longrightarrow> inv s' \<and> owner_step op (owner s) r (owner s')"
begin

lemma run_law:
  "list_all good ops \<Longrightarrow> inv s \<Longrightarrow> \<exists>rs s'. run_calls call ops s = (rs, s') \<and> inv s' \<and> owner_run ops (owner s) rs (owner s')"
proof (induction ops arbitrary: s)
  case Nil
  then show ?case by (simp add: owner_run.stop)
next
  case (Cons op ops)
  obtain r s1 where c: "call op s = (r, s1)" by (metis prod.exhaust)
  from call_law [OF _ Cons.prems(2) c] Cons.prems(1) have s1: "inv s1" "owner_step op (owner s) r (owner s1)" by simp_all
  obtain rs s' where "run_calls call ops s1 = (rs, s')" "inv s'" "owner_run ops (owner s1) rs (owner s')"
    using Cons.IH [OF _ s1(1)] Cons.prems(1) by auto
  with c s1 show ?case by (auto intro: owner_run.more)
qed

text \<open>A successful assignment and then a successful removal of the same user leave the vendor without an
  owner and the others alone, and the removal does not claim that there was nothing to remove.\<close>

lemma assign_then_remove:
  assumes "good (Assign who ent)" "good (Remove g)" "inv s"
    and "op_vendor (Remove g) = op_vendor (Assign who ent)" "op_user (Remove g) = op_user (Assign who ent)"
    and "call (Assign who ent) s = (Some r, s1)" "call (Remove g) s1 = (Some r', s2)"
  shows "owner s2 = (owner s)(op_vendor (Remove g) := []) \<and> \<not> snd r'"
proof -
  have a: "inv s1" "owner s1 = owned_after (Assign who ent) (owner s)"
    using call_law [OF assms(1,3,6)] by (simp_all add: owner_step_made)
  have "r' = owner_reply (Remove g) (owner s1)" "owner s2 = owned_after (Remove g) (owner s1)"
    using call_law [OF assms(2) a(1) assms(7)] by (simp_all add: owner_step_made)
  with a(2) assms(4,5) show ?thesis by (auto simp del: op_vendor.simps op_user.simps)
qed

end

section \<open>The connector's calls\<close>

definition owner_call :: "'w svc \<Rightarrow> 'w client \<Rightarrow> owner_op \<Rightarrow> 'w conn \<Rightarrow> (grant list \<times> bool) option \<times> 'w conn" where
  "owner_call sv cl op c =
     (case op of
        Assign who ent \<Rightarrow>
          (case vendor_grant sv cl who ent c of
             ((Inl _, _), c') \<Rightarrow> (None, c') | ((Inr gs, an), c') \<Rightarrow> (Some (gs, AGrantAlreadyExists \<in> set an), c'))
      | Remove g \<Rightarrow>
          (case vendor_revoke sv cl g c of
             ((Inl _, _), c') \<Rightarrow> (None, c') | ((Inr _, an), c') \<Rightarrow> (Some ([], AGrantAlreadyRevoked \<in> set an), c')))"

text \<open>What a call makes of the reading and the writing of the owner, in any state of the API.\<close>

lemma owner_call_step:
  assumes rd: "get_vendor sv cl (op_vendor op) c = ((r, rl), c1)"
    and got: "\<And>v. r = Inr v \<Longrightarrow> ve_vendor_owner_id v = w (op_vendor op)"
    and wr: "\<And>x q c2. x = op_user op \<or> x = [] \<Longrightarrow> update_vendor_owner sv cl (op_vendor op) x c1 = (q, c2) \<Longrightarrow>
      own c2 = w(op_vendor op := x) \<or> own c2 = w \<and> \<not> is_ok (fst q)"
    and kept: "own c1 = w"
    and run: "owner_call sv cl op c = (a, c')"
  shows "owner_step op w a (own c')"
proof -
  have st: "owner_step op w None (own c')" if "own c' = w \<or> own c' = owned_after op w"
    using that owner_step.unsent owner_step.unanswered by metis
  obtain q c2 where q: "update_vendor_owner sv cl (op_vendor op) (case op of Assign _ _ \<Rightarrow> op_user op | Remove _ \<Rightarrow> []) c1 = (q, c2)"
    by (metis prod.exhaust)
  note w2 = wr [OF _ q]
  obtain q1 rl2 where q1: "q = (q1, rl2)" by (metis prod.exhaust)
  show ?thesis
  proof (cases op)
    case (Assign who ent)
    show ?thesis
      using run rd q kept w2 got st
      by (auto simp: Assign q1 owner_call_def vendor_grant_def Let_def anno_append_def owner_step_made fun_upd_idem
          is_ok_iff split: sum.splits if_splits option.splits)
  next
    case (Remove g)
    show ?thesis
      using run rd q kept w2 got st
      by (auto simp: Remove q1 owner_call_def vendor_revoke_def Let_def anno_append_def owner_step_made
          is_ok_iff split: sum.splits if_splits option.splits)
  qed
qed

end
