(* ===== verification/Audit_Feed.thy ===== *)
theory Audit_Feed
  imports Ramp_Api Resource_Types
begin

text \<open>
  \<open>src/pkg/connector/audit_event_feed.go\<close>: the audit-log event feed. The cursor and its JSON form,
  the classification of audit events, the loop over one page as a fold of one step per event, and
  \<open>ListEvents\<close> as a whole.
\<close>

section \<open>Constants\<close>

definition resource_name_vendor_merchant :: string where
  "resource_name_vendor_merchant = ''Vendor / Merchant''"

definition event_type_agreement_status_changed :: string where
  "event_type_agreement_status_changed = ''Vendor management agreement status changed''"

definition event_type_vendor_added_to_managed_list :: string where
  "event_type_vendor_added_to_managed_list = ''Vendor management  vendor added to managed list''"

definition audit_log_events_page_size :: int where
  "audit_log_events_page_size = 100"

definition vendor_management_event_types :: "string list" where
  "vendor_management_event_types =
     [event_type_vendor_added_to_managed_list,
      ''Vendor management  vendor removed from managed list'',
      ''Draft vendor created'', ''Draft vendor published'', ''Merged vendors'',
      ''Vendor placed on hold'', ''Vendor hold released'', ''Vendor imported from erp'',
      event_type_agreement_status_changed,
      ''Vendor management edited agreement field'',
      ''Vendor management agreement notification type switched'',
      ''Vendor management agreement linked document'',
      ''Vendor management agreement unlinked document'',
      ''Vendor management agreement uploaded document'',
      ''Vendor management agreement deleted document'',
      ''Vendor management agreement linked purchase order'',
      ''Vendor management agreement unlinked purchase order'',
      ''Vendor management expansion request status changed'',
      ''Generated renewal brief for contract'',
      ''Combined contracts with this contract'',
      ''Bill linked to contract'', ''Bill unlinked from contract'']"

section \<open>What an audit event is about\<close>

definition contracts_marker :: string where
  "contracts_marker = ''/contracts/''"

definition is_agreement_url :: "string \<Rightarrow> bool" where
  "is_agreement_url u = go_contains u contracts_marker"

definition agreement_id_from_url :: "string \<Rightarrow> string" where
  "agreement_id_from_url u =
     (case go_index u contracts_marker of
        None \<Rightarrow> []
      | Some i \<Rightarrow>
        let rest0 = drop (i + length contracts_marker) u in
        if rest0 = [] then []
        else
          let rest = (case go_index_any rest0 ''/?#'' of Some n \<Rightarrow> take n rest0 | None \<Rightarrow> rest0) in
          if rest = [] then []
          else (case path_unescape rest of None \<Rightarrow> rest | Some i \<Rightarrow> i))"

definition audit_event_resource_target :: "audit_reference option \<Rightarrow> string \<times> string" where
  "audit_event_resource_target ref =
     (case ref of None \<Rightarrow> ([], [])
      | Some r \<Rightarrow>
        if is_agreement_url (af_url r)
        then (vendor_agreement_resource_type_id, agreement_id_from_url (af_url r))
        else if af_id r = [] then ([], [])
        else (vendor_resource_type_id, af_id r))"

definition should_skip_audit_event :: "audit_event option \<Rightarrow> bool" where
  "should_skip_audit_event ae =
     (case ae of None \<Rightarrow> True
      | Some e \<Rightarrow>
        (case ae_primary_reference e of None \<Rightarrow> True
         | Some r \<Rightarrow>
           af_resource_name r \<noteq> resource_name_vendor_merchant
           \<or> ae_event_type e \<notin> set vendor_management_event_types
           \<or> snd (audit_event_resource_target (Some r)) = []))"

record change_event =
  ev_id :: string
  ev_occurred_at :: timestamp
  ev_resource_type :: string
  ev_resource :: string

definition to_resource_change_event :: "bool \<Rightarrow> audit_event \<Rightarrow> gotime \<Rightarrow> change_event option" where
  "to_resource_change_event agreements_enabled ae t =
     (case audit_event_resource_target (ae_primary_reference ae) of
        (rt, rid) \<Rightarrow>
          if rid = [] then None
          else if rt = vendor_agreement_resource_type_id \<and> \<not> agreements_enabled then None
          else Some \<lparr>ev_id = ae_id ae, ev_occurred_at = timestamp_of t, ev_resource_type = rt,
                     ev_resource = rid\<rparr>)"

section \<open>The cursor\<close>

record event_cursor =
  ec_next_page_token :: string
  ec_last_event_time :: gotime
  ec_last_event_ids :: "string list"
  ec_floor_event_time :: gotime
  ec_floor_event_ids :: "string list"

definition zero_event_cursor :: event_cursor where
  "zero_event_cursor =
     \<lparr>ec_next_page_token = [], ec_last_event_time = zero_time, ec_last_event_ids = [],
      ec_floor_event_time = zero_time, ec_floor_event_ids = []\<rparr>"

text \<open>\<open>Time.UnmarshalJSON\<close> and \<open>Time.MarshalJSON\<close> as members; \<open>omitempty\<close> never omits a struct, so
  the two times are always written. Go reads the raw text of the member, in which an escape is an error, and
  reads it strictly; the string here is the one behind the escapes, read as \<open>time.Parse\<close> reads it. The two agree
  on every time that \<open>MarshalJSON\<close> prints, so on every token the connector made.\<close>

definition dec_time :: "(gotime \<Rightarrow> 'a \<Rightarrow> 'a) \<Rightarrow> 'a decoder" where
  "dec_time upd j a =
     (case j of JNull \<Rightarrow> Some a | JStr s \<Rightarrow> map_option (\<lambda>t. upd t a) (parse_rfc3339 s) | _ \<Rightarrow> None)"

definition dec_string_list :: "('a \<Rightarrow> string list) \<Rightarrow> (string list \<Rightarrow> 'a \<Rightarrow> 'a) \<Rightarrow> 'a decoder" where
  "dec_string_list get upd = dec_list (dec_string (\<lambda>s _. s)) [] get upd"

definition decode_cursor_fields :: "event_cursor decoder" where
  "decode_cursor_fields = decode_struct
     [(''next_page_token'', dec_string (\<lambda>x c. c\<lparr>ec_next_page_token := x\<rparr>)),
      (''last_event_time'', dec_time (\<lambda>x c. c\<lparr>ec_last_event_time := x\<rparr>)),
      (''last_event_ids'', dec_string_list ec_last_event_ids (\<lambda>x c. c\<lparr>ec_last_event_ids := x\<rparr>)),
      (''floor_event_time'', dec_time (\<lambda>x c. c\<lparr>ec_floor_event_time := x\<rparr>)),
      (''floor_event_ids'', dec_string_list ec_floor_event_ids (\<lambda>x c. c\<lparr>ec_floor_event_ids := x\<rparr>))]"

definition decode_event_page_token :: "string \<Rightarrow> gerror + event_cursor" where
  "decode_event_page_token s =
     (if s = [] then Inr zero_event_cursor
      else case unmarshal decode_cursor_fields s zero_event_cursor of
             None \<Rightarrow> Inl (Wrap [S ''baton-ramp: failed to decode event page token: ''] (Plain [S ''json'']) [])
           | Some c \<Rightarrow> Inr c)"

definition json_of_cursor :: "event_cursor \<Rightarrow> json option" where
  "json_of_cursor c =
     (case (marshal_time (ec_last_event_time c), marshal_time (ec_floor_event_time c)) of
        (Some lt, Some ft) \<Rightarrow> Some (JObj
          ((if ec_next_page_token c = [] then [] else [(''next_page_token'', JStr (ec_next_page_token c))])
           @ [(''last_event_time'', JStr lt)]
           @ (if ec_last_event_ids c = [] then [] else [(''last_event_ids'', JArr (map JStr (ec_last_event_ids c)))])
           @ [(''floor_event_time'', JStr ft)]
           @ (if ec_floor_event_ids c = [] then [] else [(''floor_event_ids'', JArr (map JStr (ec_floor_event_ids c)))])))
      | _ \<Rightarrow> None)"

definition encode_event_page_token :: "event_cursor option \<Rightarrow> gerror + string" where
  "encode_event_page_token c =
     (case c of None \<Rightarrow> Inr []
      | Some c \<Rightarrow>
        (case json_of_cursor c of
           None \<Rightarrow> Inl (Wrap [S ''baton-ramp: failed to encode event page token: ''] (Plain [S ''json'']) [])
         | Some j \<Rightarrow> Inr (print_json j)))"

text \<open>Sets of event identifiers: a \<open>map[string]struct{}\<close> that never holds the empty string.\<close>

definition event_id_set :: "string list \<Rightarrow> string set" where
  "event_id_set ids = set (filter (\<lambda>i. i \<noteq> []) ids)"

definition add_event_id :: "string set \<Rightarrow> string \<Rightarrow> string set" where
  "add_event_id A i = (if i = [] then A else insert i A)"

definition sorted_event_ids :: "string set \<Rightarrow> string list" where
  "sorted_event_ids A = sorted_keys A"

section \<open>One page\<close>

record feed_acc =
  fa_events :: "change_event list"
  fa_max_time :: gotime
  fa_max_ids :: "string set"
  fa_parsed :: bool
  fa_descending :: bool
  fa_all_before :: bool
  fa_previous :: gotime

definition equal_floor_unseen :: "gotime \<Rightarrow> string set \<Rightarrow> audit_event \<Rightarrow> gotime \<Rightarrow> bool" where
  "equal_floor_unseen floor ids ae t =
     (\<not> is_zero floor \<and> time_eq t floor \<and> ae_id ae \<noteq> [] \<and> ae_id ae \<notin> ids)"

definition already_seen :: "gotime \<Rightarrow> string set \<Rightarrow> audit_event \<Rightarrow> gotime \<Rightarrow> bool" where
  "already_seen floor ids ae t =
     (\<not> is_zero floor \<and>
      (before t floor \<or> (time_eq t floor \<and> (ae_id ae = [] \<or> ae_id ae \<in> ids))))"

text \<open>The body of the loop over the page's events. A nil event is dereferenced at its first use.\<close>

definition feed_step ::
    "bool \<Rightarrow> gotime \<Rightarrow> string set \<Rightarrow> feed_acc \<Rightarrow> audit_event option \<Rightarrow> gerror + feed_acc" where
  "feed_step enabled floor ids acc ae0 =
     (case ae0 of None \<Rightarrow> Inl nil_dereference
      | Some ae \<Rightarrow>
        (case parse_rfc3339 (ae_event_time ae) of
           None \<Rightarrow> Inr (acc\<lparr>fa_all_before := False\<rparr>)
         | Some t \<Rightarrow>
           let acc1 = acc\<lparr>fa_descending := (if fa_parsed acc \<and> after t (fa_previous acc) then False
                                            else fa_descending acc),
                          fa_parsed := True, fa_previous := t\<rparr>;
               acc2 = (if is_zero floor \<or> after t floor \<or> equal_floor_unseen floor ids ae t
                       then acc1\<lparr>fa_all_before := False\<rparr> else acc1);
               acc3 = (if after t (fa_max_time acc2)
                       then acc2\<lparr>fa_max_time := t, fa_max_ids := add_event_id {} (ae_id ae)\<rparr>
                       else if time_eq t (fa_max_time acc2)
                       then acc2\<lparr>fa_max_ids := add_event_id (fa_max_ids acc2) (ae_id ae)\<rparr>
                       else acc2)
           in if already_seen floor ids ae t then Inr acc3
              else if should_skip_audit_event (Some ae) then Inr acc3
              else (case to_resource_change_event enabled ae t of
                  None \<Rightarrow> Inr acc3
                | Some ev \<Rightarrow> Inr (acc3\<lparr>fa_events := fa_events acc3 @ [ev]\<rparr>))))"

fun feed_loop ::
    "bool \<Rightarrow> gotime \<Rightarrow> string set \<Rightarrow> feed_acc \<Rightarrow> audit_event option list \<Rightarrow> gerror + feed_acc" where
  "feed_loop enabled floor ids acc [] = Inr acc"
| "feed_loop enabled floor ids acc (ae # aes) =
     (case feed_step enabled floor ids acc ae of
        Inl e \<Rightarrow> Inl e | Inr acc' \<Rightarrow> feed_loop enabled floor ids acc' aes)"

text \<open>The floor of a page and the identifiers seen at it.\<close>

definition feed_floor :: "timestamp option \<Rightarrow> event_cursor \<Rightarrow> gotime \<times> string set" where
  "feed_floor earliest cur =
     (let f0 = (case earliest of None \<Rightarrow> zero_time | Some ts \<Rightarrow> as_time ts);
          ids0 = event_id_set (ec_last_event_ids cur)
      in if ec_next_page_token cur \<noteq> [] then
           (if is_zero (ec_floor_event_time cur) then (f0, ids0)
            else (ec_floor_event_time cur, event_id_set (ec_floor_event_ids cur)))
         else if after (ec_last_event_time cur) f0
         then (ec_last_event_time cur, event_id_set (ec_last_event_ids cur))
         else (f0, ids0))"

definition initial_acc :: "gotime \<Rightarrow> event_cursor \<Rightarrow> feed_acc" where
  "initial_acc floor cur =
     \<lparr>fa_events = [], fa_max_time = ec_last_event_time cur,
      fa_max_ids = event_id_set (ec_last_event_ids cur), fa_parsed = False, fa_descending = True,
      fa_all_before = \<not> is_zero floor, fa_previous = zero_time\<rparr>"

text \<open>The token of the next page, dropped when a descending page holds nothing new.\<close>

definition effective_next :: "string \<Rightarrow> feed_acc \<Rightarrow> string" where
  "effective_next next acc =
     (if next \<noteq> [] \<and> fa_parsed acc \<and> fa_descending acc \<and> fa_all_before acc then [] else next)"

definition next_cursor :: "gotime \<Rightarrow> string set \<Rightarrow> string \<Rightarrow> feed_acc \<Rightarrow> event_cursor" where
  "next_cursor floor ids next acc =
     (let tok = effective_next next acc;
          c = zero_event_cursor\<lparr>ec_next_page_token := tok, ec_last_event_time := fa_max_time acc,
                ec_last_event_ids := sorted_event_ids (fa_max_ids acc)\<rparr>
      in if tok \<noteq> [] then c\<lparr>ec_floor_event_time := floor, ec_floor_event_ids := sorted_event_ids ids\<rparr>
         else c)"

definition feed_page ::
    "bool \<Rightarrow> timestamp option \<Rightarrow> event_cursor \<Rightarrow> audit_event option list \<Rightarrow> string
       \<Rightarrow> gerror + (change_event list \<times> event_cursor)" where
  "feed_page enabled earliest cur aes next =
     (case feed_floor earliest cur of (floor, ids) \<Rightarrow>
        (case feed_loop enabled floor ids (initial_acc floor cur) aes of
           Inl e \<Rightarrow> Inl e
         | Inr acc \<Rightarrow> Inr (fa_events acc, next_cursor floor ids next acc)))"

section \<open>ListEvents\<close>

record stream_state =
  ss_cursor :: string
  ss_has_more :: bool

record audit_feed =
  fd_agreements_enabled :: bool

definition list_events ::
    "'w svc \<Rightarrow> 'w client \<Rightarrow> audit_feed \<Rightarrow> timestamp option \<Rightarrow> string \<Rightarrow> 'w conn
       \<Rightarrow> ((gerror + (change_event list \<times> stream_state)) \<times> annotation list) \<times> 'w conn" where
  "list_events sv cl f earliest token c =
     (case decode_event_page_token token of
        Inl e \<Rightarrow> ((Inl e, []), c)
      | Inr cur \<Rightarrow>
        (case list_audit_log_events sv cl audit_log_events_page_size (ec_next_page_token cur) c of
           ((r, rl), c') \<Rightarrow>
             let annos = with_rate_limiting [] rl in
             (case r of
                Inl e \<Rightarrow> ((Inl e, annos), c')
              | Inr (aes, next) \<Rightarrow>
                (case feed_page (fd_agreements_enabled f) earliest cur aes next of
                   Inl e \<Rightarrow> ((Inl e, annos), c')
                 | Inr (evs, cur') \<Rightarrow>
                   (case encode_event_page_token (Some cur') of
                      Inl e \<Rightarrow> ((Inl e, annos), c')
                    | Inr s \<Rightarrow>
                      ((Inr (evs, \<lparr>ss_cursor = s, ss_has_more = ec_next_page_token cur' \<noteq> []\<rparr>), annos), c'))))))"

end
