(* ===== verification/Feed_Loop.thy ===== *)
theory Feed_Loop
  imports Audit_Feed
begin

text \<open>
  Facts about one call of the audit feed: what the loop over a page computes, that a cursor survives
  its encoding, and what the cursor of the next call holds.
\<close>

section \<open>What the loop computes\<close>

definition event_time :: "audit_event \<Rightarrow> gotime option" where
  "event_time ae = parse_rfc3339 (ae_event_time ae)"

text \<open>The change event one audit event gives rise to, if any.\<close>

definition emits :: "bool \<Rightarrow> gotime \<Rightarrow> string set \<Rightarrow> audit_event \<Rightarrow> change_event option" where
  "emits enabled floor ids ae =
     (case event_time ae of None \<Rightarrow> None
      | Some t \<Rightarrow>
        if already_seen floor ids ae t \<or> should_skip_audit_event (Some ae) then None
        else to_resource_change_event enabled ae t)"

definition emitted :: "bool \<Rightarrow> gotime \<Rightarrow> string set \<Rightarrow> audit_event list \<Rightarrow> change_event list" where
  "emitted enabled floor ids aes = List.map_filter (emits enabled floor ids) aes"

text \<open>The events with a readable time, each with it.\<close>

definition timed :: "audit_event list \<Rightarrow> (audit_event \<times> gotime) list" where
  "timed aes = List.map_filter (\<lambda>ae. map_option (\<lambda>t. (ae, t)) (event_time ae)) aes"

definition latest :: "int \<Rightarrow> audit_event list \<Rightarrow> int" where
  "latest z aes = fold (\<lambda>(_, t) m. max m (t_ns t)) (timed aes) z"

definition ids_at :: "int \<Rightarrow> audit_event list \<Rightarrow> string set" where
  "ids_at z aes = {ae_id ae | ae t. (ae, t) \<in> set (timed aes) \<and> t_ns t = z \<and> ae_id ae \<noteq> []}"

definition seen_or_before :: "gotime \<Rightarrow> string set \<Rightarrow> audit_event \<Rightarrow> gotime \<Rightarrow> bool" where
  "seen_or_before floor ids ae t =
     (\<not> is_zero floor \<and> \<not> after t floor \<and> \<not> equal_floor_unseen floor ids ae t)"

fun descending_from :: "gotime option \<Rightarrow> (audit_event \<times> gotime) list \<Rightarrow> bool" where
  "descending_from p [] = True"
| "descending_from p ((_, t) # ts) =
     ((case p of None \<Rightarrow> True | Some q \<Rightarrow> \<not> after t q) \<and> descending_from (Some t) ts)"

lemma timed_simps [simp]:
  "timed [] = []"
  "timed (ae # aes) = (case event_time ae of None \<Rightarrow> timed aes | Some t \<Rightarrow> (ae, t) # timed aes)"
  by (simp_all add: timed_def map_filter_simps split: option.splits)

lemma emitted_simps [simp]:
  "emitted en fl ids [] = []"
  "emitted en fl ids (ae # aes) =
     (case emits en fl ids ae of None \<Rightarrow> emitted en fl ids aes | Some ev \<Rightarrow> ev # emitted en fl ids aes)"
  by (simp_all add: emitted_def map_filter_simps split: option.splits)

lemma emitted_append: "emitted en fl ids (xs @ ys) = emitted en fl ids xs @ emitted en fl ids ys"
  by (induction xs) (auto split: option.splits)

lemma latest_simps [simp]:
  "latest z [] = z"
  "latest z (ae # aes) =
     (case event_time ae of None \<Rightarrow> latest z aes | Some t \<Rightarrow> latest (max z (t_ns t)) aes)"
  by (simp_all add: latest_def split: option.splits)

lemma latest_ge: "z \<le> latest z aes"
proof (induction aes arbitrary: z)
  case (Cons ae aes)
  have "max z t \<le> latest (max z t) aes" for t by (rule Cons.IH)
  then show ?case using Cons.IH [of z] by (auto split: option.splits dest: max.boundedE)
qed simp

lemma latest_upper: "(ae, t) \<in> set (timed aes) \<Longrightarrow> t_ns t \<le> latest z aes"
proof (induction aes arbitrary: z)
  case (Cons a aes)
  have "max z s \<le> latest (max z s) aes" for s by (rule latest_ge)
  with Cons show ?case by (auto split: option.splits)
qed simp

lemma ids_at_Nil [simp]: "ids_at z [] = {}"
  by (simp add: ids_at_def)

lemma ids_at_Cons:
  "ids_at z (ae # aes) =
     (case event_time ae of
        Some t \<Rightarrow> if t_ns t = z \<and> ae_id ae \<noteq> [] then insert (ae_id ae) (ids_at z aes) else ids_at z aes
      | None \<Rightarrow> ids_at z aes)"
  by (auto simp: ids_at_def split: option.splits)

text \<open>The accumulator after the step of one event with a readable time.\<close>

definition timed_step ::
    "bool \<Rightarrow> gotime \<Rightarrow> string set \<Rightarrow> audit_event \<Rightarrow> gotime \<Rightarrow> feed_acc \<Rightarrow> feed_acc" where
  "timed_step enabled floor ids ae t acc =
     \<lparr>fa_events = fa_events acc @ (case emits enabled floor ids ae of None \<Rightarrow> [] | Some ev \<Rightarrow> [ev]),
      fa_max_time = (if after t (fa_max_time acc) then t else fa_max_time acc),
      fa_max_ids =
        (if after t (fa_max_time acc) then add_event_id {} (ae_id ae)
         else if time_eq t (fa_max_time acc) then add_event_id (fa_max_ids acc) (ae_id ae)
         else fa_max_ids acc),
      fa_parsed = True,
      fa_descending = (fa_descending acc \<and> \<not> (fa_parsed acc \<and> after t (fa_previous acc))),
      fa_all_before = (fa_all_before acc \<and> seen_or_before floor ids ae t),
      fa_previous = t\<rparr>"

lemma feed_step_timed:
  assumes "event_time ae = Some t"
  shows "feed_step enabled floor ids acc (Some ae) = Inr (timed_step enabled floor ids ae t acc)"
proof -
  have p: "parse_rfc3339 (ae_event_time ae) = Some t" using assms by (simp add: event_time_def)
  define upd where "upd = (timed_step enabled floor ids ae t acc)\<lparr>fa_events := fa_events acc\<rparr>"
  have "feed_step enabled floor ids acc (Some ae) =
      (if already_seen floor ids ae t then Inr upd
       else if should_skip_audit_event (Some ae) then Inr upd
       else (case to_resource_change_event enabled ae t of
           None \<Rightarrow> Inr upd | Some ev \<Rightarrow> Inr (upd\<lparr>fa_events := fa_events acc @ [ev]\<rparr>)))"
    unfolding feed_step_def option.case p Let_def upd_def timed_step_def
    by (cases acc) (auto simp: seen_or_before_def split: option.splits)
  then show ?thesis
    by (auto simp: upd_def emits_def assms timed_step_def split: option.splits)
qed

lemma feed_step_untimed:
  "event_time ae = None \<Longrightarrow>
     feed_step enabled floor ids acc (Some ae) = Inr (acc\<lparr>fa_all_before := False\<rparr>)"
  by (simp add: feed_step_def event_time_def)


text \<open>The state after a page, all of it.\<close>

definition acc_after ::
    "bool \<Rightarrow> gotime \<Rightarrow> string set \<Rightarrow> audit_event list \<Rightarrow> feed_acc \<Rightarrow> feed_acc \<Rightarrow> bool" where
  "acc_after enabled floor ids aes acc acc' =
     (fa_events acc' = fa_events acc @ emitted enabled floor ids aes
      \<and> t_ns (fa_max_time acc') = latest (t_ns (fa_max_time acc)) aes
      \<and> (fa_max_time acc' = fa_max_time acc \<or> (\<exists>ae. (ae, fa_max_time acc') \<in> set (timed aes)))
      \<and> fa_max_ids acc' =
          (if t_ns (fa_max_time acc') = t_ns (fa_max_time acc) then fa_max_ids acc else {})
          \<union> ids_at (t_ns (fa_max_time acc')) aes
      \<and> (fa_parsed acc' \<longleftrightarrow> fa_parsed acc \<or> timed aes \<noteq> [])
      \<and> (fa_descending acc' \<longleftrightarrow> fa_descending acc
           \<and> descending_from (if fa_parsed acc then Some (fa_previous acc) else None) (timed aes))
      \<and> (fa_all_before acc' \<longleftrightarrow> fa_all_before acc
           \<and> (\<forall>ae \<in> set aes. event_time ae \<noteq> None)
           \<and> (\<forall>(ae, t) \<in> set (timed aes). seen_or_before floor ids ae t)))"

lemma feed_loop_after:
  "\<exists>acc'. feed_loop enabled floor ids acc (map Some aes) = Inr acc'
      \<and> acc_after enabled floor ids aes acc acc'"
proof (induction aes arbitrary: acc)
  case Nil
  then show ?case by (simp add: acc_after_def)
next
  case (Cons ae aes)
  show ?case
  proof (cases "event_time ae")
    case None
    obtain acc' where l: "feed_loop enabled floor ids (acc\<lparr>fa_all_before := False\<rparr>) (map Some aes) = Inr acc'"
      and a: "acc_after enabled floor ids aes (acc\<lparr>fa_all_before := False\<rparr>) acc'" using Cons by blast
    have "acc_after enabled floor ids (ae # aes) acc acc'"
      using a None by (auto simp: acc_after_def emits_def ids_at_Cons)
    with l None show ?thesis by (simp add: feed_step_untimed)
  next
    case (Some t)
    let ?acc1 = "timed_step enabled floor ids ae t acc"
    obtain acc' where l: "feed_loop enabled floor ids ?acc1 (map Some aes) = Inr acc'"
      and a: "acc_after enabled floor ids aes ?acc1 acc'" using Cons by blast
    have m: "t_ns (fa_max_time ?acc1) = max (t_ns (fa_max_time acc)) (t_ns t)"
      by (simp add: timed_step_def after_def)
    have top: "t_ns (fa_max_time acc') \<ge> max (t_ns (fa_max_time acc)) (t_ns t)"
      using a m latest_ge unfolding acc_after_def by metis
    have ids: "fa_max_ids acc' =
        (if t_ns (fa_max_time acc') = t_ns (fa_max_time acc) then fa_max_ids acc else {})
        \<union> ids_at (t_ns (fa_max_time acc')) (ae # aes)"
      using a top Some unfolding acc_after_def m
      by (auto simp: ids_at_Cons timed_step_def add_event_id_def after_def time_eq_def max_def
          split: if_splits)
    note parts = a [unfolded acc_after_def]
    have "acc_after enabled floor ids (ae # aes) acc acc'"
      unfolding acc_after_def
    proof (intro conjI)
      show "fa_events acc' = fa_events acc @ emitted enabled floor ids (ae # aes)"
        using parts by (simp add: timed_step_def split: option.splits)
      show "t_ns (fa_max_time acc') = latest (t_ns (fa_max_time acc)) (ae # aes)"
        using parts Some by (simp only: m) simp
      show "fa_max_time acc' = fa_max_time acc \<or> (\<exists>ae'. (ae', fa_max_time acc') \<in> set (timed (ae # aes)))"
        using parts Some by (auto simp: timed_step_def split: if_splits)
      show "fa_max_ids acc' = (if t_ns (fa_max_time acc') = t_ns (fa_max_time acc) then fa_max_ids acc else {})
          \<union> ids_at (t_ns (fa_max_time acc')) (ae # aes)" by (rule ids)
      show "fa_parsed acc' \<longleftrightarrow> fa_parsed acc \<or> timed (ae # aes) \<noteq> []"
        using parts Some by (simp add: timed_step_def)
      show "fa_descending acc' \<longleftrightarrow> fa_descending acc
          \<and> descending_from (if fa_parsed acc then Some (fa_previous acc) else None) (timed (ae # aes))"
        using parts Some by (simp add: timed_step_def)
      show "fa_all_before acc' \<longleftrightarrow> fa_all_before acc \<and> (\<forall>ae' \<in> set (ae # aes). event_time ae' \<noteq> None)
          \<and> (\<forall>(ae', t) \<in> set (timed (ae # aes)). seen_or_before floor ids ae' t)"
        using parts Some by (auto simp: timed_step_def)
    qed
    with l Some show ?thesis by (simp add: feed_step_timed)
  qed
qed

lemma feed_loop_nil:
  "None \<in> set aes \<Longrightarrow> feed_loop enabled floor ids acc aes = Inl nil_dereference"
proof (induction aes arbitrary: acc)
  case (Cons a aes)
  show ?case
  proof (cases a)
    case None
    then show ?thesis by (simp add: feed_step_def)
  next
    case (Some ae)
    with Cons show ?thesis
      by (cases "event_time ae") (auto simp: feed_step_timed feed_step_untimed)
  qed
qed simp

text \<open>A page either holds a nil event or is a list of events.\<close>

lemma page_cases: "None \<in> set aes \<or> (\<exists>es. aes = map Some es)"
proof (induction aes)
  case (Cons a aes)
  show ?case
  proof (cases a)
    case (Some e)
    from Cons consider "None \<in> set aes" | es where "aes = map Some es" by blast
    then show ?thesis
    proof cases
      case 2
      with Some have "a # aes = map Some (e # es)" by simp
      then show ?thesis by (intro disjI2) (rule exI)
    qed simp
  qed simp
qed simp

section \<open>The cursor\<close>

definition cursor_ok :: "event_cursor \<Rightarrow> bool" where
  "cursor_ok c =
     (valid_utf8 (ec_next_page_token c) \<and> list_all valid_utf8 (ec_last_event_ids c)
      \<and> list_all valid_utf8 (ec_floor_event_ids c)
      \<and> time_printable (ec_last_event_time c) \<and> t_off (ec_last_event_time c) mod 60 = 0
      \<and> time_printable (ec_floor_event_time c) \<and> t_off (ec_floor_event_time c) mod 60 = 0)"

lemma decode_strings: "decode_elems (dec_string (\<lambda>s _. s)) [] (map JStr ids) old = Some ids"
  by (induction ids arbitrary: old) auto

lemma dec_string_list_JArr: "dec_string_list g u (JArr (map JStr ids)) a = Some (u ids a)"
  by (simp add: dec_string_list_def dec_list_def decode_strings)

lemma dec_time_JStr:
  "time_printable t \<Longrightarrow> t_off t mod 60 = 0 \<Longrightarrow> dec_time u (JStr (show_rfc3339_nano t)) a = Some (u t a)"
  by (simp add: dec_time_def parse_show_rfc3339)

lemma cursor_keys [simp]:
  "find_field [(''next_page_token'', d1), (''last_event_time'', d2), (''last_event_ids'', d3),
               (''floor_event_time'', d4), (''floor_event_ids'', d5)] ''next_page_token'' = Some d1"
  "find_field [(''next_page_token'', d1), (''last_event_time'', d2), (''last_event_ids'', d3),
               (''floor_event_time'', d4), (''floor_event_ids'', d5)] ''last_event_time'' = Some d2"
  "find_field [(''next_page_token'', d1), (''last_event_time'', d2), (''last_event_ids'', d3),
               (''floor_event_time'', d4), (''floor_event_ids'', d5)] ''last_event_ids'' = Some d3"
  "find_field [(''next_page_token'', d1), (''last_event_time'', d2), (''last_event_ids'', d3),
               (''floor_event_time'', d4), (''floor_event_ids'', d5)] ''floor_event_time'' = Some d4"
  "find_field [(''next_page_token'', d1), (''last_event_time'', d2), (''last_event_ids'', d3),
               (''floor_event_time'', d4), (''floor_event_ids'', d5)] ''floor_event_ids'' = Some d5"
  by (simp_all add: key_matches_ascii fold_rune_def)

lemma ascii_pad_digits [simp]: "ascii (pad_digits k n)"
  by (induction k arbitrary: n) (simp_all add: digit_char_def)

lemma ascii_take_drop: "ascii (a @ b) \<Longrightarrow> ascii a"
  by simp

lemma ascii_drop_zeros: "ascii s \<Longrightarrow> ascii (drop_zeros s)"
  using drop_zeros_prefix [of s] ascii_take_drop by metis

lemma ascii_show_time: "ascii (show_rfc3339_nano t)"
proof -
  have "ascii (show_zone z)" for z by (simp add: show_zone_def Let_def)
  moreover have "ascii (show_fraction f)" for f by (simp add: show_fraction_def ascii_drop_zeros)
  ultimately show ?thesis by (simp add: show_rfc3339_nano_def Let_def split: prod.split)
qed

lemma depth_strings: "fold max (map depth (map JStr ids)) 0 = 0"
  by (induction ids) simp_all

lemma decode_encode_cursor:
  assumes "cursor_ok c"
  shows "\<exists>s. encode_event_page_token (Some c) = Inr s \<and> decode_event_page_token s = Inr c"
proof -
  obtain lt ft where m: "marshal_time (ec_last_event_time c) = Some lt" "marshal_time (ec_floor_event_time c) = Some ft"
    and lt: "lt = show_rfc3339_nano (ec_last_event_time c)" and ft: "ft = show_rfc3339_nano (ec_floor_event_time c)"
    using assms by (auto simp: cursor_ok_def marshal_time_def)
  obtain j where j: "json_of_cursor c = Some j" using m by (auto simp: json_of_cursor_def)
  have keys: "valid_utf8 ''next_page_token''" "valid_utf8 ''last_event_time''" "valid_utf8 ''last_event_ids''"
    "valid_utf8 ''floor_event_time''" "valid_utf8 ''floor_event_ids''"
    by (rule valid_utf8_ascii, simp)+
  have "valid_utf8 lt" "valid_utf8 ft" unfolding lt ft by (simp_all add: valid_utf8_ascii ascii_show_time)
  then have wf: "wf_json j"
    using j m assms keys by (auto simp: json_of_cursor_def cursor_ok_def list_all_iff)
  have dp: "depth j \<le> max_nesting"
    using j m by (auto simp: json_of_cursor_def fold_max_le max_nesting_def depth_strings simp del: map_map list.map_comp)
  have t: "dec_time u (JStr lt) a = Some (u (ec_last_event_time c) a)"
    "dec_time u (JStr ft) a = Some (u (ec_floor_event_time c) a)" for u and a :: event_cursor
    using assms unfolding lt ft by (simp_all add: cursor_ok_def dec_time_JStr)
  have "decode_cursor_fields j zero_event_cursor = Some c"
    using j m t
    by (cases c) (auto simp: json_of_cursor_def decode_cursor_fields_def dec_string_list_JArr
        zero_event_cursor_def simp del: find_field.simps)
  then have "unmarshal decode_cursor_fields (print_json j) zero_event_cursor = Some c"
    by (simp add: unmarshal_print [OF wf dp])
  moreover have "print_json j \<noteq> []" using print_json_head [OF wf] by auto
  ultimately show ?thesis
    by (simp add: encode_event_page_token_def decode_event_page_token_def j)
qed


section \<open>Polls\<close>

text \<open>What \<open>ListEvents\<close> hands out is always a cursor it can read back, as long as the stored one is
  and the times it sees can be printed.\<close>

definition event_ok :: "audit_event \<Rightarrow> bool" where
  "event_ok ae =
     (valid_utf8 (ae_id ae) \<and> (case event_time ae of None \<Rightarrow> True | Some t \<Rightarrow> time_printable t))"

lemma event_time_minutes: "event_time ae = Some t \<Longrightarrow> t_off t mod 60 = 0"
  by (simp add: event_time_def parse_rfc3339_offset)

lemma timed_event: "(ae, t) \<in> set (timed aes) \<longleftrightarrow> ae \<in> set aes \<and> event_time ae = Some t"
  by (induction aes) (auto split: option.splits)

lemma finite_event_id_set [simp]: "finite (event_id_set ids)"
  by (simp add: event_id_set_def)

lemma finite_ids_at [simp]: "finite (ids_at z aes)"
proof -
  have "ids_at z aes \<subseteq> ae_id ` set aes" by (auto simp: ids_at_def timed_event)
  then show ?thesis by (rule finite_subset) simp
qed

lemma valid_event_id_set: "list_all valid_utf8 ids \<Longrightarrow> i \<in> event_id_set ids \<Longrightarrow> valid_utf8 i"
  by (auto simp: event_id_set_def list_all_iff)

lemma zero_time_printable: "time_printable zero_time"
  by (simp add: time_printable_def zero_time_def local_year_def local_days_def date_of_days_def
      year_of_days_def days_before_year_def Let_def)

lemma is_zero_iff: "is_zero t \<Longrightarrow> t_ns t = 0"
  by (simp add: is_zero_def)

definition floor_ok :: "timestamp option \<Rightarrow> bool" where
  "floor_ok earliest = (case earliest of None \<Rightarrow> True | Some ts \<Rightarrow> time_printable (as_time ts))"

lemma feed_floor_ok:
  assumes "cursor_ok cur" "floor_ok earliest" "feed_floor earliest cur = (floor, ids)"
  shows "time_printable floor" "t_off floor mod 60 = 0" "finite ids" "\<And>i. i \<in> ids \<Longrightarrow> valid_utf8 i"
proof -
  have "time_printable (case earliest of None \<Rightarrow> zero_time | Some ts \<Rightarrow> as_time ts)"
    using assms(2) by (auto simp: floor_ok_def zero_time_printable split: option.splits)
  moreover have "t_off (case earliest of None \<Rightarrow> zero_time | Some ts \<Rightarrow> as_time ts) mod 60 = 0"
    by (auto simp: zero_time_def as_time_def split: option.splits)
  ultimately show "time_printable floor" "t_off floor mod 60 = 0" "finite ids" "\<And>i. i \<in> ids \<Longrightarrow> valid_utf8 i"
    using assms(1,3) by (auto simp: feed_floor_def Let_def cursor_ok_def valid_event_id_set split: if_splits)
qed

lemma next_cursor_ok:
  assumes cur: "cursor_ok cur" and fl: "floor_ok earliest" and evs: "list_all event_ok aes"
    and nx: "valid_utf8 next"
    and page: "feed_page enabled earliest cur (map Some aes) next = Inr (evs', cur')"
  shows "cursor_ok cur'"
proof -
  obtain floor ids where f: "feed_floor earliest cur = (floor, ids)" by fastforce
  obtain acc where l: "feed_loop enabled floor ids (initial_acc floor cur) (map Some aes) = Inr acc"
    and a: "acc_after enabled floor ids aes (initial_acc floor cur) acc"
    using feed_loop_after by blast
  have c': "cur' = next_cursor floor ids next acc"
    using page by (simp add: feed_page_def f l)
  note fo = feed_floor_ok [OF cur fl f]
  have mt: "time_printable (fa_max_time acc) \<and> t_off (fa_max_time acc) mod 60 = 0"
  proof -
    from a consider "fa_max_time acc = ec_last_event_time cur"
      | ae where "(ae, fa_max_time acc) \<in> set (timed aes)"
      by (auto simp: acc_after_def initial_acc_def)
    then show ?thesis
    proof cases
      case 1 with cur show ?thesis by (simp add: cursor_ok_def)
    next
      case 2
      then show ?thesis using evs event_time_minutes
        by (force simp: timed_event list_all_iff event_ok_def)
    qed
  qed
  have ids_eq: "fa_max_ids acc =
      (if t_ns (fa_max_time acc) = t_ns (ec_last_event_time cur) then event_id_set (ec_last_event_ids cur) else {})
      \<union> ids_at (t_ns (fa_max_time acc)) aes"
    using a by (simp add: acc_after_def initial_acc_def)
  have fin: "finite (fa_max_ids acc)" unfolding ids_eq by simp
  have val: "valid_utf8 i" if "i \<in> fa_max_ids acc" for i
  proof -
    from that consider "i \<in> event_id_set (ec_last_event_ids cur)" | "i \<in> ids_at (t_ns (fa_max_time acc)) aes"
      unfolding ids_eq by (auto split: if_splits)
    then show ?thesis
    proof cases
      case 1 then show ?thesis using cur valid_event_id_set by (auto simp: cursor_ok_def)
    next
      case 2
      then obtain ae where "ae \<in> set aes" "i = ae_id ae" by (auto simp: ids_at_def timed_event)
      with evs show ?thesis by (auto simp: list_all_iff event_ok_def)
    qed
  qed
  show ?thesis unfolding c'
    using fo mt fin val nx zero_time_printable
    by (auto simp: next_cursor_def Let_def cursor_ok_def zero_event_cursor_def effective_next_def
        sorted_event_ids_def list_all_iff zero_time_def)
qed

lemma feed_page_cases:
  assumes "feed_page enabled earliest cur aes next = Inr (evs, cur')"
    and "feed_floor earliest cur = (floor, ids)"
  obtains es acc where "aes = map Some es"
    "acc_after enabled floor ids es (initial_acc floor cur) acc"
    "evs = emitted enabled floor ids es" "cur' = next_cursor floor ids next acc"
proof -
  have "None \<notin> set aes"
    using assms feed_loop_nil by (auto simp: feed_page_def)
  then obtain es where es: "aes = map Some es" using page_cases by blast
  obtain acc where l: "feed_loop enabled floor ids (initial_acc floor cur) (map Some es) = Inr acc"
    and a: "acc_after enabled floor ids es (initial_acc floor cur) acc"
    using feed_loop_after by blast
  have "evs = emitted enabled floor ids es" "cur' = next_cursor floor ids next acc"
    using assms l a by (simp_all add: feed_page_def es acc_after_def initial_acc_def)
  with es a that show ?thesis by blast
qed

lemma feed_page_total:
  assumes "feed_floor earliest cur = (floor, ids)"
  shows "\<exists>cur'. feed_page enabled earliest cur (map Some es) next = Inr (emitted enabled floor ids es, cur')"
proof -
  obtain acc where l: "feed_loop enabled floor ids (initial_acc floor cur) (map Some es) = Inr acc"
    and a: "acc_after enabled floor ids es (initial_acc floor cur) acc"
    using feed_loop_after by blast
  then show ?thesis using assms by (simp add: feed_page_def l acc_after_def initial_acc_def)
qed

lemma next_cursor_fields [simp]:
  "ec_next_page_token (next_cursor floor ids next acc) = effective_next next acc"
  "ec_last_event_time (next_cursor floor ids next acc) = fa_max_time acc"
  "ec_last_event_ids (next_cursor floor ids next acc) = sorted_event_ids (fa_max_ids acc)"
  "ec_floor_event_time (next_cursor floor ids next acc) = (if effective_next next acc = [] then zero_time else floor)"
  "ec_floor_event_ids (next_cursor floor ids next acc) = (if effective_next next acc = [] then [] else sorted_event_ids ids)"
  by (simp_all add: next_cursor_def Let_def zero_event_cursor_def)

text \<open>The last time and identifiers of the cursor after a page.\<close>

lemma next_cursor_last:
  assumes "acc_after enabled floor ids es (initial_acc floor cur) acc"
  shows "t_ns (fa_max_time acc) = latest (t_ns (ec_last_event_time cur)) es"
    "fa_max_ids acc =
       (if t_ns (fa_max_time acc) = t_ns (ec_last_event_time cur) then event_id_set (ec_last_event_ids cur) else {})
       \<union> ids_at (t_ns (fa_max_time acc)) es"
    "finite (fa_max_ids acc)" "[] \<notin> fa_max_ids acc"
proof -
  show "t_ns (fa_max_time acc) = latest (t_ns (ec_last_event_time cur)) es"
    using assms by (simp add: acc_after_def initial_acc_def)
  show eq: "fa_max_ids acc =
       (if t_ns (fa_max_time acc) = t_ns (ec_last_event_time cur) then event_id_set (ec_last_event_ids cur) else {})
       \<union> ids_at (t_ns (fa_max_time acc)) es"
    using assms by (simp add: acc_after_def initial_acc_def)
  show "finite (fa_max_ids acc)" unfolding eq by simp
  have "[] \<notin> event_id_set ids" "[] \<notin> ids_at z es" for ids z
    by (simp_all add: event_id_set_def ids_at_def)
  then show "[] \<notin> fa_max_ids acc" unfolding eq by simp
qed

section \<open>Delivering an event once\<close>

lemma emits_seen: "event_time ae = Some t \<Longrightarrow> already_seen floor ids ae t \<Longrightarrow> emits enabled floor ids ae = None"
  by (simp add: emits_def)

lemma emitted_none:
  assumes "\<And>ae t. ae \<in> set aes \<Longrightarrow> event_time ae = Some t \<Longrightarrow> already_seen floor ids ae t"
  shows "emitted enabled floor ids aes = []"
  using assms
proof (induction aes)
  case (Cons ae aes)
  have "emits enabled floor ids ae = None"
    using Cons.prems [of ae] by (cases "event_time ae") (auto simp: emits_def)
  with Cons show ?case by simp
qed simp

end
