(* ===== verification/Feed_Polls.thy ===== *)
theory Feed_Polls
  imports Feed_Loop
begin

text \<open>
  Sequences of calls of the audit feed: the pages of one poll, any calls after it, and the cursors the
  platform can come to hold.
\<close>

section \<open>A poll of several pages\<close>

text \<open>What the platform does with the feed: it asks for page after page while the cursor names a
  next one, with the same earliest time, and gathers the events. The pages are what the server
  would answer.\<close>

fun poll_pages ::
    "bool \<Rightarrow> timestamp option \<Rightarrow> event_cursor \<Rightarrow> (audit_event list \<times> string) list
       \<Rightarrow> gerror + (change_event list \<times> event_cursor)" where
  "poll_pages enabled earliest cur [] = Inr ([], cur)"
| "poll_pages enabled earliest cur ((es, next) # ps) =
     (case feed_page enabled earliest cur (map Some es) next of
        Inl e \<Rightarrow> Inl e
      | Inr (evs, cur') \<Rightarrow>
        if ec_next_page_token cur' = [] then Inr (evs, cur')
        else (case poll_pages enabled earliest cur' ps of
            Inl e \<Rightarrow> Inl e | Inr (evs', cur'') \<Rightarrow> Inr (evs @ evs', cur'')))"

definition shown :: "(audit_event list \<times> string) list \<Rightarrow> audit_event list" where
  "shown ps = concat (map fst ps)"

text \<open>Every event of a later page is strictly older than every event of an earlier one.\<close>

fun pages_older :: "(audit_event list \<times> string) list \<Rightarrow> bool" where
  "pages_older [] = True"
| "pages_older ((es, next) # ps) =
     (list_all (\<lambda>(_, t). list_all (\<lambda>(_, u). before u t) (timed (shown ps))) (timed es) \<and> pages_older ps)"

text \<open>Every page but the last names a next one.\<close>

fun pages_linked :: "(audit_event list \<times> string) list \<Rightarrow> bool" where
  "pages_linked [] = True"
| "pages_linked ((es, next) # ps) = ((next = [] \<longleftrightarrow> ps = []) \<and> pages_linked ps)"

text \<open>The platform's earliest time is not before the year 1, where Go's zero time lies.\<close>

definition earliest_valid :: "timestamp option \<Rightarrow> bool" where
  "earliest_valid earliest = (case earliest of None \<Rightarrow> True | Some ts \<Rightarrow> 0 \<le> t_ns (as_time ts))"

text \<open>Two floors that tell the same events apart: equal, or both zero.\<close>

definition same_floor :: "gotime \<times> string set \<Rightarrow> gotime \<times> string set \<Rightarrow> bool" where
  "same_floor a b = (a = b \<or> (is_zero (fst a) \<and> is_zero (fst b)))"

lemma same_floor_trans: "same_floor a b \<Longrightarrow> same_floor b c \<Longrightarrow> same_floor a c"
  by (auto simp: same_floor_def)

lemma same_floor_emitted:
  assumes "same_floor (f, i) (g, j)"
  shows "emitted enabled f i es = emitted enabled g j es"
proof -
  have "emits enabled f i = emits enabled g j"
    using assms by (intro ext) (auto simp: same_floor_def emits_def already_seen_def split: option.splits)
  then show ?thesis by (simp add: emitted_def)
qed

lemma event_id_set_sorted: "finite A \<Longrightarrow> [] \<notin> A \<Longrightarrow> event_id_set (sorted_event_ids A) = A"
  by (auto simp: event_id_set_def sorted_event_ids_def)

lemma feed_floor_ids: "feed_floor earliest cur = (f, i) \<Longrightarrow> finite i \<and> [] \<notin> i"
  by (auto simp: feed_floor_def Let_def event_id_set_def split: if_splits)

lemma feed_floor_zero:
  assumes "feed_floor earliest cur = (f, i)" "is_zero f" "earliest_valid earliest"
  shows "is_zero (case earliest of None \<Rightarrow> zero_time | Some ts \<Rightarrow> as_time ts)"
  using assms
  by (auto simp: feed_floor_def Let_def after_def is_zero_def earliest_valid_def zero_time_def
      split: if_splits option.splits)

text \<open>The floor does not move within a poll.\<close>

lemma floor_next:
  assumes "feed_page enabled earliest cur aes next = Inr (evs, cur')" "ec_next_page_token cur' \<noteq> []"
    and "feed_floor earliest cur = (f, i)" "earliest_valid earliest"
  shows "same_floor (feed_floor earliest cur') (f, i)"
proof -
  obtain acc where c': "cur' = next_cursor f i next acc"
    using feed_page_cases [OF assms(1,3)] by metis
  note ok = feed_floor_ids [OF assms(3)]
  have tok: "effective_next next acc \<noteq> []" using assms(2) c' by simp
  show ?thesis
  proof (cases "is_zero f")
    case True
    have "fst (feed_floor earliest cur') = (case earliest of None \<Rightarrow> zero_time | Some ts \<Rightarrow> as_time ts)"
      using True tok by (simp add: c' feed_floor_def Let_def)
    with True feed_floor_zero [OF assms(3) True assms(4)] show ?thesis by (simp add: same_floor_def)
  next
    case False
    with tok ok have "feed_floor earliest cur' = (f, i)"
      by (simp add: c' feed_floor_def Let_def event_id_set_sorted)
    then show ?thesis by (simp add: same_floor_def)
  qed
qed

text \<open>The early stop loses nothing that is strictly older.\<close>

lemma stop_early:
  assumes "acc_after enabled floor ids es (initial_acc floor cur) acc"
    and "next \<noteq> []" "effective_next next acc = []"
    and "\<And>ae t be u. (ae, t) \<in> set (timed es) \<Longrightarrow> (be, u) \<in> set (timed later) \<Longrightarrow> before u t"
  shows "emitted enabled floor ids later = []"
proof (rule emitted_none)
  fix be u assume be: "be \<in> set later" "event_time be = Some u"
  from assms(2,3) have e: "fa_parsed acc" "fa_all_before acc" by (auto simp: effective_next_def split: if_splits)
  from e(1) assms(1) have "timed es \<noteq> []" by (simp add: acc_after_def initial_acc_def)
  then obtain ae t where ae: "(ae, t) \<in> set (timed es)" by (cases "timed es") auto
  from e(2) assms(1) ae have "seen_or_before floor ids ae t" by (auto simp: acc_after_def)
  moreover have "before u t" using assms(4) ae be by (simp add: timed_event)
  ultimately show "already_seen floor ids be u"
    by (auto simp: seen_or_before_def already_seen_def before_def after_def)
qed

lemma timed_append [simp]: "timed (xs @ ys) = timed xs @ timed ys"
  by (simp add: timed_def map_filter_def)

lemma shown_simps [simp]: "shown [] = []" "shown ((es, next) # ps) = es @ shown ps"
  by (simp_all add: shown_def)

lemma poll_pages_emitted:
  assumes "pages_linked ps" "pages_older ps" "ps \<noteq> []" "earliest_valid earliest"
    and "feed_floor earliest cur = (floor, ids)"
  shows "\<exists>cur'. poll_pages enabled earliest cur ps = Inr (emitted enabled floor ids (shown ps), cur')
           \<and> ec_next_page_token cur' = []"
  using assms
proof (induction ps arbitrary: cur floor ids)
  case (Cons p ps)
  obtain es nx where p: "p = (es, nx)" by fastforce
  obtain cur' where page: "feed_page enabled earliest cur (map Some es) nx = Inr (emitted enabled floor ids es, cur')"
    using feed_page_total [OF Cons.prems(5)] by blast
  obtain acc where acc: "acc_after enabled floor ids es (initial_acc floor cur) acc"
    and c': "cur' = next_cursor floor ids nx acc"
    using feed_page_cases [OF page Cons.prems(5)] by (metis inj_map_eq_map inj_Some)
  show ?case
  proof (cases "ec_next_page_token cur' = []")
    case True
    have "emitted enabled floor ids (shown ps) = []"
    proof (cases "nx = []")
      case True
      with Cons.prems(1) show ?thesis by (simp add: p)
    next
      case False
      show ?thesis
        by (rule stop_early [OF acc False]) (use True c' Cons.prems(2) in \<open>auto simp: p list_all_iff\<close>)
    qed
    with True page show ?thesis by (simp add: p emitted_append)
  next
    case False
    then have "nx \<noteq> []" by (auto simp: c' effective_next_def split: if_splits)
    then have ps: "ps \<noteq> []" using Cons.prems(1) by (simp add: p)
    obtain f i where fi: "feed_floor earliest cur' = (f, i)" by fastforce
    have same: "same_floor (f, i) (floor, ids)"
      using floor_next [OF page False Cons.prems(5) Cons.prems(4)] fi by simp
    obtain cur'' where "poll_pages enabled earliest cur' ps = Inr (emitted enabled f i (shown ps), cur'')"
      "ec_next_page_token cur'' = []"
      using Cons.IH [OF _ _ ps Cons.prems(4) fi] Cons.prems(1,2) by (auto simp: p)
    with page False same_floor_emitted [OF same] show ?thesis by (simp add: p emitted_append)
  qed
qed simp

section \<open>What a cursor has covered\<close>

text \<open>A cursor covers events when none is later than its last time and those at that time are among
  its identifiers.\<close>

definition covers :: "event_cursor \<Rightarrow> audit_event list \<Rightarrow> bool" where
  "covers cur es = list_all (\<lambda>(ae, t).
     t_ns t \<le> t_ns (ec_last_event_time cur)
     \<and> (t_ns t = t_ns (ec_last_event_time cur) \<longrightarrow> ae_id ae = [] \<or> ae_id ae \<in> set (ec_last_event_ids cur)))
     (timed es)"

lemma covers_simps [simp]:
  "covers cur []" "covers cur (xs @ ys) \<longleftrightarrow> covers cur xs \<and> covers cur ys"
  by (auto simp: covers_def)

lemma covers_page:
  assumes page: "feed_page enabled earliest cur (map Some es) nx = Inr (evs, cur')" and old: "covers cur old"
  shows "covers cur' (old @ es)" "t_ns (ec_last_event_time cur) \<le> t_ns (ec_last_event_time cur')"
proof -
  obtain f i where fi: "feed_floor earliest cur = (f, i)" by fastforce
  obtain acc where acc: "acc_after enabled f i es (initial_acc f cur) acc" and c': "cur' = next_cursor f i nx acc"
    using feed_page_cases [OF page fi] by (metis inj_map_eq_map inj_Some)
  note nl = next_cursor_last [OF acc]
  show mono: "t_ns (ec_last_event_time cur) \<le> t_ns (ec_last_event_time cur')"
    using nl(1) latest_ge by (simp add: c')
  have ids: "set (ec_last_event_ids cur') = fa_max_ids acc" using nl(3) by (simp add: c' sorted_event_ids_def)
  have "covers cur' es"
    unfolding covers_def ids
    using latest_upper [of _ _ es "t_ns (ec_last_event_time cur)"] nl(1,2)
    by (auto simp: list_all_iff c' ids_at_def)
  moreover have "covers cur' old"
    unfolding covers_def ids
  proof (clarsimp simp: list_all_iff)
    fix ae t assume a: "(ae, t) \<in> set (timed old)"
    with old have le: "t_ns t \<le> t_ns (ec_last_event_time cur)"
      and at: "t_ns t = t_ns (ec_last_event_time cur) \<Longrightarrow> ae_id ae = [] \<or> ae_id ae \<in> set (ec_last_event_ids cur)"
      by (auto simp: covers_def list_all_iff)
    show "t_ns t \<le> t_ns (ec_last_event_time cur')
        \<and> (t_ns t = t_ns (ec_last_event_time cur') \<longrightarrow> ae_id ae = [] \<or> ae_id ae \<in> fa_max_ids acc)"
    proof (intro conjI impI)
      show "t_ns t \<le> t_ns (ec_last_event_time cur')" using le mono by simp
      assume eq: "t_ns t = t_ns (ec_last_event_time cur')"
      with le mono have "t_ns t = t_ns (ec_last_event_time cur)" by simp
      from at [OF this] this eq show "ae_id ae = [] \<or> ae_id ae \<in> fa_max_ids acc"
        by (auto simp: nl(2) c' event_id_set_def)
    qed
  qed
  ultimately show "covers cur' (old @ es)" by simp
qed

lemma covers_older:
  assumes "covers cur es" "(ae, t) \<in> set (timed es)" "\<And>be u. (be, u) \<in> set (timed later) \<Longrightarrow> before u t"
  shows "covers cur later"
  using assms by (fastforce simp: covers_def list_all_iff before_def)

lemma poll_pages_covers:
  assumes "pages_linked ps" "pages_older ps" "poll_pages enabled earliest cur ps = Inr (evs, cur')" "covers cur old"
  shows "covers cur' (old @ shown ps)"
  using assms
proof (induction ps arbitrary: cur evs old)
  case (Cons p ps)
  obtain es nx where p: "p = (es, nx)" by fastforce
  obtain evs1 cur1 where page: "feed_page enabled earliest cur (map Some es) nx = Inr (evs1, cur1)"
    using Cons.prems(3) by (auto simp: p split: sum.splits)
  note cv = covers_page(1) [OF page Cons.prems(4)]
  show ?case
  proof (cases "ec_next_page_token cur1 = []")
    case True
    then have c': "cur' = cur1" using Cons.prems(3) page by (simp add: p)
    have "covers cur' (shown ps)"
    proof (cases "nx = []")
      case True
      with Cons.prems(1) show ?thesis by (simp add: p)
    next
      case False
      obtain f i where fi: "feed_floor earliest cur = (f, i)" by fastforce
      obtain acc where acc: "acc_after enabled f i es (initial_acc f cur) acc" and c1: "cur1 = next_cursor f i nx acc"
        using feed_page_cases [OF page fi] by (metis inj_map_eq_map inj_Some)
      from True False have "fa_parsed acc" by (auto simp: c1 effective_next_def split: if_splits)
      with acc have "timed es \<noteq> []" by (simp add: acc_after_def initial_acc_def)
      then obtain ae t where at: "(ae, t) \<in> set (timed es)" by (cases "timed es") auto
      show ?thesis
        by (rule covers_older [of _ es, OF _ at])
          (use cv c' Cons.prems(2) at in \<open>auto simp: p list_all_iff\<close>)
    qed
    with cv c' show ?thesis by (simp add: p)
  next
    case False
    then obtain evs2 where "poll_pages enabled earliest cur1 ps = Inr (evs2, cur')"
      using Cons.prems(3) page by (auto simp: p split: sum.splits)
    from Cons.IH [OF _ _ this cv] Cons.prems(1,2) show ?thesis by (simp add: p)
  qed
qed simp

lemma covered_seen:
  assumes cv: "covers cur es" and ended: "ec_next_page_token cur = []" and pos: "0 < t_ns t"
    and f: "feed_floor earliest cur = (f, i)" and ae: "ae \<in> set es" "event_time ae = Some t"
  shows "already_seen f i ae t"
proof -
  have a: "t_ns t \<le> t_ns (ec_last_event_time cur)"
    "t_ns t = t_ns (ec_last_event_time cur) \<Longrightarrow> ae_id ae = [] \<or> ae_id ae \<in> set (ec_last_event_ids cur)"
    using cv ae by (auto simp: covers_def list_all_iff timed_event)
  have fl: "i = event_id_set (ec_last_event_ids cur)" "t_ns (ec_last_event_time cur) \<le> t_ns f"
    using f ended by (auto simp: feed_floor_def Let_def after_def split: if_splits)
  have nz: "\<not> is_zero f" using a(1) pos fl(2) by (simp add: is_zero_def)
  show ?thesis
    using a fl nz by (auto simp: already_seen_def time_eq_def before_def event_id_set_def)
qed

text \<open>Events dated after the zero time.\<close>

definition dated :: "audit_event list \<Rightarrow> bool" where
  "dated es = list_all (\<lambda>(_, t). 0 < t_ns t) (timed es)"

section \<open>Any calls after a poll\<close>

text \<open>An event that was shown: same identifier, same time.\<close>

definition shown_before :: "audit_event list \<Rightarrow> audit_event \<Rightarrow> bool" where
  "shown_before old ae =
     (case event_time ae of None \<Rightarrow> False
      | Some t \<Rightarrow> list_ex (\<lambda>(be, u). ae_id be = ae_id ae \<and> time_eq u t) (timed old))"

text \<open>Any calls, with any earliest times, pages and next pages: each succeeds and gives exactly the change events of those
  events of its page that were not shown before and are new at its own floor.\<close>

fun calls_without :: "bool \<Rightarrow> audit_event list \<Rightarrow> event_cursor \<Rightarrow> (timestamp option \<times> audit_event list \<times> string) list \<Rightarrow> bool" where
  "calls_without enabled old cur [] = True"
| "calls_without enabled old cur ((earliest, es, next) # qs) =
     (case (feed_floor earliest cur, feed_page enabled earliest cur (map Some es) next) of
        (_, Inl e) \<Rightarrow> False
      | ((floor, ids), Inr (evs, cur')) \<Rightarrow>
          evs = emitted enabled floor ids (filter (\<lambda>ae. \<not> shown_before old ae) es)
          \<and> calls_without enabled old cur' qs)"

text \<open>A cursor guards events when it covers them and, in the middle of a poll, the floor it carries has them seen.\<close>

definition guards :: "event_cursor \<Rightarrow> audit_event list \<Rightarrow> bool" where
  "guards cur old =
     (covers cur old
      \<and> (ec_next_page_token cur \<noteq> [] \<longrightarrow>
           list_all (\<lambda>(ae, t). already_seen (ec_floor_event_time cur) (event_id_set (ec_floor_event_ids cur)) ae t) (timed old)))"

lemma guarded_seen:
  assumes "guards cur old" "dated old" "feed_floor earliest cur = (f, i)" "(be, u) \<in> set (timed old)"
  shows "already_seen f i be u"
proof (cases "ec_next_page_token cur = []")
  case True
  have "0 < t_ns u" using assms(2,4) by (auto simp: dated_def list_all_iff)
  from covered_seen [OF _ True this assms(3), of old] assms(1,4) show ?thesis by (simp add: guards_def timed_event)
next
  case False
  then have s: "already_seen (ec_floor_event_time cur) (event_id_set (ec_floor_event_ids cur)) be u"
    using assms(1,4) by (auto simp: guards_def list_all_iff)
  with False assms(3) show ?thesis by (auto simp: feed_floor_def Let_def already_seen_def split: if_splits)
qed

lemma seen_like: "already_seen f i be u \<Longrightarrow> ae_id be = ae_id ae \<Longrightarrow> time_eq u t \<Longrightarrow> already_seen f i ae t"
  by (simp add: already_seen_def before_def time_eq_def)

lemma emitted_filter:
  "(\<And>ae. ae \<in> set es \<Longrightarrow> \<not> P ae \<Longrightarrow> emits enabled f i ae = None) \<Longrightarrow> emitted enabled f i es = emitted enabled f i (filter P es)"
proof (induction es)
  case (Cons ae es)
  then have "emitted enabled f i es = emitted enabled f i (filter P es)" by simp
  with Cons.prems [of ae] show ?case by (cases "P ae") (simp_all split: option.splits)
qed simp

lemma guarded_page:
  assumes "guards cur old" "dated old" "feed_floor earliest cur = (f, i)"
  shows "\<exists>cur'. feed_page enabled earliest cur (map Some es) nx =
      Inr (emitted enabled f i (filter (\<lambda>ae. \<not> shown_before old ae) es), cur') \<and> guards cur' old"
proof -
  obtain cur' where p: "feed_page enabled earliest cur (map Some es) nx = Inr (emitted enabled f i es, cur')"
    using feed_page_total [OF assms(3)] by blast
  obtain acc where c': "cur' = next_cursor f i nx acc" using feed_page_cases [OF p assms(3)] by metis
  have "covers cur' old" using covers_page(1) [OF p] assms(1) by (simp add: guards_def)
  moreover have "event_id_set (sorted_event_ids i) = i" using event_id_set_sorted feed_floor_ids [OF assms(3)] by blast
  ultimately have "guards cur' old"
    using guarded_seen [OF assms(1-3)] by (auto simp: guards_def c' list_all_iff)
  moreover have "emitted enabled f i es = emitted enabled f i (filter (\<lambda>ae. \<not> shown_before old ae) es)"
  proof (rule emitted_filter)
    fix ae assume "\<not> \<not> shown_before old ae"
    then obtain t be u where t: "event_time ae = Some t" "(be, u) \<in> set (timed old)" "ae_id be = ae_id ae" "time_eq u t"
      by (auto simp: shown_before_def list_ex_iff split: option.splits)
    from seen_like [OF guarded_seen [OF assms t(2)] t(3,4)] t(1) show "emits enabled f i ae = None" by (simp add: emits_seen)
  qed
  ultimately show ?thesis using p by auto
qed

lemma guarded_calls: "guards cur old \<Longrightarrow> dated old \<Longrightarrow> calls_without enabled old cur qs"
proof (induction qs arbitrary: cur)
  case (Cons q qs)
  obtain earliest es nx where q: "q = (earliest, es, nx)" by (metis prod.exhaust)
  obtain f i where fi: "feed_floor earliest cur = (f, i)" by fastforce
  obtain cur' where "feed_page enabled earliest cur (map Some es) nx =
      Inr (emitted enabled f i (filter (\<lambda>ae. \<not> shown_before old ae) es), cur')" "guards cur' old"
    using guarded_page [OF Cons.prems fi] by blast
  with fi Cons.IH Cons.prems(2) show ?case by (simp add: q)
qed simp

section \<open>What the audit log hands over\<close>

definition audit_id_valid :: "audit_event \<Rightarrow> bool" where
  "audit_id_valid ae = valid_utf8 (ae_id ae)"

lemma decode_audit_event_id: "preserves audit_id_valid decode_audit_event"
  unfolding decode_audit_event_def
  by (rule preserves_struct, simp only: list.pred_inject prod.case,
      intro conjI TrueI preserves_string preserves_pointer) (simp_all add: audit_id_valid_def)

definition audit_list_ok :: "audit_events_list \<Rightarrow> bool" where
  "audit_list_ok l = (valid_utf8 (pg_next (aq_page l)) \<and> list_all wf_json (aq_data_raw l))"

lemma decode_page_next: "preserves (\<lambda>p. valid_utf8 (pg_next p)) decode_page"
  unfolding decode_page_def by (rule preserves_struct) (simp add: preserves_string)

lemma decode_audit_list_ok: "preserves audit_list_ok decode_audit_events_list"
  unfolding decode_audit_events_list_def
  by (rule preserves_struct, simp only: list.pred_inject prod.case,
      intro conjI TrueI preserves_nested [OF decode_page_next] preserves_raw_list)
    (simp_all add: audit_list_ok_def)

lemma flatten_entry_valid:
  assumes "wf_json j" "flatten_entry j = Inr evs"
  shows "list_all (\<lambda>x. case x of None \<Rightarrow> True | Some ae \<Rightarrow> audit_id_valid ae) evs"
proof -
  have z: "audit_id_valid zero_audit_event" by (simp add: audit_id_valid_def zero_audit_event_def)
  note e = preserves_elem_pointer [OF decode_audit_event_id z]
  show ?thesis
  proof (cases j)
    case (JArr js)
    with assms have "decode_elems (elem_pointer decode_audit_event zero_audit_event) None js [] = Some evs"
      by (simp add: flatten_entry_def split: option.splits)
    moreover have "list_all wf_json js" using JArr assms(1) by simp
    ultimately show ?thesis using decode_elems_preserves [OF e, of js None "[]" evs] by simp
  next
    case (JObj ms)
    with assms obtain ev where ev: "decode_audit_event j zero_audit_event = Some ev" "evs = [Some ev]"
      by (auto simp: flatten_entry_def split: option.splits)
    from preservesD [OF decode_audit_event_id assms(1) z ev(1)] ev(2) show ?thesis by simp
  qed (use assms in \<open>auto simp: flatten_entry_def\<close>)
qed

lemma flatten_valid:
  assumes "list_all wf_json raw" "flatten_audit_events raw = Inr evs"
  shows "list_all (\<lambda>x. case x of None \<Rightarrow> True | Some ae \<Rightarrow> audit_id_valid ae) evs"
proof -
  obtain evss where m: "map_res flatten_entry raw = Inr evss" and c: "evs = concat evss"
    using assms(2) by (auto simp: flatten_audit_events_def split: sum.splits)
  from m have "list_all2 (\<lambda>x y. flatten_entry x = Inr y) raw evss" by (simp add: map_res_Inr_iff)
  then show ?thesis using assms(1) unfolding c
    by (induction rule: list_all2_induct) (auto dest: flatten_entry_valid)
qed

lemma list_audit_log_events_valid:
  assumes "list_audit_log_events sv cl n pagination c = ((Inr (evs, nx), rl), c')"
  shows "valid_utf8 nx" "list_all (\<lambda>x. case x of None \<Rightarrow> True | Some ae \<Rightarrow> audit_id_valid ae) evs"
proof -
  obtain l s c1 rl1 where q: "unmarshal decode_audit_events_list s zero_audit_events_list = Some l"
    and f: "flatten_audit_events (aq_data_raw l) = Inr evs" and n: "nx = pg_next (aq_page l)"
    using assms
    by (auto simp: list_audit_log_events_def query_def split: sum.splits prod.splits dest!: do_query_decoded)
  have "audit_list_ok l"
    using unmarshal_preserves [OF decode_audit_list_ok _ q]
    by (simp add: audit_list_ok_def zero_audit_events_list_def zero_page_def)
  then show "valid_utf8 nx" "list_all (\<lambda>x. case x of None \<Rightarrow> True | Some ae \<Rightarrow> audit_id_valid ae) evs"
    using flatten_valid [OF _ f] n by (auto simp: audit_list_ok_def)
qed

section \<open>Cursors the platform can hold\<close>

text \<open>The tokens the platform can come to hold: none at first, then whatever a successful call of
  \<open>ListEvents\<close> on a held token returned. Between two calls the outside world, the response cache and
  the platform's earliest time may be anything.\<close>

inductive feed_token :: "'w svc \<Rightarrow> 'w client \<Rightarrow> audit_feed \<Rightarrow> string \<Rightarrow> bool" for sv cl f where
  fresh: "feed_token sv cl f []"
| polled: "feed_token sv cl f tok \<Longrightarrow>
    list_events sv cl f earliest tok c = ((Inr (evs, st), annos), c') \<Longrightarrow> feed_token sv cl f (ss_cursor st)"

inductive_cases feed_tokenE: "feed_token sv cl f tok"

definition ids_sorted :: "string list \<Rightarrow> bool" where
  "ids_sorted ids = (sorted ids \<and> distinct ids \<and> [] \<notin> set ids)"

definition cursor_inv :: "event_cursor \<Rightarrow> bool" where
  "cursor_inv c =
     (cursor_ok c \<and> ids_sorted (ec_last_event_ids c) \<and> ids_sorted (ec_floor_event_ids c)
      \<and> (ec_next_page_token c = [] \<longrightarrow> is_zero (ec_floor_event_time c) \<and> ec_floor_event_ids c = []))"

text \<open>The parts of one successful call.\<close>

lemma list_events_parts:
  assumes "list_events sv cl f earliest tok c = ((Inr (evs, st), annos), c')"
  obtains cur aes nx rl cur' where
    "decode_event_page_token tok = Inr cur"
    "list_audit_log_events sv cl audit_log_events_page_size (ec_next_page_token cur) c = ((Inr (aes, nx), rl), c')"
    "feed_page (fd_agreements_enabled f) earliest cur aes nx = Inr (evs, cur')"
    "encode_event_page_token (Some cur') = Inr (ss_cursor st)"
    "ss_has_more st = (ec_next_page_token cur' \<noteq> [])"
    "annos = with_rate_limiting [] rl"
proof -
  obtain cur where d: "decode_event_page_token tok = Inr cur"
    using assms by (auto simp: list_events_def split: sum.splits)
  obtain r rl c1 where q: "list_audit_log_events sv cl audit_log_events_page_size (ec_next_page_token cur) c = ((r, rl), c1)"
    by (metis prod.exhaust)
  obtain aes nx where r: "r = Inr (aes, nx)"
    using assms by (auto simp: list_events_def d q Let_def split: sum.splits)
  obtain cur' where p: "feed_page (fd_agreements_enabled f) earliest cur aes nx = Inr (evs, cur')"
    using assms by (auto simp: list_events_def d q r Let_def split: sum.splits prod.splits)
  obtain s where s: "encode_event_page_token (Some cur') = Inr s"
    using assms by (auto simp: list_events_def d q r p Let_def split: sum.splits)
  from assms have "st = \<lparr>ss_cursor = s, ss_has_more = ec_next_page_token cur' \<noteq> []\<rparr>"
    "annos = with_rate_limiting [] rl" "c1 = c'"
    by (auto simp: list_events_def d q r p s Let_def)
  with d q r p s that show ?thesis by simp
qed

lemma ids_sorted_sorted: "finite A \<Longrightarrow> [] \<notin> A \<Longrightarrow> ids_sorted (sorted_event_ids A)"
  by (simp add: ids_sorted_def sorted_event_ids_def sorted_keys_sorted sorted_keys_distinct)

lemma encode_printable:
  "encode_event_page_token (Some c) = Inr s \<Longrightarrow>
     time_printable (ec_last_event_time c) \<and> time_printable (ec_floor_event_time c)"
  by (auto simp: encode_event_page_token_def json_of_cursor_def marshal_time_def split: option.splits if_splits)

lemma zero_cursor_inv: "cursor_inv zero_event_cursor"
  by (simp add: cursor_inv_def cursor_ok_def zero_event_cursor_def zero_time_printable ids_sorted_def
      is_zero_def) (simp add: zero_time_def)

lemma feed_page_inv:
  assumes cur: "cursor_inv cur"
    and page: "feed_page enabled earliest cur (map Some es) nx = Inr (evs, cur')"
    and valid: "valid_utf8 nx" "list_all audit_id_valid es"
    and enc: "encode_event_page_token (Some cur') = Inr s"
  shows "cursor_inv cur'"
proof -
  obtain f i where fi: "feed_floor earliest cur = (f, i)" by fastforce
  obtain acc where acc: "acc_after enabled f i es (initial_acc f cur) acc" and c': "cur' = next_cursor f i nx acc"
    using feed_page_cases [OF page fi] by (metis inj_map_eq_map inj_Some)
  note nl = next_cursor_last [OF acc]
  have ok: "cursor_ok cur" using cur by (simp add: cursor_inv_def)
  have i: "\<And>x. x \<in> i \<Longrightarrow> valid_utf8 x" "t_off f mod 60 = 0" "finite i" "[] \<notin> i"
    using fi ok
    by (auto simp: feed_floor_def Let_def cursor_ok_def valid_event_id_set zero_time_def as_time_def event_id_set_def
        split: if_splits option.splits)
  have off: "t_off (fa_max_time acc) mod 60 = 0"
    using acc ok event_time_minutes
    by (auto simp: acc_after_def initial_acc_def cursor_ok_def timed_event)
  have val: "valid_utf8 x" if "x \<in> fa_max_ids acc" for x
    using that valid(2) ok unfolding nl(2)
    by (auto simp: ids_at_def timed_event list_all_iff audit_id_valid_def cursor_ok_def event_id_set_def split: if_splits)
  have nx: "valid_utf8 (effective_next nx acc)" using valid(1) by (simp add: effective_next_def)
  have z: "is_zero zero_time" by (simp add: is_zero_def zero_time_def)
  show ?thesis
    using encode_printable [OF enc] i off val nx nl(3,4) z
    by (simp add: c' cursor_inv_def cursor_ok_def ids_sorted_sorted list_all_iff zero_time_def)
      (auto simp: ids_sorted_def sorted_event_ids_def)
qed

lemma list_events_cursor:
  assumes "list_events sv cl f earliest tok c = ((Inr (evs, st), annos), c')"
    and "decode_event_page_token tok = Inr cur" "cursor_inv cur"
  shows "\<exists>cur'. decode_event_page_token (ss_cursor st) = Inr cur' \<and> cursor_inv cur'
           \<and> t_ns (ec_last_event_time cur) \<le> t_ns (ec_last_event_time cur')
           \<and> (ss_has_more st \<longleftrightarrow> ec_next_page_token cur' \<noteq> [])"
proof -
  obtain aes nx rl cur' where
    q: "list_audit_log_events sv cl audit_log_events_page_size (ec_next_page_token cur) c = ((Inr (aes, nx), rl), c')"
    and p: "feed_page (fd_agreements_enabled f) earliest cur aes nx = Inr (evs, cur')"
    and e: "encode_event_page_token (Some cur') = Inr (ss_cursor st)"
    and m: "ss_has_more st = (ec_next_page_token cur' \<noteq> [])"
    using list_events_parts [OF assms(1)] assms(2) by (metis sum.inject(2))
  obtain fl i where fi: "feed_floor earliest cur = (fl, i)" by fastforce
  obtain es where es: "aes = map Some es" using feed_page_cases [OF p fi] by metis
  note v = list_audit_log_events_valid [OF q]
  have "list_all audit_id_valid es" using v(2) by (simp add: es list_all_iff)
  from feed_page_inv [OF assms(3) p [unfolded es] v(1) this e] have inv: "cursor_inv cur'" .
  then have "cursor_ok cur'" by (simp add: cursor_inv_def)
  from decode_encode_cursor [OF this] e have "decode_event_page_token (ss_cursor st) = Inr cur'" by auto
  with inv m covers_page(2) [OF p [unfolded es], of "[]"] show ?thesis by auto
qed

lemma feed_token_inv:
  "feed_token sv cl f tok \<Longrightarrow> \<exists>cur. decode_event_page_token tok = Inr cur \<and> cursor_inv cur"
proof (induction rule: feed_token.induct)
  case fresh
  then show ?case by (simp add: decode_event_page_token_def zero_cursor_inv)
next
  case (polled tok earliest c evs st annos c')
  then show ?case using list_events_cursor by blast
qed

section \<open>Properties\<close>

text \<open>Events for the witnesses.\<close>

definition sample_event :: "string \<Rightarrow> string \<Rightarrow> audit_event" where
  "sample_event i t = zero_audit_event
     \<lparr>ae_id := i, ae_event_type := ''Merged vendors'', ae_event_time := t,
      ae_primary_reference := Some \<lparr>af_id = ''v1'', af_label = [], af_resource_name = ''Vendor / Merchant'',
        af_url = ''/vendors/v1''\<rparr>\<rparr>"

definition sample_pages :: "(audit_event list \<times> string) list" where
  "sample_pages =
     [([sample_event ''e3'' ''2025-01-02T03:00:03Z'', sample_event ''e2'' ''2025-01-02T03:00:02Z''], ''p2''),
      ([sample_event ''e1'' ''2025-01-02T03:00:01Z''], [])]"

lemma sample_pages_ok:
  "pages_linked sample_pages" "pages_older sample_pages" "sample_pages \<noteq> []" "dated (shown sample_pages)"
  by code_simp+

text \<open>C5: A poll over pages that get strictly older delivers, over all its calls together, exactly the
  change events of all the events the server showed that are new at the floor the poll started with,
  in order, and it ends; the early stop loses nothing.\<close>

theorem poll_delivers_all:
  assumes "pages_linked ps" "pages_older ps" "ps \<noteq> []" "earliest_valid earliest"
    and "feed_floor earliest cur = (floor, ids)"
  shows "\<exists>cur'. poll_pages enabled earliest cur ps = Inr (emitted enabled floor ids (shown ps), cur')
           \<and> ec_next_page_token cur' = []"
  using assms by (rule poll_pages_emitted)

theorem poll_delivers_all_witness:
  "\<exists>cur'. poll_pages True None zero_event_cursor sample_pages =
       Inr (emitted True zero_time {} (shown sample_pages), cur') \<and> ec_next_page_token cur' = []"
  by (rule poll_delivers_all [OF sample_pages_ok(1-3)]) code_simp+

text \<open>C6: Nothing that such a poll was shown is ever delivered again. Whatever calls follow it - any number of
  them, of the same poll or of later ones, each with an earliest time of its own, over pages that mix events shown
  before with newer and older ones in any order and cut in any way - each call succeeds and gives
  exactly the change events of those events of its page that are new at its own floor and that were not
  shown before, where an event was shown before when one with its identifier and its time was.\<close>

theorem repoll_silent:
  assumes "pages_linked ps" "pages_older ps" "ps \<noteq> []" "earliest_valid earliest"
    and "poll_pages enabled earliest cur ps = Inr (evs, cur')" "dated (shown ps)"
  shows "calls_without enabled2 (shown ps) cur' qs"
proof -
  obtain floor ids where "feed_floor earliest cur = (floor, ids)" by fastforce
  from poll_pages_emitted [OF assms(1-4) this, of enabled] assms(5) have "ec_next_page_token cur' = []" by auto
  moreover have "covers cur' (shown ps)"
    using poll_pages_covers [OF assms(1,2,5), of "[]"] by simp
  ultimately have "guards cur' (shown ps)" by (simp add: guards_def)
  then show ?thesis using assms(6) by (rule guarded_calls)
qed

text \<open>The calls of two later polls: pages with newer events before those shown already, cut anew.\<close>

definition later_calls :: "(timestamp option \<times> audit_event list \<times> string) list" where
  "later_calls =
     [(None, [sample_event ''e5'' ''2025-01-02T03:00:04Z'', sample_event ''e4'' ''2025-01-02T03:00:03Z'',
        sample_event ''e3'' ''2025-01-02T03:00:03Z''], ''p2''),
      (None, [sample_event ''e2'' ''2025-01-02T03:00:02Z'', sample_event ''e1'' ''2025-01-02T03:00:01Z''], []),
      (None, sample_event ''e6'' ''2025-01-02T03:00:05Z'' # shown sample_pages, [])]"

theorem repoll_silent_witness:
  "\<exists>cur'. poll_pages True None zero_event_cursor sample_pages =
       Inr (emitted True zero_time {} (shown sample_pages), cur')
     \<and> calls_without True (shown sample_pages) cur' later_calls"
proof -
  have f: "feed_floor None zero_event_cursor = (zero_time, {})" and v: "earliest_valid None" by code_simp+
  obtain cur' where p: "poll_pages True None zero_event_cursor sample_pages =
      Inr (emitted True zero_time {} (shown sample_pages), cur')"
    using poll_pages_emitted [OF sample_pages_ok(1-3) v f] by blast
  from repoll_silent [OF sample_pages_ok(1-3) v p sample_pages_ok(4)] p show ?thesis by blast
qed

text \<open>C20: A cursor survives its encoding: what \<open>encodeEventPageToken\<close> prints, \<open>decodeEventPageToken\<close>
  reads back as the same cursor.\<close>

theorem cursor_round_trip:
  assumes "cursor_ok c"
  shows "\<exists>s. encode_event_page_token (Some c) = Inr s \<and> decode_event_page_token s = Inr c"
  using assms by (rule decode_encode_cursor)

definition sample_cursor :: event_cursor where
  "sample_cursor = zero_event_cursor\<lparr>ec_next_page_token := ''https://api.ramp.com/p?start=2'',
     ec_last_event_time := \<lparr>t_ns = 63871462801500000000, t_off = 7200\<rparr>, ec_last_event_ids := [''a'', ''b'']\<rparr>"

theorem cursor_round_trip_witness:
  "\<exists>s. encode_event_page_token (Some sample_cursor) = Inr s \<and> decode_event_page_token s = Inr sample_cursor"
  by (rule cursor_round_trip)
    (simp add: cursor_ok_def sample_cursor_def zero_event_cursor_def valid_utf8_ascii time_printable_def
      zero_time_def local_year_def local_days_def date_of_days_def year_of_days_def days_before_year_def Let_def nanos_def)

end
