(* ===== verification/Roles.thy ===== *)
theory Roles
  imports Ramp_Api Resource_Types
begin

text \<open>
  \<open>src/pkg/connector/roles.go\<close>: the fixed table of roles, the normal form of a role, and the role
  syncer. The members of a role are found by listing users, filtered by the server where the API
  can filter by that role.
\<close>

section \<open>The table\<close>

record role =
  ro_id :: string
  ro_name :: string

definition roles :: "role list" where
  "roles =
     [\<lparr>ro_id = ''BUSINESS_ADMIN'', ro_name = ''Admin''\<rparr>,
      \<lparr>ro_id = ''BUSINESS_USER'', ro_name = ''User''\<rparr>,
      \<lparr>ro_id = ''BUSINESS_OWNER'', ro_name = ''Owner''\<rparr>,
      \<lparr>ro_id = ''BUSINESS_BOOKKEEPER'', ro_name = ''Bookkeeper''\<rparr>,
      \<lparr>ro_id = ''IT_ADMIN'', ro_name = ''IT Admin''\<rparr>,
      \<lparr>ro_id = ''AUDITOR'', ro_name = ''Auditor''\<rparr>,
      \<lparr>ro_id = ''GUEST_USER'', ro_name = ''Guest''\<rparr>,
      \<lparr>ro_id = ''UNBUNDLED_ADMIN'', ro_name = ''Unbundled Admin''\<rparr>,
      \<lparr>ro_id = ''UNBUNDLED_BOOKKEEPER'', ro_name = ''Unbundled Bookkeeper''\<rparr>,
      \<lparr>ro_id = ''UNBUNDLED_OWNER'', ro_name = ''Unbundled Owner''\<rparr>,
      \<lparr>ro_id = ''UNBUNDLED_USER'', ro_name = ''Unbundled User''\<rparr>]"

definition normalize_ramp_role :: "unicode_tables \<Rightarrow> string \<Rightarrow> string" where
  "normalize_ramp_role U s = to_upper U (trim_space s)"

definition can_filter_users_by_role :: "unicode_tables \<Rightarrow> string \<Rightarrow> bool" where
  "can_filter_users_by_role U s =
     (normalize_ramp_role U s \<in>
        {''AUDITOR'', ''BUSINESS_ADMIN'', ''BUSINESS_BOOKKEEPER'', ''BUSINESS_OWNER'', ''BUSINESS_USER'',
         ''GUEST_USER'', ''IT_ADMIN''})"

definition is_known_ramp_role :: "unicode_tables \<Rightarrow> string \<Rightarrow> bool" where
  "is_known_ramp_role U s =
     list_ex (\<lambda>k. normalize_ramp_role U s = normalize_ramp_role U (ro_id k)) roles"

section \<open>The syncer\<close>

definition role_prefix :: string where "role_prefix = ''role:''"
definition member_entitlement :: string where "member_entitlement = ''member''"

definition role_resource :: "role \<Rightarrow> gerror + resource" where
  "role_resource k = new_resource (ro_name k) role_resource_type (role_prefix @ ro_id k) [with_role_trait]"

definition role_list :: "(resource list \<times> string) sync_reply" where
  "role_list =
     (case map_res role_resource roles of
        Inl e \<Rightarrow> (Inl e, []) | Inr rs \<Rightarrow> (Inr (rs, []), []))"

definition role_entitlements :: "resource \<Rightarrow> (entitlement list \<times> string) sync_reply" where
  "role_entitlements r =
     (Inr ([new_assignment_entitlement r member_entitlement (res_display_name r @ '' Role'')
              (''Has the '' @ res_display_name r @ '' role in Ramp'') []], []), [])"

text \<open>The grants of one page: users of another role are passed over; a nil user is dereferenced.\<close>

fun role_page_grants :: "unicode_tables \<Rightarrow> resource \<Rightarrow> string \<Rightarrow> user option list \<Rightarrow> gerror + grant list" where
  "role_page_grants U r role_id [] = Inr []"
| "role_page_grants U r role_id (None # us) = Inl nil_dereference"
| "role_page_grants U r role_id (Some u # us) =
     (case role_page_grants U r role_id us of
        Inl e \<Rightarrow> Inl e
      | Inr gs \<Rightarrow>
        Inr (if role_id \<noteq> normalize_ramp_role U (us_role u) then gs
             else new_grant r member_entitlement (new_resource_id user_resource_type (us_id u)) # gs))"

definition role_grants ::
    "'w svc \<Rightarrow> 'w client \<Rightarrow> resource \<Rightarrow> string \<Rightarrow> 'w conn \<Rightarrow> (grant list \<times> string) sync_reply \<times> 'w conn" where
  "role_grants sv cl r token c =
     (let U = sv_unicode sv;
          role_id = normalize_ramp_role U (trim_prefix (ri_resource (res_id r)) role_prefix)
      in case (if can_filter_users_by_role U role_id then list_users_by_role sv cl role_id token c
               else list_users sv cl token c) of
           ((Inl e, rl), c') \<Rightarrow>
             ((Inl (Wrap [S ''baton-ramp: error listing users for role '', S (ri_resource (res_id r)), S '': ''] e []), []), c')
         | ((Inr resp, rl), c') \<Rightarrow>
             let annos = with_rate_limiting [] rl in
             (case role_page_grants U r role_id (ur_users resp) of
                Inl e \<Rightarrow> ((Inl e, annos), c')
              | Inr gs \<Rightarrow> ((Inr (gs, ur_pagination resp), annos), c')))"

section \<open>Facts\<close>

lemma role_ids_distinct: "distinct (map ro_id roles)"
  by (simp add: roles_def)

lemma role_ids_ascii: "k \<in> set roles \<Longrightarrow> ascii (ro_id k)"
  by (auto simp: roles_def)

text \<open>The identifiers of the table are in normal form, whatever the unicode tables.\<close>

lemma ascii_dropWhile: "ascii s \<Longrightarrow> ascii (dropWhile P s)"
  by (induction s) simp_all

lemma ascii_rev [simp]: "ascii (rev s) \<longleftrightarrow> ascii s"
  by (simp add: ascii_def)

lemma normalize_ascii:
  "ascii s \<Longrightarrow> normalize_ramp_role U s =
     map upper_byte (rev (dropWhile (\<lambda>c. is_space (byte c)) (rev (dropWhile (\<lambda>c. is_space (byte c)) s))))"
  by (simp add: normalize_ramp_role_def trim_space_ascii to_upper_ascii ascii_dropWhile)

lemma role_ids_normal: "k \<in> set roles \<Longrightarrow> normalize_ramp_role U (ro_id k) = ro_id k"
  by (frule role_ids_ascii) (auto simp: normalize_ascii roles_def is_space_def upper_byte_def)

lemma known_role_iff: "is_known_ramp_role U s \<longleftrightarrow> normalize_ramp_role U s \<in> ro_id ` set roles"
  using role_ids_normal by (fastforce simp: is_known_ramp_role_def list_ex_iff image_iff)

lemma role_page_grants_spec:
  "role_page_grants U r k (map Some us) =
     Inr (map (\<lambda>u. new_grant r member_entitlement (new_resource_id user_resource_type (us_id u)))
            (filter (\<lambda>u. normalize_ramp_role U (us_role u) = k) us))"
  by (induction us) auto

lemma role_page_grants_nil: "None \<in> set us \<Longrightarrow> role_page_grants U r k us = Inl nil_dereference"
  by (induction U r k us rule: role_page_grants.induct) (auto split: sum.splits)

lemma role_list_ok:
  "\<exists>rs. role_list = (Inr (rs, []), []) \<and> map (ri_resource \<circ> res_id) rs = map (\<lambda>k. role_prefix @ ro_id k) roles"
  by (simp add: role_list_def roles_def role_resource_def new_resource_def with_role_trait_def new_resource_id_def)

end
