(* ===== verification/Users.thy ===== *)
theory Users
  imports Roles
begin

text \<open>
  \<open>src/pkg/connector/users.go\<close>: users as resources, the user syncer and account creation.
\<close>

section \<open>Users as resources\<close>

definition valid_create_roles :: "string list" where
  "valid_create_roles =
     [''AUDITOR'', ''BUSINESS_ADMIN'', ''BUSINESS_BOOKKEEPER'', ''BUSINESS_USER'', ''GUEST_USER'', ''IT_ADMIN'']"

definition user_resource :: "user \<Rightarrow> gerror + resource" where
  "user_resource u =
     (let st = (if us_status u \<noteq> ''USER_ACTIVE'' \<and> us_status u \<noteq> ''USER_ONBOARDING''
                then ResourceDisabled else ResourceEnabled)
      in new_resource (us_first_name u @ '' '' @ us_last_name u) user_resource_type (us_id u)
           [with_user_trait [with_email (us_email u) True, with_user_login (us_email u)],
            with_resource_status st []])"

section \<open>The syncer\<close>

text \<open>The loop over a page gathers the resources and, for a warning in the log, the roles it does not
  know and the number of users that have one.\<close>

record user_page =
  up_resources :: "resource list"
  up_unknown :: "string set"
  up_unknown_count :: nat

fun user_page_loop :: "unicode_tables \<Rightarrow> user_page \<Rightarrow> user option list \<Rightarrow> gerror + user_page" where
  "user_page_loop U p [] = Inr p"
| "user_page_loop U p (None # us) = Inl nil_dereference"
| "user_page_loop U p (Some u # us) =
     (let p1 = (if is_known_ramp_role U (us_role u) then p
                else p\<lparr>up_unknown_count := up_unknown_count p + 1,
                       up_unknown := insert (normalize_ramp_role U (us_role u)) (up_unknown p)\<rparr>)
      in case user_resource u of
           Inl e \<Rightarrow> Inl (Wrap [S ''baton-ramp: failed to create resource for user '', S (us_id u), S '': ''] e [])
         | Inr r \<Rightarrow> user_page_loop U (p1\<lparr>up_resources := up_resources p1 @ [r]\<rparr>) us)"

definition unknown_role_warning :: "user_page \<Rightarrow> (string list \<times> nat) option" where
  "unknown_role_warning p =
     (if up_unknown p = {} then None else Some (sorted_keys (up_unknown p), up_unknown_count p))"

definition user_list ::
    "'w svc \<Rightarrow> 'w client \<Rightarrow> string \<Rightarrow> 'w conn
       \<Rightarrow> ((resource list \<times> string) sync_reply \<times> (string list \<times> nat) option) \<times> 'w conn" where
  "user_list sv cl token c =
     (case list_users sv cl token c of
        ((Inl e, rl), c') \<Rightarrow> (((Inl e, []), None), c')
      | ((Inr resp, rl), c') \<Rightarrow>
          let annos = with_rate_limiting [] rl in
          (case user_page_loop (sv_unicode sv) \<lparr>up_resources = [], up_unknown = {}, up_unknown_count = 0\<rparr> (ur_users resp) of
             Inl e \<Rightarrow> (((Inl e, annos), None), c')
           | Inr p \<Rightarrow> (((Inr (up_resources p, ur_pagination resp), annos), unknown_role_warning p), c')))"

definition user_entitlements :: "resource \<Rightarrow> (entitlement list \<times> string) sync_reply" where
  "user_entitlements r = (Inr ([], []), [])"

definition user_grants :: "resource \<Rightarrow> (grant list \<times> string) sync_reply" where
  "user_grants r = (Inr ([], []), [])"

section \<open>Account creation\<close>

datatype credential_option = NoPassword

record account_provisioning =
  ap_supported :: "credential_option list"
  ap_preferred :: credential_option

definition create_account_capability_details :: account_provisioning where
  "create_account_capability_details = \<lparr>ap_supported = [NoPassword], ap_preferred = NoPassword\<rparr>"

text \<open>A value of a \<open>structpb.Struct\<close> and \<open>GetStringValue\<close>, which is empty for any other kind.\<close>

datatype proto_value =
    VNull | VNumber float64 | VString string | VBool bool
  | VStruct "(string \<times> proto_value) list" | VList "proto_value list"

type_synonym proto_fields = "(string \<times> proto_value) list"

definition string_value :: "proto_value \<Rightarrow> string" where
  "string_value v = (case v of VString s \<Rightarrow> s | _ \<Rightarrow> [])"

datatype create_account_result =
    AlreadyExistsResult resource
  | ActionRequiredResult string

definition required_error :: "string \<Rightarrow> gerror" where
  "required_error field =
     Status InvalidArgument [S ''ramp-connector: '', S field, S '' is required for account creation''] None"

definition required_field :: "proto_fields \<Rightarrow> string \<Rightarrow> gerror + string" where
  "required_field fs k =
     (case map_of fs k of
        None \<Rightarrow> Inl (required_error k)
      | Some v \<Rightarrow> if string_value v = [] then Inl (required_error k) else Inr (string_value v))"

definition invalid_role_error :: "string \<Rightarrow> gerror" where
  "invalid_role_error r = Status InvalidArgument
     [S ''ramp-connector: invalid role '', Q r,
      S '', must be one of AUDITOR, BUSINESS_ADMIN, BUSINESS_BOOKKEEPER, BUSINESS_USER, GUEST_USER, IT_ADMIN''] None"

text \<open>The checks on the profile, in the code's order: the first that fails decides.\<close>

definition profile_request :: "proto_fields \<Rightarrow> gerror + create_user_request" where
  "profile_request fs =
     (case required_field fs ''email'' of Inl e \<Rightarrow> Inl e | Inr email \<Rightarrow>
     (case required_field fs ''first_name'' of Inl e \<Rightarrow> Inl e | Inr fname \<Rightarrow>
     (case required_field fs ''last_name'' of Inl e \<Rightarrow> Inl e | Inr lname \<Rightarrow>
     (case required_field fs ''role'' of Inl e \<Rightarrow> Inl e | Inr role \<Rightarrow>
        if role \<notin> set valid_create_roles then Inl (invalid_role_error role)
        else Inr \<lparr>cu_email = email, cu_first_name = fname, cu_last_name = lname, cu_role = role,
                  cu_idempotency_key = []\<rparr>))))"

definition invite_message :: "string \<Rightarrow> string" where
  "invite_message task =
     ''User invite sent (task '' @ task
     @ ''). Please sync after the user accepts the invite to retrieve their account.''"

definition create_account ::
    "'w svc \<Rightarrow> 'w client \<Rightarrow> proto_fields \<Rightarrow> 'w conn \<Rightarrow> create_account_result sync_reply \<times> 'w conn" where
  "create_account sv cl fs c =
     (case profile_request fs of
        Inl e \<Rightarrow> ((Inl e, []), c)
      | Inr req \<Rightarrow>
        (case find_user_by_email sv cl (cu_email req) c of
           ((r, rl), c1) \<Rightarrow>
             let annos = with_rate_limiting [] rl;
                 create = (\<lambda>_::unit.
                   case create_user sv cl req c1 of
                     ((r2, rl2), c2) \<Rightarrow>
                       let annos2 = with_rate_limiting annos rl2 in
                       (case r2 of
                          Inl e \<Rightarrow> ((Inl (Wrap [S ''ramp-connector: failed to create user: ''] e []), annos2), c2)
                        | Inr task \<Rightarrow> ((Inr (ActionRequiredResult (invite_message (dt_id task))), annos2), c2)))
             in case r of
                  Inl e \<Rightarrow>
                    if is_panic e then ((Inl e, annos), c1)
                    else if status_code e = NotFound then create ()
                    else ((Inl (Wrap [S ''ramp-connector: failed to look up existing user: ''] e []), annos), c1)
                | Inr (Some u) \<Rightarrow>
                    (case user_resource u of
                       Inl e \<Rightarrow> ((Inl (Wrap [S ''ramp-connector: failed to create resource for user '', S (us_id u), S '': ''] e []), annos), c1)
                     | Inr res \<Rightarrow> ((Inr (AlreadyExistsResult res), annos), c1))
                | Inr None \<Rightarrow> create ()))"

section \<open>Facts\<close>

definition user_status :: "user \<Rightarrow> resource_status" where
  "user_status u = (if us_status u \<in> {''USER_ACTIVE'', ''USER_ONBOARDING''} then ResourceEnabled else ResourceDisabled)"

definition resource_of_user :: "user \<Rightarrow> resource" where
  "resource_of_user u =
     \<lparr>res_id = \<lparr>ri_type = ''user'', ri_resource = us_id u\<rparr>,
      res_display_name = us_first_name u @ '' '' @ us_last_name u, res_external_id = None,
      res_status = Some (user_status u, []),
      res_annotations = [AUserTrait \<lparr>ut_emails = (if us_email u = [] then [] else [(us_email u, True)]),
         ut_login = us_email u, ut_status = Some ResourceEnabled, ut_human = True\<rparr>]\<rparr>"

lemma user_resource_total [simp]: "user_resource u = Inr (resource_of_user u)"
  by (simp add: user_resource_def new_resource_def with_user_trait_def new_user_trait_def sdk_option_defs
      zero_user_trait_def anno_pick_def anno_update_def new_resource_id_def user_status_def Let_def
      user_resource_type_id_def resource_of_user_def)

lemma user_page_loop_spec:
  "user_page_loop U p (map Some us) =
     Inr \<lparr>up_resources = up_resources p @ map resource_of_user us,
          up_unknown = up_unknown p \<union> normalize_ramp_role U ` {u_role. u_role \<in> us_role ` set us \<and> \<not> is_known_ramp_role U u_role},
          up_unknown_count = up_unknown_count p + length (filter (\<lambda>u. \<not> is_known_ramp_role U (us_role u)) us)\<rparr>"
proof (induction us arbitrary: p)
  case (Cons u us)
  then show ?case by (auto simp: Let_def)
qed simp

lemma user_page_loop_nil: "None \<in> set us \<Longrightarrow> user_page_loop U p us = Inl nil_dereference"
  by (induction U p us rule: user_page_loop.induct) (auto simp: Let_def)

lemma required_field_Inr: "required_field fs k = Inr s \<longleftrightarrow> s \<noteq> [] \<and> map_of fs k = Some (VString s)"
  by (auto simp: required_field_def string_value_def split: option.splits proto_value.splits)

lemma required_field_Inl: "required_field fs k = Inl e \<Longrightarrow> e = required_error k"
  by (auto simp: required_field_def split: option.splits if_splits)

lemma profile_request_Inr:
  "profile_request fs = Inr req \<longleftrightarrow>
     map_of fs ''email'' = Some (VString (cu_email req)) \<and> cu_email req \<noteq> []
     \<and> map_of fs ''first_name'' = Some (VString (cu_first_name req)) \<and> cu_first_name req \<noteq> []
     \<and> map_of fs ''last_name'' = Some (VString (cu_last_name req)) \<and> cu_last_name req \<noteq> []
     \<and> map_of fs ''role'' = Some (VString (cu_role req)) \<and> cu_role req \<in> set valid_create_roles
     \<and> cu_idempotency_key req = []"
proof -
  have ne: "r \<in> set valid_create_roles \<Longrightarrow> r \<noteq> []" for r by (auto simp: valid_create_roles_def)
  have get: "required_field fs k = Inr s" if "map_of fs k = Some (VString s)" "s \<noteq> []" for k s
    using that by (simp add: required_field_Inr)
  show ?thesis (is "?l \<longleftrightarrow> ?r")
  proof
    assume ?l
    then show ?r by (auto simp: profile_request_def required_field_Inr split: sum.splits if_splits)
  next
    assume ?r
    then show ?l using get ne by (cases req) (auto simp: profile_request_def)
  qed
qed

end
