(* ===== verification/Ramp_Server.thy ===== *)
theory Ramp_Server
  imports Owner_Register Feed_Polls Users
begin

text \<open>
  Servers the client can talk to, for the interpretations and witnesses: answers are printed JSON, so
  that decoding them is the round trip of the JSON theory. The vendor server keeps the owner of each
  vendor and answers \<open>GET\<close> and \<open>PATCH\<close> of \<open>/developer/v1/vendors/<id>\<close>; the page server answers every
  request with one value.
\<close>

section \<open>Answers\<close>

definition json_response :: "json \<Rightarrow> http_response" where
  "json_response j =
     \<lparr>rs_status = 200, rs_status_text = ''200 OK'', rs_headers = [(''Content-Type'', ''application/json'')],
      rs_body = print_json j\<rparr>"

definition no_limits :: rate_limit where
  "no_limits = \<lparr>rl_status = RL_Unspecified, rl_limit = 0, rl_remaining = 0, rl_reset_at = Some (timestamp_of zero_time)\<rparr>"

lemma header_get_content_type [simp]:
  "header_get [(''Content-Type'', v)] ''Content-Type'' = v"
  by (simp add: header_get_def)

lemma json_response_limits: "extract_rate_limit sv w 200 (rs_headers (json_response j)) = Some no_limits"
  by (simp add: extract_rate_limit_def json_response_def limit_headers_def remaining_headers_def
      reset_at_headers_def header_get_def no_limits_def Let_def)

lemma to_lower_ascii: "ascii s \<Longrightarrow> to_lower U s = map lower_byte s"
proof -
  have single: "encode_rune (rune_lower U (byte c)) = [lower_byte c]" if "byte c < 128" for c
    using that by (simp add: rune_lower_def lower_byte_def encode_rune_ascii)
  assume a: "ascii s"
  then have "concat (map (\<lambda>c. encode_rune (rune_lower U (byte c))) s) = map lower_byte s"
    using single by (induction s) simp_all
  with a show ?thesis by (simp add: to_lower_def runes_ascii o_def)
qed

lemma json_content_type: "is_json_content_type U ''application/json''"
proof -
  have "to_lower U ''application/json'' = ''application/json''"
    by (simp add: to_lower_ascii lower_byte_def)
  moreover have "trim_space ''application/json'' = ''application/json''"
    by (simp add: trim_space_ascii is_space_def)
  moreover have "go_contains ''application/json'' ''json''"
    unfolding go_contains_iff by (rule exI [of _ "''application/''"], rule exI [of _ "[]"]) simp
  moreover have "has_prefix ''application/json'' ''application''" by (simp add: has_prefix_def)
  ultimately show ?thesis by (simp add: is_json_content_type_def)
qed

text \<open>What one decoded answer does to the state.\<close>

definition remember :: "'w svc \<Rightarrow> http_request \<Rightarrow> url \<Rightarrow> http_response \<Rightarrow> 'w conn \<Rightarrow> 'w conn" where
  "remember sv rq u resp c = (if rq_method rq = method_get then cache_set sv u (rq_headers rq) resp c else c)"

lemma finish_json:
  assumes "wf_json j" "depth j \<le> max_nesting" "dec j a = Some b"
  shows "finish_do sv rq u (Some dec) a (json_response j) c =
    ((Inr b, no_limits), remember sv rq u (json_response j) c)"
proof -
  have st: "rs_status (json_response j) = 200" "rs_headers (json_response j) = [(''Content-Type'', ''application/json'')]"
    "rs_body (json_response j) = print_json j" by (simp_all add: json_response_def)
  have rl: "rate_limit_option sv (cn_world c) (json_response j) = Inr no_limits"
    using json_response_limits [of sv "cn_world c" j] st by (simp add: rate_limit_option_def)
  have "json_response_option sv dec (json_response j) a = Inr b"
    using assms(3) json_content_type by (simp add: json_response_option_def st unmarshal_print [OF assms(1,2)])
  with rl have "run_options sv (cn_world c) (Some dec) (json_response j) a = ([], no_limits, b)"
    by (simp add: run_options_def)
  then show ?thesis by (simp add: finish_do_def st is_success_status_def errors_join_def remember_def)
qed

section \<open>A client with a static token at the default address\<close>

definition ramp_origin :: string where
  "ramp_origin = ''https://api.ramp.com''"

definition static_client :: "string \<Rightarrow> 'w client" where
  "static_client tok = new_client (static_token tok) ramp_origin"

definition api_prefix :: string where
  "api_prefix = ''/developer/v1/''"

definition plain_rest :: "string \<Rightarrow> bool" where
  "plain_rest p = list_all plain_char p"

lemma origin_parts: "ramp_origin = ''https'' @ ''://'' @ ''api.ramp.com''"
  by (simp add: ramp_origin_def)

lemma plain_origin: "plain_scheme ''https''" "plain_host ''api.ramp.com''" "plain_rest p \<Longrightarrow> plain_path (api_prefix @ p)"
  by (simp_all add: plain_scheme_def plain_host_def plain_path_def plain_rest_def api_prefix_def plain_char_def is_alnum_def)

definition api_url :: "string \<Rightarrow> url" where
  "api_url p = plain_url ''https'' ''api.ramp.com'' (api_prefix @ p)"

lemma api_url_string: "plain_rest p \<Longrightarrow> url_string (api_url p) = ramp_origin @ api_prefix @ p"
  using url_string_plain(1) [OF plain_origin(1,2) plain_origin(3)] by (simp add: api_url_def origin_parts)

lemma api_url_parse: "plain_rest p \<Longrightarrow> url_parse (ramp_origin @ api_prefix @ p) = Some (api_url p)"
  using url_parse_plain [OF plain_origin(1,2) plain_origin(3)] by (simp add: api_url_def origin_parts)

lemma new_unpaginated_url_plain:
  assumes "plain_rest p" "cl_base_url cl = ramp_origin"
  shows "new_unpaginated_url cl p = Inr (ramp_origin @ api_prefix @ p)"
proof -
  have "resolve_base_url ramp_origin = ramp_origin" by (simp add: resolve_base_url_def trim_right_def ramp_origin_def)
  then have s: "resolve_base_url (cl_base_url cl) @ ''/'' @ api_path @ ''/'' @ api_version @ ''/'' @ p
      = ramp_origin @ api_prefix @ p"
    by (simp add: assms(2) api_path_def api_version_def api_prefix_def)
  show ?thesis unfolding new_unpaginated_url_def Let_def s
    by (simp add: api_url_parse [OF assms(1)] api_url_string [OF assms(1)])
qed

lemma do_query_plain:
  assumes "plain_rest p"
  shows "do_query sv cl ctx meth (ramp_origin @ api_prefix @ p) body dec a nc c =
    (case http_do sv (cl_sources cl) ctx (build_request meth (api_url p) body nc) (api_url p) dec a c of
       ((Inl e, rl), c') \<Rightarrow>
         ((Inl (Wrap [S ''failed to execute request '', S (ramp_origin @ api_prefix @ p), S '': ''] e []), Some rl), c')
     | ((Inr b, rl), c') \<Rightarrow> ((Inr b, Some rl), c'))"
  unfolding do_query_def api_url_parse [OF assms] option.case api_url_string [OF assms] ..

lemma round_trip_static:
  assumes "tok \<noteq> []" "sv_send sv (rq\<lparr>rq_headers := header_set ''Authorization'' (''Bearer '' @ tok) (rq_headers rq)\<rparr>)
      (cn_world c) = (Inr (json_response j), w)"
  shows "round_trip sv (cl_sources (static_client tok)) ctx rq c =
    (Inr (json_response j), c\<lparr>cn_rate_limit := None, cn_world := w\<rparr>)"
  using assms
  by (simp add: round_trip_def static_client_def new_client_def new_with_token_sources_def for_class_read_only
      static_token_def Let_def json_response_def)

section \<open>The vendor server\<close>

type_synonym vendor_world = "string \<Rightarrow> string"

definition vendor_json :: "string \<Rightarrow> string \<Rightarrow> json" where
  "vendor_json v owner = JObj [(''id'', JStr v), (''name'', JStr ''Vendor''), (''vendor_owner_id'', JStr owner)]"

definition owner_of_body :: "string option \<Rightarrow> string" where
  "owner_of_body b =
     (case Option.bind b parse_json of Some (JObj [(k, JStr s)]) \<Rightarrow> s | _ \<Rightarrow> [])"

definition vendor_of_url :: "string \<Rightarrow> string" where
  "vendor_of_url u = drop (length (ramp_origin @ api_prefix @ ''vendors/'')) u"

definition vendor_send :: "http_request \<Rightarrow> vendor_world \<Rightarrow> (gerror + http_response) \<times> vendor_world" where
  "vendor_send rq w =
     (let v = vendor_of_url (rq_url rq);
          w' = (if rq_method rq = method_patch then w(v := owner_of_body (rq_body rq)) else w)
      in (Inr (json_response (vendor_json v (w' v))), w'))"

definition vendor_server :: "bool \<Rightarrow> vendor_world svc \<Rightarrow> vendor_world svc" where
  "vendor_server caching sv = sv\<lparr>sv_send := vendor_send, sv_caching := caching\<rparr>"

text \<open>Vendor identifiers that stand in a URL as they are, and owners that JSON can carry.\<close>

definition vendor_name :: "string \<Rightarrow> bool" where
  "vendor_name v = list_all (\<lambda>c. plain_char c \<and> c \<noteq> CHR ''/'') v"

definition vendor_named :: "string \<Rightarrow> string \<Rightarrow> vendor" where
  "vendor_named v owner = zero_vendor\<lparr>ve_id := v, ve_name := ''Vendor'', ve_vendor_owner_id := owner\<rparr>"

lemma plain_char_ascii: "plain_char c \<Longrightarrow> byte c < 128"
  unfolding plain_char_def is_alnum_def Let_def by auto

lemma vendor_name_facts:
  assumes "vendor_name v"
  shows "plain_rest (''vendors/'' @ v)" "valid_utf8 v"
proof -
  have a: "list_all plain_char v" using assms by (auto simp: vendor_name_def list_all_iff)
  then show "plain_rest (''vendors/'' @ v)"
    by (simp add: plain_rest_def) (simp add: plain_char_def is_alnum_def)
  show "valid_utf8 v" using a plain_char_ascii by (auto intro!: valid_utf8_ascii simp: ascii_def list_all_iff)
qed

lemma vendor_json_ok:
  assumes "valid_utf8 v" "valid_utf8 o'"
  shows "wf_json (vendor_json v o')" "depth (vendor_json v o') \<le> max_nesting"
    "decode_vendor (vendor_json v o') zero_vendor = Some (vendor_named v o')"
proof -
  have k: "valid_utf8 ''id''" "valid_utf8 ''name''" "valid_utf8 ''vendor_owner_id''" "valid_utf8 ''Vendor''"
    by (rule valid_utf8_ascii, simp)+
  show "wf_json (vendor_json v o')" using assms k by (simp add: vendor_json_def)
  show "depth (vendor_json v o') \<le> max_nesting" by (simp add: vendor_json_def max_nesting_def)
  show "decode_vendor (vendor_json v o') zero_vendor = Some (vendor_named v o')"
    by (simp add: vendor_json_def decode_vendor_def key_matches_ascii fold_rune_def vendor_named_def)
qed

lemma build_request_simps [simp]:
  "rq_method (build_request meth u b nc) = meth" "rq_url (build_request meth u b nc) = url_string u"
  "rq_body (build_request meth u b nc) = map_option print_json b"
  by (simp_all add: build_request_def)

definition vendor_path :: "string \<Rightarrow> string" where
  "vendor_path v = ''vendors/'' @ v"

definition vendor_url :: "string \<Rightarrow> url" where
  "vendor_url v = api_url (vendor_path v)"

lemma vendor_path_plain: "vendor_name v \<Longrightarrow> plain_rest (vendor_path v)"
  using vendor_name_facts(1) by (simp add: vendor_path_def)

lemma vendor_of_url: "vendor_name v \<Longrightarrow> vendor_of_url (url_string (vendor_url v)) = v"
  by (simp add: vendor_url_def api_url_string vendor_path_plain) (simp add: vendor_of_url_def vendor_path_def)

lemma vendor_request_url:
  "vendor_name v \<Longrightarrow>
     new_unpaginated_url (static_client tok) (vendors_path @ ''/'' @ v) = Inr (ramp_origin @ api_prefix @ vendor_path v)"
  using new_unpaginated_url_plain [OF vendor_path_plain, of v "static_client tok"]
  by (simp add: vendors_path_def vendor_path_def static_client_def new_client_def new_with_token_sources_def)

definition vendor_key :: "'w svc \<Rightarrow> string \<Rightarrow> string" where
  "vendor_key sv v = cache_key sv (vendor_url v) []"

definition valid_owners :: "vendor_world conn \<Rightarrow> bool" where
  "valid_owners c = (\<forall>v. valid_utf8 (cn_world c v))"

text \<open>Reading a vendor that is not in the cache, and one that is.\<close>

definition fetched :: "bool \<Rightarrow> vendor_world svc \<Rightarrow> string \<Rightarrow> vendor_world conn \<Rightarrow> vendor_world conn" where
  "fetched caching sv v c =
     cache_set (vendor_server caching sv) (vendor_url v) [] (json_response (vendor_json v (cn_world c v)))
       (c\<lparr>cn_rate_limit := None\<rparr>)"

lemma get_vendor_miss:
  assumes "tok \<noteq> []" "vendor_name v" "valid_utf8 (cn_world c v)"
    and "\<not> caching \<or> cn_cache c (vendor_key sv v) = None"
  shows "get_vendor (vendor_server caching sv) (static_client tok) v c =
    ((Inr (vendor_named v (cn_world c v)), Some no_limits), fetched caching sv v c)"
proof -
  let ?sv = "vendor_server caching sv" and ?u = "vendor_url v"
  let ?rq = "build_request method_get ?u None False"
  note n = vendor_name_facts [OF assms(2)]
  note j = vendor_json_ok [OF n(2) assms(3)]
  note u = vendor_request_url [OF assms(2)]
  have hs: "rq_headers ?rq = []" by (simp add: build_request_def)
  have miss: "cache_get ?sv ?u [] c = None"
    using assms(4) by (auto simp: cache_get_def vendor_server_def vendor_key_def cache_key_def)
  have send: "sv_send ?sv (?rq\<lparr>rq_headers := header_set ''Authorization'' (''Bearer '' @ tok) (rq_headers ?rq)\<rparr>)
      (cn_world c) = (Inr (json_response (vendor_json v (cn_world c v))), cn_world c)"
    by (simp add: vendor_server_def vendor_send_def vendor_of_url [OF assms(2)]
        method_get_def method_patch_def Let_def)
  have "http_do ?sv (cl_sources (static_client tok)) None ?rq ?u (Some decode_vendor) zero_vendor c =
      ((Inr (vendor_named v (cn_world c v)), no_limits), fetched caching sv v c)"
    using miss hs
    by (simp add: http_do_miss round_trip_static [OF assms(1) send] finish_json [where dec = decode_vendor and a = zero_vendor, OF j] remember_def
        fetched_def)
  then show ?thesis
    unfolding get_vendor_def u sum.case query_def do_query_plain [OF vendor_path_plain [OF assms(2)]] vendor_url_def [symmetric]
    by (simp add: wrap_reply_def)
qed

lemma get_vendor_hit:
  assumes "vendor_name v" "valid_utf8 x" "cn_cache c (vendor_key sv v) = Some (json_response (vendor_json v x))"
  shows "get_vendor (vendor_server True sv) (static_client tok) v c =
    ((Inr (vendor_named v x), Some no_limits),
     cache_set (vendor_server True sv) (vendor_url v) [] (json_response (vendor_json v x)) c)"
proof -
  let ?sv = "vendor_server True sv" and ?u = "vendor_url v"
  let ?rq = "build_request method_get ?u None False"
  note n = vendor_name_facts [OF assms(1)]
  note j = vendor_json_ok [OF n(2) assms(2)]
  note u = vendor_request_url [OF assms(1)]
  have hs: "rq_headers ?rq = []" by (simp add: build_request_def)
  have hit: "cache_get ?sv ?u [] c = Some (json_response (vendor_json v x))"
    using assms(3) by (simp add: cache_get_def vendor_server_def vendor_key_def cache_key_def)
  have "http_do ?sv (cl_sources (static_client tok)) None ?rq ?u (Some decode_vendor) zero_vendor c =
      ((Inr (vendor_named v x), no_limits),
       cache_set (vendor_server True sv) (vendor_url v) [] (json_response (vendor_json v x)) c)"
    using hit hs by (simp add: http_do_hit header_get_def finish_json [where dec = decode_vendor and a = zero_vendor, OF j] remember_def)
  then show ?thesis
    unfolding get_vendor_def u sum.case query_def do_query_plain [OF vendor_path_plain [OF assms(1)]] vendor_url_def [symmetric]
    by (simp add: wrap_reply_def)
qed

lemma owner_patch_ok:
  assumes "valid_utf8 x"
  shows "owner_of_body (Some (print_json (json_of_owner_patch x))) = x"
proof -
  have "valid_utf8 ''vendor_owner_id''" by (rule valid_utf8_ascii) simp
  then have "wf_json (json_of_owner_patch x)" "depth (json_of_owner_patch x) \<le> max_nesting"
    using assms by (simp_all add: json_of_owner_patch_def max_nesting_def)
  then have "parse_json (print_json (json_of_owner_patch x)) = Some (json_of_owner_patch x)"
    by (rule parse_print_json)
  then show ?thesis by (simp add: owner_of_body_def json_of_owner_patch_def)
qed

text \<open>Writing the owner: the server has it, the cache is as it was.\<close>

lemma update_owner_served:
  assumes "tok \<noteq> []" "vendor_name v" "valid_utf8 x"
  shows "update_vendor_owner (vendor_server caching sv) (static_client tok) v x c =
    ((Inr (), Some no_limits), c\<lparr>cn_rate_limit := None, cn_world := (cn_world c)(v := x)\<rparr>)"
proof -
  let ?sv = "vendor_server caching sv" and ?u = "vendor_url v"
  let ?rq = "build_request method_patch ?u (Some (json_of_owner_patch x)) False"
  note n = vendor_name_facts [OF assms(2)]
  note j = vendor_json_ok [OF n(2) assms(3)]
  note u = vendor_request_url [OF assms(2)]
  have send: "sv_send ?sv (?rq\<lparr>rq_headers := header_set ''Authorization'' (''Bearer '' @ tok) (rq_headers ?rq)\<rparr>)
      (cn_world c) = (Inr (json_response (vendor_json v x)), (cn_world c)(v := x))"
    by (simp add: vendor_server_def vendor_send_def vendor_of_url [OF assms(2)]
        method_patch_def Let_def owner_patch_ok [OF assms(3)])
  have "http_do ?sv (cl_sources (static_client tok)) (with_scope_class None ScopeVendorsWrite) ?rq ?u
      (Some decode_vendor) zero_vendor c =
      ((Inr (vendor_named v x), no_limits), c\<lparr>cn_rate_limit := None, cn_world := (cn_world c)(v := x)\<rparr>)"
    by (simp add: http_do_miss method_patch_def method_get_def
        round_trip_static [OF assms(1) send [unfolded method_patch_def]] finish_json [where dec = decode_vendor and a = zero_vendor, OF j] remember_def)
  then show ?thesis
    unfolding update_vendor_owner_def u sum.case query_with_body_def do_query_plain [OF vendor_path_plain [OF assms(2)]] vendor_url_def [symmetric]
    by (simp add: wrap_reply_def)
qed

lemma no_token_round_trip:
  "\<exists>e. round_trip sv (cl_sources (static_client [])) ctx rq c = (Inl e, c\<lparr>cn_rate_limit := None\<rparr>)"
  by (cases c)
    (auto simp: round_trip_def static_client_def new_client_def new_with_token_sources_def for_class_read_only
      static_token_def Let_def)

lemma no_token_get:
  assumes "vendor_name v"
  shows "\<exists>r. get_vendor (vendor_server False sv) (static_client []) v c = (r, c\<lparr>cn_rate_limit := None\<rparr>) \<and> \<not> is_ok (fst r)"
proof -
  let ?sv = "vendor_server False sv" and ?rq = "build_request method_get (vendor_url v) None False"
  obtain e where e: "round_trip ?sv (cl_sources (static_client [])) None ?rq c = (Inl e, c\<lparr>cn_rate_limit := None\<rparr>)"
    using no_token_round_trip by blast
  have "cache_get ?sv (vendor_url v) (rq_headers ?rq) c = None" by (simp add: cache_get_def vendor_server_def)
  then show ?thesis
    unfolding get_vendor_def vendor_request_url [OF assms] sum.case query_def
      do_query_plain [OF vendor_path_plain [OF assms]] vendor_url_def [symmetric]
    by (simp add: http_do_miss e wrap_reply_def)
qed

lemma patch_not_get: "method_patch \<noteq> method_get"
  by (simp add: method_patch_def method_get_def)

lemma no_token_update:
  assumes "vendor_name v"
  shows "\<exists>r. update_vendor_owner (vendor_server False sv) (static_client []) v x c = (r, c\<lparr>cn_rate_limit := None\<rparr>)
    \<and> \<not> is_ok (fst r)"
proof -
  let ?sv = "vendor_server False sv"
  let ?rq = "build_request method_patch (vendor_url v) (Some (json_of_owner_patch x)) False"
  obtain e where e: "round_trip ?sv (cl_sources (static_client [])) (with_scope_class None ScopeVendorsWrite) ?rq c =
      (Inl e, c\<lparr>cn_rate_limit := None\<rparr>)"
    using no_token_round_trip by blast
  show ?thesis
    unfolding update_vendor_owner_def vendor_request_url [OF assms] sum.case query_with_body_def
      do_query_plain [OF vendor_path_plain [OF assms]] vendor_url_def [symmetric]
    by (simp add: http_do_miss patch_not_get e wrap_reply_def)
qed

lemma fetched_plain: "fetched False sv v c = c\<lparr>cn_rate_limit := None\<rparr>"
  by (simp add: fetched_def cache_set_def vendor_server_def)

text \<open>Vendors and users a call can name in a URL and in a body.\<close>

definition owner_named :: "owner_op \<Rightarrow> bool" where
  "owner_named op = (vendor_name (op_vendor op) \<and> valid_utf8 (op_user op))"

lemma valid_owners_step:
  assumes "owner_step op (cn_world c) r (cn_world c')" "owner_named op" "valid_owners c"
  shows "valid_owners c'"
proof -
  have "valid_utf8 []" by (rule valid_utf8_ascii) simp
  from owner_step_keeps [OF assms(1), of valid_utf8, OF _ this] assms(2,3)
  show ?thesis by (simp add: valid_owners_def owner_named_def)
qed

text \<open>Without the response cache Grant and Revoke are steps of the machine of owners.\<close>

lemma owner_call_served:
  assumes "owner_named op" "valid_owners c" "owner_call (vendor_server False sv) (static_client tok) op c = (a, c')"
  shows "owner_step op (cn_world c) a (cn_world c')"
proof -
  let ?v = "op_vendor op"
  have v: "vendor_name ?v" "valid_utf8 (op_user op)" using assms(1) by (simp_all add: owner_named_def)
  have e: "valid_utf8 []" by (rule valid_utf8_ascii) simp
  obtain r rl c1 where g: "get_vendor (vendor_server False sv) (static_client tok) ?v c = ((r, rl), c1)" by (metis prod.exhaust)
  have c1: "c1 = c\<lparr>cn_rate_limit := None\<rparr>" "\<And>x. r = Inr x \<Longrightarrow> tok \<noteq> [] \<and> ve_vendor_owner_id x = cn_world c ?v"
    using g no_token_get [OF v(1), of sv c] get_vendor_miss [of tok ?v c False sv] v(1) assms(2)
    by (cases "tok = []"; fastforce simp: valid_owners_def fetched_plain vendor_named_def)+
  show ?thesis
  proof (rule owner_call_step [where own = cn_world, OF g _ _ _ assms(3)])
    show "cn_world c1 = cn_world c" by (simp add: c1(1))
    show "ve_vendor_owner_id x = cn_world c ?v" if "r = Inr x" for x using c1(2) [OF that] ..
    fix x q c2 assume x: "x = op_user op \<or> x = []"
      and u: "update_vendor_owner (vendor_server False sv) (static_client tok) ?v x c1 = (q, c2)"
    have "valid_utf8 x" using x v(2) e by auto
    with u no_token_update [OF v(1), of sv x c1] update_owner_served [of tok ?v x False sv c1] v(1) c1(1)
    show "cn_world c2 = (cn_world c)(?v := x) \<or> cn_world c2 = cn_world c \<and> \<not> is_ok (fst q)"
      by (cases "tok = []") auto
  qed
qed

interpretation reg: owner_service
  "owner_call (vendor_server False sv) (static_client tok)" cn_world valid_owners owner_named for sv tok
  by unfold_locales (blast intro: owner_call_served valid_owners_step)

section \<open>A server with one answer\<close>

definition page_server :: "json \<Rightarrow> 'w svc \<Rightarrow> 'w svc" where
  "page_server j sv = sv\<lparr>sv_send := (\<lambda>rq w. (Inr (json_response j), w)), sv_caching := False\<rparr>"

lemma http_do_page:
  assumes "tok \<noteq> []" "wf_json j" "depth j \<le> max_nesting" "dec j a = Some b"
  shows "http_do (page_server j sv) (cl_sources (static_client tok)) ctx rq u (Some dec) a c =
    ((Inr b, no_limits), c\<lparr>cn_rate_limit := None\<rparr>)"
proof -
  let ?sv = "page_server j sv"
  have send: "sv_send ?sv (rq\<lparr>rq_headers := header_set ''Authorization'' (''Bearer '' @ tok) (rq_headers rq)\<rparr>)
      (cn_world c) = (Inr (json_response j), cn_world c)" by (simp add: page_server_def)
  have miss: "cache_get ?sv u (rq_headers rq) c = None" by (simp add: cache_get_def page_server_def)
  have st: "c\<lparr>cn_rate_limit := None, cn_world := cn_world c\<rparr> = c\<lparr>cn_rate_limit := None\<rparr>" by simp
  show ?thesis
    using miss
    by (simp add: http_do_miss round_trip_static [OF assms(1) send] st remember_def cache_set_def
        finish_json [where dec = dec and a = a, OF assms(2-4)])
      (simp add: page_server_def)
qed

definition api_query_url :: "string \<Rightarrow> string \<Rightarrow> url" where
  "api_query_url p q = (api_url p)\<lparr>u_raw_query := q\<rparr>"

lemma api_query_url_string:
  "plain_rest p \<Longrightarrow> q \<noteq> [] \<Longrightarrow> url_string (api_query_url p q) = ramp_origin @ api_prefix @ p @ CHR ''?'' # q"
  using url_string_plain(2) [OF plain_origin(1,2) plain_origin(3)]
  by (simp add: api_query_url_def api_url_def origin_parts)

lemma api_query_url_parse:
  "plain_rest p \<Longrightarrow> plain_query q \<Longrightarrow> url_parse (ramp_origin @ api_prefix @ p @ CHR ''?'' # q) = Some (api_query_url p q)"
  using url_parse_plain_query [OF plain_origin(1,2) plain_origin(3)]
  by (simp add: api_query_url_def api_url_def origin_parts)

lemma do_query_page:
  assumes "tok \<noteq> []" "wf_json j" "depth j \<le> max_nesting" "dec j a = Some b" "plain_rest p"
  shows "do_query (page_server j sv) (static_client tok) ctx meth (ramp_origin @ api_prefix @ p) body (Some dec) a nc c =
    ((Inr b, Some no_limits), c\<lparr>cn_rate_limit := None\<rparr>)"
  by (simp add: do_query_plain [OF assms(5)] http_do_page [where dec = dec and a = a, OF assms(1-4)])

lemma do_query_query_page:
  assumes "tok \<noteq> []" "wf_json j" "depth j \<le> max_nesting" "dec j a = Some b" "plain_rest p" "plain_query q"
  shows "do_query (page_server j sv) (static_client tok) ctx meth (ramp_origin @ api_prefix @ p @ CHR ''?'' # q) body
      (Some dec) a nc c = ((Inr b, Some no_limits), c\<lparr>cn_rate_limit := None\<rparr>)"
proof -
  have q: "q \<noteq> []" using assms(6) by (simp add: plain_query_def)
  show ?thesis
    by (simp add: do_query_def api_query_url_parse [OF assms(5,6)] api_query_url_string [OF assms(5) q]
        http_do_page [where dec = dec and a = a, OF assms(1-4)])
qed

lemma static_client_base [simp]: "cl_base_url (static_client tok) = ramp_origin"
  by (simp add: static_client_def new_client_def new_with_token_sources_def)

lemma page_url_first:
  "plain_rest p \<Longrightarrow> page_url (static_client tok) p [] = Inr (ramp_origin @ api_prefix @ p)"
  by (simp add: page_url_def new_unpaginated_url_plain)

lemma page_size_url:
  assumes "plain_rest p"
  shows "url_string ((api_url p)\<lparr>u_raw_query := values_encode (with_page_size 100 (url_query (api_url p)))\<rparr>) =
     ramp_origin @ api_prefix @ p @ ''?page_size=100''"
proof -
  have "url_query (api_url p) = []" by (simp add: url_query_def api_url_def plain_url_def empty_url_def) code_simp
  moreover have "values_encode (with_page_size 100 []) = ''page_size=100''" by code_simp
  ultimately show ?thesis
    using api_query_url_string [OF assms, of "''page_size=100''"] by (simp add: api_query_url_def)
qed

lemma plain_page_size: "plain_query ''page_size=100''"
  by (simp add: plain_query_def)

lemma list_audit_log_events_page:
  assumes "tok \<noteq> []" "wf_json j" "depth j \<le> max_nesting"
    and "decode_audit_events_list j zero_audit_events_list = Some l" "flatten_audit_events (aq_data_raw l) = Inr evs"
  shows "list_audit_log_events (page_server j sv) (static_client tok) audit_log_events_page_size [] c =
    ((Inr (evs, pg_next (aq_page l)), Some no_limits), c\<lparr>cn_rate_limit := None\<rparr>)"
proof -
  have p: "plain_rest audit_log_events_path" by (simp add: plain_rest_def audit_log_events_path_def plain_char_def is_alnum_def)
  have u: "add_audit_log_events_list_params (ramp_origin @ api_prefix @ audit_log_events_path) audit_log_events_page_size =
      Inr (ramp_origin @ api_prefix @ audit_log_events_path @ ''?page_size=100'')"
    unfolding add_audit_log_events_list_params_def api_url_parse [OF p] option.case audit_log_events_page_size_def Let_def
    using page_size_url [OF p] by simp
  show ?thesis
    unfolding list_audit_log_events_def page_url_first [OF p] sum.case u query_def
    by (simp add: do_query_query_page [where dec = decode_audit_events_list and a = zero_audit_events_list,
        OF assms(1-4) p plain_page_size] assms(5))
qed

end
