(* ===== verification/Sample_Pages.thy ===== *)
theory Sample_Pages
  imports Ramp_Server
begin

text \<open>
  The list operations of the client against a server that answers one page: what they give for a page of
  users, vendors or agreements, for the witnesses.
\<close>

definition page_json :: "json list \<Rightarrow> json" where
  "page_json js = JObj [(''page'', JObj [(''next'', JNull)]), (''data'', JArr js)]"

lemma page_json_ok:
  assumes "list_all wf_json js" "list_all (\<lambda>j. depth j \<le> 3) js"
  shows "wf_json (page_json js)" "depth (page_json js) \<le> max_nesting"
proof -
  have k: "valid_utf8 ''page''" "valid_utf8 ''next''" "valid_utf8 ''data''" by (rule valid_utf8_ascii, simp)+
  show "wf_json (page_json js)" using k assms(1) by (simp add: page_json_def)
  show "depth (page_json js) \<le> max_nesting"
    using assms(2) by (simp add: page_json_def max_nesting_def fold_max_le list_all_iff) fastforce
qed

lemmas list_decoder_simps =
  page_json_def key_matches_ascii fold_rune_def dec_nested_def dec_list_def decode_page_def zero_page_def

section \<open>Agreements\<close>

lemma list_vendor_agreements_page:
  assumes "tok \<noteq> []" "list_all wf_json js" "list_all (\<lambda>j. depth j \<le> 3) js"
    and "decode_elems (elem_pointer decode_agreement_item zero_agreement_item) None js [] = Some as"
  shows "list_vendor_agreements (page_server (page_json js) sv) (static_client tok) (Some empty_agreements_request) [] c =
    ((Inr \<lparr>gs_agreements = as, gs_pagination = []\<rparr>, Some no_limits), c\<lparr>cn_rate_limit := None\<rparr>)"
proof -
  let ?l = "\<lparr>al_page = \<lparr>pg_next = []\<rparr>, al_data = as\<rparr>"
  have p: "plain_rest vendor_agreements_path"
    by (simp add: plain_rest_def vendor_agreements_path_def plain_char_def is_alnum_def)
  have dec: "decode_agreements_list (page_json js) zero_agreements_list = Some ?l"
    using assms(4) by (simp add: list_decoder_simps decode_agreements_list_def decode_agreements_fields_def zero_agreements_list_def)
  show ?thesis
    unfolding list_vendor_agreements_def page_url_first [OF p] sum.case Let_def query_with_body_def
      do_query_page [where dec = decode_agreements_list and a = zero_agreements_list,
        OF assms(1) page_json_ok [OF assms(2,3)] dec p]
    by (simp add: wrap_reply_def)
qed

section \<open>Vendors\<close>

lemma list_vendors_page:
  assumes "tok \<noteq> []" "list_all wf_json js" "list_all (\<lambda>j. depth j \<le> 3) js"
    and "decode_elems (elem_pointer decode_vendor zero_vendor) None js [] = Some vs"
  shows "list_vendors (page_server (page_json js) sv) (static_client tok) [] c =
    ((Inr \<lparr>vr_vendors = vs, vr_pagination = []\<rparr>, Some no_limits), c\<lparr>cn_rate_limit := None\<rparr>)"
proof -
  let ?l = "\<lparr>vl_page = \<lparr>pg_next = []\<rparr>, vl_vendors = vs\<rparr>"
  have p: "plain_rest vendors_path"
    by (simp add: plain_rest_def vendors_path_def plain_char_def is_alnum_def)
  have dec: "decode_vendors_list (page_json js) zero_vendors_list = Some ?l"
    using assms(4) by (simp add: list_decoder_simps decode_vendors_list_def zero_vendors_list_def)
  have u: "add_vendors_list_params (ramp_origin @ api_prefix @ vendors_path) =
      Inr (ramp_origin @ api_prefix @ vendors_path @ ''?page_size=100'')"
    unfolding add_vendors_list_params_def api_url_parse [OF p] option.case default_page_size_def
    using page_size_url [OF p] by simp
  show ?thesis
    unfolding list_vendors_def page_url_first [OF p] sum.case u query_def
    by (simp add: do_query_query_page [where dec = decode_vendors_list and a = zero_vendors_list,
        OF assms(1) page_json_ok [OF assms(2,3)] dec p plain_page_size] wrap_reply_def)
qed

section \<open>Users\<close>

lemma list_users_page:
  assumes "tok \<noteq> []" "list_all wf_json js" "list_all (\<lambda>j. depth j \<le> 3) js"
    and "decode_elems (elem_pointer decode_user zero_user) None js [] = Some us"
  shows "list_users (page_server (page_json js) sv) (static_client tok) [] c =
    ((Inr \<lparr>ur_users = us, ur_pagination = []\<rparr>, Some no_limits), c\<lparr>cn_rate_limit := None\<rparr>)"
proof -
  let ?l = "\<lparr>ul_page = \<lparr>pg_next = []\<rparr>, ul_users = us\<rparr>"
  have p: "plain_rest users_endpoint"
    by (simp add: plain_rest_def users_endpoint_def plain_char_def is_alnum_def)
  have dec: "decode_users_list (page_json js) zero_users_list = Some ?l"
    using assms(4) by (simp add: list_decoder_simps decode_users_list_def zero_users_list_def)
  have u: "add_users_list_params (ramp_origin @ api_prefix @ users_endpoint) [] =
      Inr (ramp_origin @ api_prefix @ users_endpoint @ ''?page_size=100'')"
    unfolding add_users_list_params_def api_url_parse [OF p] option.case default_page_size_def Let_def
    using page_size_url [OF p] by simp
  show ?thesis
    unfolding list_users_def list_users_role_def page_url_first [OF p] sum.case u query_def
    by (simp add: do_query_query_page [where dec = decode_users_list and a = zero_users_list,
        OF assms(1) page_json_ok [OF assms(2,3)] dec p plain_page_size] wrap_reply_def)
qed

text \<open>The lookup of a user by email, for an email that needs no escaping.\<close>

lemma plain_email: "values_encode [(''email'', ''ada'')] = ''email=ada''"
  by code_simp

lemma find_user_by_email_page:
  assumes "tok \<noteq> []" "list_all wf_json js" "list_all (\<lambda>j. depth j \<le> 3) js"
    and "decode_elems (elem_pointer decode_user zero_user) None js [] = Some us"
  shows "find_user_by_email (page_server (page_json js) sv) (static_client tok) ''ada'' c =
    ((first_with_email (sv_unicode sv) ''ada'' us, Some no_limits), c\<lparr>cn_rate_limit := None\<rparr>)"
proof -
  let ?l = "\<lparr>ul_page = \<lparr>pg_next = []\<rparr>, ul_users = us\<rparr>"
  have p: "plain_rest users_endpoint"
    by (simp add: plain_rest_def users_endpoint_def plain_char_def is_alnum_def)
  have dec: "decode_users_list (page_json js) zero_users_list = Some ?l"
    using assms(4) by (simp add: list_decoder_simps decode_users_list_def zero_users_list_def)
  have n: "new_unpaginated_url (static_client tok) users_endpoint = Inr (ramp_origin @ api_prefix @ users_endpoint)"
    using p by (simp add: new_unpaginated_url_plain)
  have "url_query (api_url users_endpoint) = []" by (simp add: url_query_def api_url_def plain_url_def empty_url_def) code_simp
  then have u: "url_string ((api_url users_endpoint)\<lparr>u_raw_query := values_encode (values_set (url_query (api_url users_endpoint)) ''email'' ''ada'')\<rparr>) =
      ramp_origin @ api_prefix @ users_endpoint @ CHR ''?'' # ''email=ada''"
    using api_query_url_string [OF p, of "''email=ada''"] plain_email by (simp add: api_query_url_def values_set_def)
  have q: "plain_query ''email=ada''" by (simp add: plain_query_def)
  have un: "sv_unicode (page_server (page_json js) sv) = sv_unicode sv" by (simp add: page_server_def)
  show ?thesis
    unfolding find_user_by_email_def n sum.case api_url_parse [OF p] option.case u Let_def query_uncached_def
      do_query_query_page [where dec = decode_users_list and a = zero_users_list,
        OF assms(1) page_json_ok [OF assms(2,3)] dec p q]
    by (simp add: un)
qed

end
