(* ===== verification/Agreement_Claims.thy ===== *)
theory Agreement_Claims
  imports Sample_Pages
begin

text \<open>
  Properties of the agreement syncer: which agreements become resources and which, what a listing leaves
  for the grants, and how the two forms of an agreement and the two forms of a date relate. A server with
  one page of agreements gives the witnesses.
\<close>

section \<open>An agreement\<close>

definition agreement_json :: json where
  "agreement_json = JObj
     [(''id'', JStr ''a1''), (''name'', JStr ''Contract''), (''payee_id'', JStr ''v1''),
      (''start_date'', JStr ''2025-06-30''), (''contract_owners'', JArr [JObj [(''id'', JStr ''u1'')], JObj []])]"

definition sample_agreement :: agreement_item where
  "sample_agreement = zero_agreement_item
     \<lparr>ai_id := ''a1'', ai_name := ''Contract'', ai_payee_id := ''v1'', ai_start_date := ''2025-06-30'',
      ai_contract_owners := [zero_contract_owner\<lparr>co_id := ''u1''\<rparr>, zero_contract_owner]\<rparr>"

lemma agreement_json_facts:
  "wf_json agreement_json" "depth agreement_json = 3"
  "decode_agreement_item agreement_json zero_agreement_item = Some sample_agreement"
proof -
  have k: "valid_utf8 ''id''" "valid_utf8 ''name''" "valid_utf8 ''payee_id''" "valid_utf8 ''start_date''"
    "valid_utf8 ''contract_owners''" "valid_utf8 ''a1''" "valid_utf8 ''Contract''" "valid_utf8 ''v1''"
    "valid_utf8 ''2025-06-30''" "valid_utf8 ''u1''"
    by (rule valid_utf8_ascii, simp)+
  show "wf_json agreement_json" using k by (simp add: agreement_json_def)
  show "depth agreement_json = 3" by (simp add: agreement_json_def)
  show "decode_agreement_item agreement_json zero_agreement_item = Some sample_agreement"
    by (simp add: agreement_json_def decode_agreement_item_def key_matches_ascii fold_rune_def dec_list_def
        decode_contract_owner_def sample_agreement_def zero_agreement_item_def zero_contract_owner_def)
qed

text \<open>The sample becomes a resource.\<close>

definition day_2025_06_30 :: gotime where
  "day_2025_06_30 = \<lparr>t_ns = 63886838400000000000, t_off = 0\<rparr>"

lemma day_parsed:
  "parse_rfc3339 ''2025-06-30'' = None" "parse_ramp_date ''2025-06-30'' = Inr day_2025_06_30"
proof -
  show n: "parse_rfc3339 ''2025-06-30'' = None" by code_simp
  have "parse_date_only ''2025-06-30'' = Some day_2025_06_30" by code_simp
  with n show "parse_ramp_date ''2025-06-30'' = Inr day_2025_06_30" by (simp add: parse_ramp_date_def)
qed

lemma sample_agreement_ok:
  "agreement_dates sample_agreement = Inr (day_2025_06_30, zero_time, zero_time)" "agreement_ok sample_agreement"
proof -
  have "parse_ramp_date [] = Inr zero_time" by (simp add: parse_ramp_date_def)
  then show "agreement_dates sample_agreement = Inr (day_2025_06_30, zero_time, zero_time)"
    by (simp add: agreement_dates_def sample_agreement_def zero_agreement_item_def day_parsed)
  then show "agreement_ok sample_agreement"
    by (simp add: agreement_ok_def) (simp add: sample_agreement_def zero_agreement_item_def)
qed

definition agreements_server :: "'w svc \<Rightarrow> 'w svc" where
  "agreements_server sv = page_server (page_json [agreement_json]) sv"

definition sample_resource :: "'w svc \<Rightarrow> resource" where
  "sample_resource sv = agreement_resource_of sv sample_agreement (day_2025_06_30, zero_time, zero_time)"

lemma sample_listed:
  "list_vendor_agreements (agreements_server sv) (static_client ''secret'') (Some empty_agreements_request) [] c =
     ((Inr \<lparr>gs_agreements = [Some sample_agreement], gs_pagination = []\<rparr>, Some no_limits), c\<lparr>cn_rate_limit := None\<rparr>)"
proof -
  have "decode_elems (elem_pointer decode_agreement_item zero_agreement_item) None [agreement_json] [] =
      Some [Some sample_agreement]"
    by (simp add: elem_pointer_def agreement_json_facts) (simp add: agreement_json_def)
  then show ?thesis
    unfolding agreements_server_def by (intro list_vendor_agreements_page) (simp_all add: agreement_json_facts)
qed

lemma sample_listing:
  "agreement_list (agreements_server sv) (static_client ''secret'') [] m c =
    ((Inr ([sample_resource (agreements_server sv)], []), [ARateLimit no_limits]),
     ow.put_page [agreement_entry sample_agreement] (owners_begin [] m), c\<lparr>cn_rate_limit := None\<rparr>)"
  using build_agreement_ok [OF sample_agreement_ok, of "agreements_server sv"]
  by (simp add: agreement_list_def sample_listed ow.put_page_def agreement_entry_def sample_resource_def)

section \<open>Properties\<close>

text \<open>C25: An agreement becomes a resource exactly when it names its vendor, has a name for it, has dates
  that can be read and in order (end not before start, termination date not after end); the resource then
  carries the agreement's identifier, and a vendor and an agreement trait with its values. In every other
  case building it is an error.\<close>

theorem agreement_resource_exact:
  "build_agreement_resource sv a = Inr r \<longleftrightarrow>
     agreement_ok a \<and> (\<exists>d. agreement_dates a = Inr d \<and> r = agreement_resource_of sv a d)"
proof
  assume r: "build_agreement_resource sv a = Inr r"
  then have ok: "agreement_ok a" using build_agreement_iff by blast
  then obtain d where "agreement_dates a = Inr d" by (auto simp: agreement_ok_def split: sum.splits)
  with r ok build_agreement_ok [OF this ok, of sv]
  show "agreement_ok a \<and> (\<exists>d. agreement_dates a = Inr d \<and> r = agreement_resource_of sv a d)" by simp
qed (auto simp: build_agreement_ok)

text \<open>C34: One unusable agreement, or a \<open>null\<close>, fails the whole page it is on.\<close>

theorem bad_agreement_fails_page:
  assumes "list_vendor_agreements sv cl (Some empty_agreements_request) token c = ((Inr resp, rl), c1)"
    and "a \<in> set (gs_agreements resp)" "a = None \<or> (\<exists>x. a = Some x \<and> \<not> agreement_ok x)"
  shows "\<exists>e an m' c'. agreement_list sv cl token m c = ((Inl e, an), m', c')"
proof -
  obtain e m' where "agreement_page sv (gs_agreements resp) (owners_begin token m) = (Inl e, m')"
    using agreement_page_bad [OF assms(2,3)] by blast
  with assms(1) show ?thesis by (simp add: agreement_list_def)
qed

theorem bad_agreement_fails_page_witness:
  "\<forall>(sv :: unit svc) m c. \<exists>e an m' c'.
     agreement_list (page_server (page_json [agreement_json, JNull]) sv) (static_client ''secret'') [] m c =
       ((Inl e, an), m', c')"
proof (intro allI)
  fix sv :: "unit svc" and m c
  have d: "decode_elems (elem_pointer decode_agreement_item zero_agreement_item) None [agreement_json, JNull] [] =
      Some [Some sample_agreement, None]"
    by (simp add: elem_pointer_def agreement_json_facts) (simp add: agreement_json_def)
  note l = list_vendor_agreements_page [OF _ _ _ d, of "''secret''" sv c]
  show "\<exists>e an m' c'. agreement_list (page_server (page_json [agreement_json, JNull]) sv) (static_client ''secret'') [] m c =
       ((Inl e, an), m', c')"
    by (rule bad_agreement_fails_page [OF l, where a = None]) (simp_all add: agreement_json_facts)
qed

text \<open>C13: After any listing, from its first page through any number of later ones, the grants of a listed
  agreement are its contract owners with an identifier, as listed, and no request is made for them -
  whatever the cache held before the listing.\<close>

theorem grants_after_listing:
  assumes "agreements_listed sv cl its nx m" "a \<in> set its" "distinct (map ai_id its)"
    and "ri_resource (res_id r) = ai_id a"
  shows "agreement_grants sv cl r m c = ((Inr (owner_grants r (ai_contract_owners a), []), []), c)"
  by (simp add: agreement_grants_def Let_def assms(4) agreements_listed_find [OF assms(1)] map_of_entry [OF assms(2,3)])

theorem grants_after_listing_witness:
  "\<forall>(sv :: unit svc) m c. \<exists>m'.
     agreement_list (agreements_server sv) (static_client ''secret'') [] m c =
       ((Inr ([sample_resource (agreements_server sv)], []), [ARateLimit no_limits]), m', c\<lparr>cn_rate_limit := None\<rparr>)
     \<and> agreement_grants (agreements_server sv) (static_client ''secret'') (sample_resource (agreements_server sv)) m' c =
       ((Inr (owner_grants (sample_resource (agreements_server sv)) (ai_contract_owners sample_agreement), []), []), c)"
proof (intro allI exI conjI, rule sample_listing)
  fix sv :: "unit svc" and m c
  let ?m = "ow.put_page [agreement_entry sample_agreement] (owners_begin [] m)"
  have "agreements_listed (agreements_server sv) (static_client ''secret'') [sample_agreement] [] ?m"
    by (rule agreements_listed.first_page [OF sample_listed _ sample_listing]) simp
  then show "agreement_grants (agreements_server sv) (static_client ''secret'') (sample_resource (agreements_server sv)) ?m c =
       ((Inr (owner_grants (sample_resource (agreements_server sv)) (ai_contract_owners sample_agreement), []), []), c)"
    by (rule grants_after_listing) (simp_all add: sample_resource_def agreement_resource_of_def)
qed

text \<open>A fetched and a listed form of one agreement.\<close>

definition payee_identity :: "payee option \<Rightarrow> string \<times> string" where
  "payee_identity q =
     (case q of None \<Rightarrow> ([], [])
      | Some p \<Rightarrow>
        (case py_business_vendor p of Some b \<Rightarrow> if bv_uuid b = [] then py_uuid p else bv_uuid b | None \<Rightarrow> py_uuid p,
         if py_name p = [] then py_dba_name p else py_name p))"

definition same_agreement :: "vendor_agreement \<Rightarrow> agreement_item \<Rightarrow> bool" where
  "same_agreement g a =
     (ai_id a = va_id g \<and> ai_name a = va_name g \<and> ai_start_date a = va_start_date g \<and> ai_end_date a = va_end_date g
      \<and> ai_last_date_to_terminate a = va_last_date_to_terminate g \<and> ai_auto_renewal a = va_auto_renewal g
      \<and> ai_renewal_status a = va_renewal_status g \<and> ai_total_value a = va_total_value g
      \<and> (ai_payee_id a, ai_payee_name a) = payee_identity (va_payee g))"

lemma build_agreement_cong:
  assumes "ai_id a = ai_id b" "ai_name a = ai_name b" "ai_start_date a = ai_start_date b" "ai_end_date a = ai_end_date b"
    "ai_last_date_to_terminate a = ai_last_date_to_terminate b" "ai_auto_renewal a = ai_auto_renewal b"
    "ai_renewal_status a = ai_renewal_status b" "ai_total_value a = ai_total_value b" "ai_payee_id a = ai_payee_id b"
    "ai_payee_name a = ai_payee_name b"
  shows "build_agreement_resource sv a = build_agreement_resource sv b"
  unfolding build_agreement_resource_def agreement_trait_option_def agreement_vendor_trait_option_def
    agreement_dates_def assms ..

text \<open>C26: An agreement fetched by itself becomes the same resource as when it is listed, where the list
  names the vendor the way the code reads it off the payee: the business vendor's identifier before the
  payee's, the payee's name before its trade name.\<close>

theorem fetched_agreement_is_the_listed_one:
  assumes "same_agreement g a"
  shows "build_agreement_resource sv (vendor_agreement_list_item_from_get (Some g)) = build_agreement_resource sv a"
  by (rule build_agreement_cong)
    (use assms in \<open>simp_all add: same_agreement_def vendor_agreement_list_item_from_get_def payee_identity_def
      split: option.splits if_splits\<close>)

definition sample_fetched :: vendor_agreement where
  "sample_fetched = zero_vendor_agreement
     \<lparr>va_id := ''a1'', va_name := ''Contract'', va_start_date := ''2025-06-30'',
      va_payee := Some (zero_payee\<lparr>py_uuid := ''p1'', py_dba_name := ''Vendor'',
        py_business_vendor := Some (zero_payee_business_vendor\<lparr>bv_uuid := ''v1''\<rparr>)\<rparr>)\<rparr>"

theorem fetched_agreement_is_the_listed_one_witness:
  "\<forall>sv. build_agreement_resource sv (vendor_agreement_list_item_from_get (Some sample_fetched)) =
     build_agreement_resource sv (sample_agreement\<lparr>ai_payee_name := ''Vendor''\<rparr>)"
  by (intro allI fetched_agreement_is_the_listed_one)
    (simp add: same_agreement_def sample_fetched_def sample_agreement_def zero_vendor_agreement_def
      zero_agreement_item_def payee_identity_def zero_payee_def zero_payee_business_vendor_def)

text \<open>A date without a time is midnight UTC; the comment that every date is, is not true: a full
  timestamp keeps its time of day and its zone.\<close>

lemma date_only_is_midnight:
  assumes "parse_ramp_date s = Inr t" "parse_rfc3339 s = None"
  shows "t_ns t mod day_ns = 0 \<and> t_off t = 0"
  using assms parse_date_only_midnight
  by (auto simp: parse_ramp_date_def zero_time_def split: if_splits option.splits)

lemma date_only_is_midnight_witness:
  "parse_ramp_date ''2025-06-30'' = Inr day_2025_06_30 \<and> t_ns day_2025_06_30 mod day_ns = 0 \<and> t_off day_2025_06_30 = 0"
  using date_only_is_midnight [OF day_parsed(2,1)] day_parsed(2) by simp

theorem timestamp_is_not_midnight:
  "\<exists>t. parse_ramp_date ''2025-06-30T15:04:05+02:00'' = Inr t \<and> t_ns t mod day_ns \<noteq> 0 \<and> t_off t \<noteq> 0"
proof -
  have "parse_ramp_date ''2025-06-30T15:04:05+02:00'' = Inr \<lparr>t_ns = 63886885445000000000, t_off = 7200\<rparr>" by code_simp
  then show ?thesis by (simp add: day_ns_def nanos_def)
qed

end
