(* ===== verification/Account_Book.thy ===== *)
theory Account_Book
  imports Users
begin

text \<open>
  Account creation as a protocol between the connector and a directory of users: look the email up, send an
  invitation when nobody has it. An invitation is only a task: the directory lists the colleague when the
  invitation is accepted, at a time of its own, and may change its list at any other time. What happened
  is a trace of the directory's changes, the lookups that reached it and the invitations that reached it. The interface
  \<open>account_book\<close> says what the client's lookup and invitation leave in the trace, also when a request or
  its answer is lost; from it alone no invitation is sent that its own lookup did not vouch for.
  \<open>create_account\<close> of the user syncer is this protocol over the client's two calls.
\<close>

section \<open>Traces\<close>

text \<open>\<open>Members us\<close>: from now on the directory lists exactly \<open>us\<close>.\<close>

datatype dir_event = Members "user list" | Lookup string | Invitation create_user_request

fun is_change :: "dir_event \<Rightarrow> bool" where
  "is_change (Members _) = True"
| "is_change _ = False"

text \<open>What the connector did; the members listed at the end; the members listed when it first did something.\<close>

definition own :: "dir_event list \<Rightarrow> dir_event list" where
  "own t = filter (\<lambda>ev. \<not> is_change ev) t"

fun listed_after :: "user list \<Rightarrow> dir_event list \<Rightarrow> user list" where
  "listed_after us [] = us"
| "listed_after us (ev # t) = listed_after (case ev of Members vs \<Rightarrow> vs | _ \<Rightarrow> us) t"

fun listed_at :: "user list \<Rightarrow> dir_event list \<Rightarrow> user list" where
  "listed_at us (Members vs # t) = listed_at vs t"
| "listed_at us _ = us"

text \<open>The specification, as a monitor of traces: an invitation may only follow a lookup of its very email
  that found nobody, and every lookup vouches for one invitation at most. \<open>hits e us\<close> are the users that
  the directory finds for \<open>e\<close> among \<open>us\<close> and that have this email.\<close>

fun vetted :: "(string \<Rightarrow> user list \<Rightarrow> user list) \<Rightarrow> user list \<Rightarrow> string option \<Rightarrow> dir_event list \<Rightarrow> bool" where
  "vetted hits us p [] = True"
| "vetted hits us p (Members vs # t) = vetted hits vs p t"
| "vetted hits us p (Lookup e # t) = vetted hits us (if hits e us = [] then Some e else None) t"
| "vetted hits us p (Invitation q # t) = (p = Some (cu_email q) \<and> vetted hits us None t)"

fun vouched :: "(string \<Rightarrow> user list \<Rightarrow> user list) \<Rightarrow> user list \<Rightarrow> string option \<Rightarrow> dir_event list \<Rightarrow> string option" where
  "vouched hits us p [] = p"
| "vouched hits us p (Members vs # t) = vouched hits vs p t"
| "vouched hits us p (Lookup e # t) = vouched hits us (if hits e us = [] then Some e else None) t"
| "vouched hits us p (Invitation q # t) = vouched hits us None t"

lemma vetted_append:
  "vetted hits us p (t @ t') \<longleftrightarrow> vetted hits us p t \<and> vetted hits (listed_after us t) (vouched hits us p t) t'"
  by (induction hits us p t rule: vetted.induct) simp_all

lemma listed_after_append [simp]: "listed_after us (t @ t') = listed_after (listed_after us t) t'"
  by (induction us t rule: listed_after.induct) simp_all

lemma own_simps [simp]:
  "own [] = []" "own (Members vs # t) = own t" "own (Lookup e # t) = Lookup e # own t"
  "own (Invitation q # t) = Invitation q # own t" "own (t @ t') = own t @ own t'"
  by (simp_all add: own_def)

lemma own_nothing: "own t = [] \<Longrightarrow> vetted hits us p t \<and> vouched hits us p t = p"
  by (induction hits us p t rule: vetted.induct) simp_all

lemma own_lookup:
  "own t = [Lookup e] \<Longrightarrow> vetted hits us p t
     \<and> vouched hits us p t = (if hits e (listed_at us t) = [] then Some e else None)"
  by (induction hits us p t rule: vetted.induct) (use own_nothing in auto)

lemma own_invitation: "own t = [Invitation q] \<Longrightarrow> vetted hits us p t \<longleftrightarrow> p = Some (cu_email q)"
  by (induction hits us p t rule: vetted.induct) (use own_nothing in auto)

lemma listed_at_append: "own t \<noteq> [] \<Longrightarrow> listed_at us (t @ t') = listed_at us t"
  by (induction us t rule: listed_at.induct) simp_all

text \<open>What the outcome of one call says about its piece of the trace. The key of an invitation is chosen when it
  is sent.\<close>

definition is_invitation :: "create_user_request \<Rightarrow> dir_event \<Rightarrow> bool" where
  "is_invitation q ev =
     (case ev of Invitation i \<Rightarrow> i\<lparr>cu_idempotency_key := []\<rparr> = q\<lparr>cu_idempotency_key := []\<rparr> | _ \<Rightarrow> False)"

definition looked ::
    "(string \<Rightarrow> user list \<Rightarrow> user list) \<Rightarrow> user list \<Rightarrow> string \<Rightarrow> gerror + user option \<Rightarrow> dir_event list \<Rightarrow> bool" where
  "looked hits us e r t =
     (case r of
        Inl er \<Rightarrow> (own t = [] \<or> own t = [Lookup e]) \<and> (is_panic er \<or> status_code er \<noteq> NotFound)
      | Inr None \<Rightarrow> own t = [Lookup e] \<and> hits e (listed_at us t) = []
      | Inr (Some u) \<Rightarrow> own t = [Lookup e] \<and> u \<in> set (hits e (listed_at us t)))"

definition invited :: "create_user_request \<Rightarrow> gerror + 't \<Rightarrow> dir_event list \<Rightarrow> bool" where
  "invited q r t = (case own t of [] \<Rightarrow> \<not> is_ok r | [ev] \<Rightarrow> is_invitation q ev | _ \<Rightarrow> False)"

section \<open>The protocol\<close>

datatype ('u, 't) provision = Existing 'u | Invited 't | Refused gerror

definition provision ::
    "(string \<Rightarrow> 's \<Rightarrow> (gerror + 'u option) \<times> 's) \<Rightarrow> ('q \<Rightarrow> 's \<Rightarrow> (gerror + 't) \<times> 's) \<Rightarrow> ('q \<Rightarrow> string)
       \<Rightarrow> 'q \<Rightarrow> 's \<Rightarrow> ('u, 't) provision \<times> 's" where
  "provision lookup invite email q s =
     (let invited = (\<lambda>s1. case invite q s1 of (Inl e, s2) \<Rightarrow> (Refused e, s2) | (Inr t, s2) \<Rightarrow> (Invited t, s2))
      in case lookup (email q) s of
           (Inr (Some u), s1) \<Rightarrow> (Existing u, s1)
         | (Inr None, s1) \<Rightarrow> invited s1
         | (Inl e, s1) \<Rightarrow> if \<not> is_panic e \<and> status_code e = NotFound then invited s1 else (Refused e, s1))"

definition invited_by :: "create_user_request \<Rightarrow> dir_event list \<Rightarrow> bool" where
  "invited_by q os = (case os of [Lookup e, ev] \<Rightarrow> e = cu_email q \<and> is_invitation q ev | _ \<Rightarrow> False)"

definition told ::
    "(string \<Rightarrow> user list \<Rightarrow> user list) \<Rightarrow> user list \<Rightarrow> create_user_request \<Rightarrow> (user, 't) provision \<Rightarrow> dir_event list \<Rightarrow> bool" where
  "told hits us q p t =
     (case p of
        Existing u \<Rightarrow> own t = [Lookup (cu_email q)] \<and> u \<in> set (hits (cu_email q) (listed_at us t))
      | Invited _ \<Rightarrow> invited_by q (own t)
      | Refused _ \<Rightarrow> own t = [] \<or> own t = [Lookup (cu_email q)] \<or> invited_by q (own t))"

section \<open>A book of accounts\<close>

locale account_book =
  fixes lookup :: "string \<Rightarrow> 's \<Rightarrow> (gerror + user option) \<times> 's"
    and invite :: "create_user_request \<Rightarrow> 's \<Rightarrow> (gerror + 't) \<times> 's"
    and history :: "'s \<Rightarrow> dir_event list"
    and listed :: "'s \<Rightarrow> user list"
    and inv :: "'s \<Rightarrow> bool"
    and hits :: "string \<Rightarrow> user list \<Rightarrow> user list"
    and ok :: "create_user_request \<Rightarrow> bool"
  assumes lookup_law: "ok q \<Longrightarrow> inv s \<Longrightarrow> lookup (cu_email q) s = (r, s') \<Longrightarrow> inv s'
      \<and> (\<exists>t. history s' = history s @ t \<and> listed s' = listed_after (listed s) t \<and> looked hits (listed s) (cu_email q) r t)"
    and invite_law: "ok q \<Longrightarrow> inv s \<Longrightarrow> invite q s = (i, s') \<Longrightarrow> inv s'
      \<and> (\<exists>t. history s' = history s @ t \<and> listed s' = listed_after (listed s) t \<and> invited q i t)"
begin

text \<open>One attempt, whatever the monitor was told before.\<close>

definition step :: "create_user_request \<Rightarrow> (user, 't) provision \<Rightarrow> 's \<Rightarrow> 's \<Rightarrow> bool" where
  "step q p s s' \<longleftrightarrow> inv s' \<and> (\<exists>t. history s' = history s @ t \<and> listed s' = listed_after (listed s) t
     \<and> (\<forall>x. vetted hits (listed s) x t) \<and> told hits (listed s) q p t)"

lemma invite_after_lookup:
  assumes "ok q" "inv s" "invite q s1 = (i, s2)" "inv s1"
    and t: "history s1 = history s @ t" "listed s1 = listed_after (listed s) t" "own t = [Lookup (cu_email q)]"
      "hits (cu_email q) (listed_at (listed s) t) = []"
  shows "step q (case i of Inl e \<Rightarrow> Refused e | Inr x \<Rightarrow> Invited x) s s2"
proof -
  obtain t2 where t2: "inv s2" "history s2 = history s1 @ t2" "listed s2 = listed_after (listed s1) t2" "invited q i t2"
    using invite_law [OF assms(1,4,3)] by blast
  note v = own_lookup [OF t(3), of hits "listed s"]
  have "vetted hits (listed_after (listed s) t) (Some (cu_email q)) t2
    \<and> told hits (listed s) q (case i of Inl e \<Rightarrow> Refused e | Inr x \<Rightarrow> Invited x) (t @ t2)"
  proof (cases "own t2")
    case Nil
    then show ?thesis using t2(4) t(3) own_nothing [OF Nil] by (cases i) (simp_all add: invited_def told_def is_ok_iff)
  next
    case (Cons ev evs)
    with t2(4) have e: "own t2 = [ev]" "is_invitation q ev" by (auto simp: invited_def split: list.splits)
    then obtain q' where q': "ev = Invitation q'" "q'\<lparr>cu_idempotency_key := []\<rparr> = q\<lparr>cu_idempotency_key := []\<rparr>"
      by (auto simp: is_invitation_def split: dir_event.splits)
    then have "cu_email q' = cu_email q" by (cases q; cases q') simp
    with e q' t(3) own_invitation [of t2 q'] show ?thesis
      by (cases i) (simp_all add: told_def invited_by_def)
  qed
  with t2(1-3) t(1,2,4) v show ?thesis
    by (auto simp: step_def vetted_append intro!: exI [of _ "t @ t2"])
qed

lemma provision_step:
  assumes "ok q" "inv s" "provision lookup invite cu_email q s = (p, s')"
  shows "step q p s s'"
proof -
  obtain r s1 where l: "lookup (cu_email q) s = (r, s1)" by (metis prod.exhaust)
  obtain t where t: "inv s1" "history s1 = history s @ t" "listed s1 = listed_after (listed s) t"
    "looked hits (listed s) (cu_email q) r t" using lookup_law [OF assms(1,2) l] by blast
  obtain i s2 where i: "invite q s1 = (i, s2)" by (metis prod.exhaust)
  consider (none) "r = Inr None" | (some) u where "r = Inr (Some u)" | (failed) e where "r = Inl e"
    by (metis sum.exhaust option.exhaust)
  then show ?thesis
  proof cases
    case none
    have "(p, s') = (case i of Inl e \<Rightarrow> Refused e | Inr x \<Rightarrow> Invited x, s2)"
      using assms(3) l none i by (cases i) (simp_all add: provision_def)
    with invite_after_lookup [OF assms(1,2) i t(1-3)] t(4) none show ?thesis by (simp add: looked_def)
  next
    case (some u)
    then have o: "own t = [Lookup (cu_email q)]" "u \<in> set (hits (cu_email q) (listed_at (listed s) t))"
      using t(4) by (simp_all add: looked_def)
    moreover have "p = Existing u" "s' = s1" using assms(3) l some by (simp_all add: provision_def)
    ultimately show ?thesis using t own_lookup [OF o(1)] by (auto simp: step_def told_def)
  next
    case (failed e)
    then have o: "own t = [] \<or> own t = [Lookup (cu_email q)]" "is_panic e \<or> status_code e \<noteq> NotFound"
      using t(4) by (simp_all add: looked_def)
    then have "p = Refused e" "s' = s1" using assms(3) l failed by (auto simp: provision_def)
    then show ?thesis using t o(1) own_lookup [of t] own_nothing [of t] by (auto simp: step_def told_def)
  qed
qed

end

section \<open>The user syncer follows the protocol\<close>

definition account_lookup :: "'w svc \<Rightarrow> 'w client \<Rightarrow> string \<Rightarrow> 'w conn \<Rightarrow> (gerror + user option) \<times> 'w conn" where
  "account_lookup sv cl e c = (case find_user_by_email sv cl e c of ((r, _), c') \<Rightarrow> (r, c'))"

definition account_invite ::
    "'w svc \<Rightarrow> 'w client \<Rightarrow> create_user_request \<Rightarrow> 'w conn \<Rightarrow> (gerror + deferred_task) \<times> 'w conn" where
  "account_invite sv cl req c = (case create_user sv cl req c of ((r, _), c') \<Rightarrow> (r, c'))"

definition reports :: "gerror + create_account_result \<Rightarrow> (user, deferred_task) provision \<Rightarrow> bool" where
  "reports r p =
     (case p of
        Existing u \<Rightarrow> r = Inr (AlreadyExistsResult (resource_of_user u))
      | Invited t \<Rightarrow> r = Inr (ActionRequiredResult (invite_message (dt_id t)))
      | Refused e \<Rightarrow> \<not> is_ok r)"

lemma create_account_provision:
  assumes "profile_request fs = Inr req"
  shows "\<exists>p. provision (account_lookup sv cl) (account_invite sv cl) cu_email req c = (p, snd (create_account sv cl fs c))
    \<and> reports (fst (fst (create_account sv cl fs c))) p"
  by (auto simp: provision_def account_lookup_def account_invite_def create_account_def assms reports_def Let_def
      split: prod.splits sum.splits option.splits)

text \<open>Attempts one after the other, whatever the outcome of those before.\<close>

fun create_accounts ::
    "'w svc \<Rightarrow> 'w client \<Rightarrow> proto_fields list \<Rightarrow> 'w conn \<Rightarrow> (gerror + create_account_result) list \<times> 'w conn" where
  "create_accounts sv cl [] c = ([], c)"
| "create_accounts sv cl (fs # fss) c =
     (case create_account sv cl fs c of
        ((r, _), c1) \<Rightarrow> (case create_accounts sv cl fss c1 of (rs, c2) \<Rightarrow> (r # rs, c2)))"

end
