(* ===== verification/Site_Server.thy ===== *)
theory Site_Server
  imports Sample_Pages
begin

text \<open>
  A server that answers by the URL it is asked for, and on it the pages of a listing: each page names the
  next one by a link to the path of the listing with the page's name in the parameter \<open>start\<close>, the way
  the Ramp API does. What each list operation of the client gives on such a page.
\<close>

definition site_server :: "(url \<Rightarrow> json) \<Rightarrow> 'w svc \<Rightarrow> 'w svc" where
  "site_server site sv = sv\<lparr>sv_send := (\<lambda>rq w.
       (Inr (json_response (case url_parse (rq_url rq) of Some u \<Rightarrow> site u | None \<Rightarrow> JNull)), w)),
     sv_caching := False\<rparr>"

text \<open>URLs of the API with a query, or without.\<close>

definition api_query :: "string \<Rightarrow> bool" where
  "api_query q = (q = [] \<or> plain_query q)"

lemma api_query_url_Nil: "api_query_url p [] = api_url p"
  by (simp add: api_query_url_def api_url_def plain_url_def empty_url_def)

lemma parse_api_query:
  assumes "plain_rest p" "api_query q"
  shows "url_parse (url_string (api_query_url p q)) = Some (api_query_url p q)"
proof (cases "q = []")
  case True
  then show ?thesis using api_url_parse [OF assms(1)] api_url_string [OF assms(1)] by (simp add: api_query_url_Nil)
next
  case False
  then have "plain_query q" using assms(2) by (simp add: api_query_def)
  with False show ?thesis
    using api_query_url_parse [OF assms(1)] api_query_url_string [OF assms(1) False] by simp
qed

lemma http_do_site:
  assumes "tok \<noteq> []" "url_parse (rq_url rq) = Some w" "site w = j" "wf_json j" "depth j \<le> max_nesting" "dec j a = Some b"
  shows "http_do (site_server site sv) (cl_sources (static_client tok)) ctx rq u (Some dec) a c =
    ((Inr b, no_limits), c\<lparr>cn_rate_limit := None\<rparr>)"
proof -
  let ?sv = "site_server site sv"
  have send: "sv_send ?sv (rq\<lparr>rq_headers := header_set ''Authorization'' (''Bearer '' @ tok) (rq_headers rq)\<rparr>)
      (cn_world c) = (Inr (json_response j), cn_world c)" by (simp add: site_server_def assms(2,3))
  have miss: "cache_get ?sv u (rq_headers rq) c = None" by (simp add: cache_get_def site_server_def)
  have st: "c\<lparr>cn_rate_limit := None, cn_world := cn_world c\<rparr> = c\<lparr>cn_rate_limit := None\<rparr>" by simp
  show ?thesis
    using miss
    by (simp add: http_do_miss round_trip_static [OF assms(1) send] st remember_def cache_set_def
        finish_json [where dec = dec and a = a, OF assms(4-6)])
      (simp add: site_server_def)
qed

lemma do_query_site:
  assumes "tok \<noteq> []" "plain_rest p" "api_query q" "site (api_query_url p q) = j"
    and "wf_json j" "depth j \<le> max_nesting" "dec j a = Some b"
  shows "do_query (site_server site sv) (static_client tok) ctx meth (url_string (api_query_url p q)) body (Some dec) a nc c =
    ((Inr b, Some no_limits), c\<lparr>cn_rate_limit := None\<rparr>)"
  by (simp add: do_query_def parse_api_query [OF assms(2,3)]
      http_do_site [where dec = dec and a = a and w = "api_query_url p q" and site = site, OF assms(1) _ assms(4-7)]
      parse_api_query [OF assms(2,3)])

section \<open>Links\<close>

definition start_of :: "url \<Rightarrow> string" where
  "start_of u = values_get (url_query u) ''start''"

definition start_values :: "string \<Rightarrow> url_values" where
  "start_values s = (if s = [] then [] else [(''start'', s)])"

definition start_query :: "string \<Rightarrow> string" where
  "start_query s = values_encode (start_values s)"

text \<open>The token of the page with a name: empty for the first page, which has none.\<close>

definition page_link :: "string \<Rightarrow> string \<Rightarrow> string" where
  "page_link p s = (if s = [] then [] else url_string (api_query_url p (start_query s)))"

lemma values_encode_query: "api_query (values_encode vs)"
proof (cases "vs = []")
  case True
  then show ?thesis by (simp add: api_query_def) code_simp
next
  case False
  then show ?thesis using plain_query_encode by (simp add: api_query_def)
qed

lemma query_of_start: "url_query (api_query_url p (start_query s)) = start_values s"
proof (cases "s = []")
  case True
  then show ?thesis
    by (simp add: url_query_def api_query_url_def start_query_def start_values_def) code_simp
next
  case False
  then show ?thesis
    by (simp add: url_query_def api_query_url_def start_query_def start_values_def parse_values_encode)
qed

lemma api_query_url_not_Nil: "url_string (api_query_url p q) \<noteq> []"
  by (simp add: url_string_def Let_def) (simp add: api_query_url_def api_url_def plain_url_def)

lemma page_url_link:
  assumes "plain_rest p"
  shows "page_url (static_client tok) p (page_link p s) = Inr (url_string (api_query_url p (start_query s)))"
proof (cases "s = []")
  case True
  have "start_query [] = []" by code_simp
  with True page_url_first [OF assms] api_url_string [OF assms] show ?thesis
    by (simp add: page_link_def api_query_url_Nil)
next
  case False
  then show ?thesis by (simp add: page_link_def page_url_def api_query_url_not_Nil)
qed

lemma page_link_empty: "page_link p s = [] \<longleftrightarrow> s = []"
  by (simp add: page_link_def api_query_url_not_Nil)

lemma page_link_ascii:
  assumes "plain_rest p"
  shows "ascii (page_link p s)"
proof (cases "s = []")
  case False
  then have ne: "start_values s \<noteq> []" by (simp add: start_values_def)
  have q: "plain_query (start_query s)" unfolding start_query_def by (rule plain_query_encode [OF ne])
  then have ne: "start_query s \<noteq> []" by (simp add: plain_query_def)
  from q have "list_all (\<lambda>c. 32 \<le> byte c \<and> byte c < 127 \<and> c \<noteq> CHR ''#'') (start_query s)"
    by (simp add: plain_query_def)
  then have "ascii (start_query s)" unfolding ascii_def by (rule list_all_weaken) simp
  moreover from assms have "list_all plain_char p" by (simp add: plain_rest_def)
  then have "ascii p" unfolding ascii_def by (rule list_all_weaken) (rule plain_char_ascii)
  ultimately show ?thesis using False
    by (simp add: page_link_def api_query_url_string [OF assms ne] ramp_origin_def api_prefix_def)
qed (simp add: page_link_def)

text \<open>The URL a listing asks for: the page's name and the parameters the client adds.\<close>

definition listed_values :: "string \<Rightarrow> url_values" where
  "listed_values s = with_page_size 100 (start_values s)"

definition listed_query :: "string \<Rightarrow> string" where
  "listed_query s = values_encode (listed_values s)"

lemma start_of_listed: "start_of (api_query_url p (listed_query s)) = s"
proof -
  have "values_get (listed_values s) ''start'' = s"
    by (simp add: listed_values_def with_page_size_def start_values_def values_get_def values_set_def)
  then show ?thesis
    by (simp add: start_of_def url_query_def api_query_url_def listed_query_def)
qed

lemma start_of_start: "start_of (api_query_url p (start_query s)) = s"
  by (simp add: start_of_def query_of_start) (simp add: start_values_def values_get_def)

section \<open>The pages of a listing\<close>

definition linked_page :: "string \<Rightarrow> json list \<times> string \<Rightarrow> json" where
  "linked_page p a = JObj
     [(''page'', JObj [(''next'', if snd a = [] then JNull else JStr (page_link p (snd a)))]), (''data'', JArr (fst a))]"

text \<open>A server has the pages of a listing by its path and the page's name.\<close>

definition path_of :: "url \<Rightarrow> string" where
  "path_of u = drop (length api_prefix) (u_path u)"

lemma path_of_api [simp]: "path_of (api_query_url p q) = p"
  by (simp add: path_of_def api_query_url_def api_url_def plain_url_def)

definition paged_site :: "(string \<Rightarrow> string \<Rightarrow> json list \<times> string) \<Rightarrow> url \<Rightarrow> json" where
  "paged_site pages u = linked_page (path_of u) (pages (path_of u) (start_of u))"

definition paged_server :: "(string \<Rightarrow> string \<Rightarrow> json list \<times> string) \<Rightarrow> 'w svc \<Rightarrow> 'w svc" where
  "paged_server pages = site_server (paged_site pages)"

definition page_items_ok :: "json list \<Rightarrow> bool" where
  "page_items_ok js = (list_all wf_json js \<and> list_all (\<lambda>j. depth j \<le> 3) js)"

lemma linked_page_ok:
  assumes "page_items_ok (fst a)" "plain_rest p"
  shows "wf_json (linked_page p a)" "depth (linked_page p a) \<le> max_nesting"
proof -
  have k: "valid_utf8 ''page''" "valid_utf8 ''next''" "valid_utf8 ''data''" by (rule valid_utf8_ascii, simp)+
  have "valid_utf8 (page_link p (snd a))" by (rule valid_utf8_ascii) (rule page_link_ascii [OF assms(2)])
  then show "wf_json (linked_page p a)" using k assms(1) by (simp add: linked_page_def page_items_ok_def)
  show "depth (linked_page p a) \<le> max_nesting"
    using assms(1) by (simp add: linked_page_def page_items_ok_def max_nesting_def fold_max_le list_all_iff) fastforce
qed

lemma paths_plain:
  "plain_rest vendors_path" "plain_rest users_endpoint" "plain_rest vendor_agreements_path" "plain_rest audit_log_events_path"
  by (simp_all add: plain_rest_def vendors_path_def users_endpoint_def vendor_agreements_path_def
      audit_log_events_path_def plain_char_def is_alnum_def)

lemmas linked_decoder_simps =
  linked_page_def key_matches_ascii fold_rune_def dec_nested_def dec_list_def decode_page_def zero_page_def

text \<open>Asking for a page, whatever parameters come with its name.\<close>

lemma do_query_linked:
  assumes "tok \<noteq> []" "plain_rest p" "api_query q" "start_of (api_query_url p q) = s" "pages p s = (js, nx)"
    and "page_items_ok js" "dec (linked_page p (js, nx)) a = Some b"
  shows "do_query (paged_server pages sv) (static_client tok) ctx meth (url_string (api_query_url p q)) body (Some dec) a nc c =
    ((Inr b, Some no_limits), c\<lparr>cn_rate_limit := None\<rparr>)"
proof -
  have site: "paged_site pages (api_query_url p q) = linked_page p (js, nx)"
    by (simp add: paged_site_def assms(4,5))
  have ok: "page_items_ok (fst (js, nx))" using assms(6) by simp
  show ?thesis unfolding paged_server_def
    by (rule do_query_site [where dec = dec and a = a and site = "paged_site pages",
        OF assms(1-3) site linked_page_ok [OF ok assms(2)] assms(7)])
qed

lemma listed_query_ok: "api_query (listed_query s)" "api_query (start_query s)"
  unfolding listed_query_def start_query_def by (rule values_encode_query)+

text \<open>What decoding such a page gives, for each kind of item.\<close>

lemma linked_page_decoded:
  "decode_elems (elem_pointer decode_vendor zero_vendor) None js [] = Some vs \<Longrightarrow>
     decode_vendors_list (linked_page p (js, nx)) zero_vendors_list =
       Some \<lparr>vl_page = \<lparr>pg_next = page_link p nx\<rparr>, vl_vendors = vs\<rparr>"
  "decode_elems (elem_pointer decode_user zero_user) None js [] = Some us \<Longrightarrow>
     decode_users_list (linked_page p (js, nx)) zero_users_list =
       Some \<lparr>ul_page = \<lparr>pg_next = page_link p nx\<rparr>, ul_users = us\<rparr>"
  "decode_elems (elem_pointer decode_agreement_item zero_agreement_item) None js [] = Some as \<Longrightarrow>
     decode_agreements_list (linked_page p (js, nx)) zero_agreements_list =
       Some \<lparr>al_page = \<lparr>pg_next = page_link p nx\<rparr>, al_data = as\<rparr>"
  "decode_audit_events_list (linked_page p (js, nx)) zero_audit_events_list =
       Some \<lparr>aq_page = \<lparr>pg_next = page_link p nx\<rparr>, aq_data_raw = js\<rparr>"
  by (simp_all add: linked_decoder_simps page_link_def
      decode_vendors_list_def zero_vendors_list_def decode_users_list_def zero_users_list_def
      decode_agreements_list_def decode_agreements_fields_def zero_agreements_list_def
      decode_audit_events_list_def zero_audit_events_list_def)

lemma list_vendors_site:
  assumes "tok \<noteq> []" "pages vendors_path s = (js, nx)" "page_items_ok js"
    and "decode_elems (elem_pointer decode_vendor zero_vendor) None js [] = Some vs"
  shows "list_vendors (paged_server pages sv) (static_client tok) (page_link vendors_path s) c =
    ((Inr \<lparr>vr_vendors = vs, vr_pagination = page_link vendors_path nx\<rparr>, Some no_limits), c\<lparr>cn_rate_limit := None\<rparr>)"
proof -
  note p = paths_plain(1)
  have u: "add_vendors_list_params (url_string (api_query_url vendors_path (start_query s))) =
      Inr (url_string (api_query_url vendors_path (listed_query s)))"
    by (simp add: add_vendors_list_params_def parse_api_query [OF p listed_query_ok(2)] query_of_start default_page_size_def)
      (simp add: listed_query_def listed_values_def api_query_url_def)
  show ?thesis
    unfolding list_vendors_def page_url_link [OF p] sum.case u query_def query_with_body_def
    by (simp add: do_query_linked [where dec = decode_vendors_list and a = zero_vendors_list, where pages = pages,
        OF assms(1) p listed_query_ok(1) start_of_listed assms(2,3) linked_page_decoded(1) [OF assms(4)]] wrap_reply_def)
qed

lemma list_vendor_agreements_site:
  assumes "tok \<noteq> []" "pages vendor_agreements_path s = (js, nx)" "page_items_ok js"
    and "decode_elems (elem_pointer decode_agreement_item zero_agreement_item) None js [] = Some as"
  shows "list_vendor_agreements (paged_server pages sv) (static_client tok) rq
      (page_link vendor_agreements_path s) c =
    ((Inr \<lparr>gs_agreements = as, gs_pagination = page_link vendor_agreements_path nx\<rparr>, Some no_limits), c\<lparr>cn_rate_limit := None\<rparr>)"
proof -
  note p = paths_plain(3)
  show ?thesis
    unfolding list_vendor_agreements_def page_url_link [OF p] sum.case Let_def query_with_body_def
    by (simp add: do_query_linked [where dec = decode_agreements_list and a = zero_agreements_list, where pages = pages,
        OF assms(1) p listed_query_ok(2) start_of_start assms(2,3) linked_page_decoded(3) [OF assms(4)]] wrap_reply_def)
qed

text \<open>The role is one more parameter.\<close>

definition role_values :: "string \<Rightarrow> string \<Rightarrow> url_values" where
  "role_values role s = (if role = [] then listed_values s else values_set (listed_values s) ''role'' role)"

lemma start_of_role: "start_of (api_query_url p (values_encode (role_values role s))) = s"
proof -
  have "values_get (role_values role s) ''start'' = s"
    by (simp add: role_values_def listed_values_def with_page_size_def start_values_def values_get_def values_set_def)
  then show ?thesis by (simp add: start_of_def url_query_def api_query_url_def)
qed

lemma list_users_site:
  assumes "tok \<noteq> []" "pages users_endpoint s = (js, nx)" "page_items_ok js"
    and "decode_elems (elem_pointer decode_user zero_user) None js [] = Some us"
  shows "list_users_role (paged_server pages sv) (static_client tok) (page_link users_endpoint s) role c =
    ((Inr \<lparr>ur_users = us, ur_pagination = page_link users_endpoint nx\<rparr>, Some no_limits), c\<lparr>cn_rate_limit := None\<rparr>)"
proof -
  note p = paths_plain(2)
  have u: "add_users_list_params (url_string (api_query_url users_endpoint (start_query s))) role =
      Inr (url_string (api_query_url users_endpoint (values_encode (role_values role s))))"
    by (simp add: add_users_list_params_def parse_api_query [OF p listed_query_ok(2)] query_of_start default_page_size_def Let_def)
      (simp add: role_values_def listed_values_def api_query_url_def)
  show ?thesis
    unfolding list_users_role_def page_url_link [OF p] sum.case u query_def query_with_body_def
    by (simp add: do_query_linked [where dec = decode_users_list and a = zero_users_list, where pages = pages,
        OF assms(1) p values_encode_query start_of_role assms(2,3) linked_page_decoded(2) [OF assms(4)]] wrap_reply_def)
qed

lemma list_audit_log_events_site:
  assumes "tok \<noteq> []" "pages audit_log_events_path s = (js, nx)" "page_items_ok js" "flatten_audit_events js = Inr evs"
  shows "list_audit_log_events (paged_server pages sv) (static_client tok) audit_log_events_page_size
      (page_link audit_log_events_path s) c =
    ((Inr (evs, page_link audit_log_events_path nx), Some no_limits), c\<lparr>cn_rate_limit := None\<rparr>)"
proof -
  note p = paths_plain(4)
  have u: "add_audit_log_events_list_params (url_string (api_query_url audit_log_events_path (start_query s))) audit_log_events_page_size =
      Inr (url_string (api_query_url audit_log_events_path (listed_query s)))"
    by (simp add: add_audit_log_events_list_params_def parse_api_query [OF p listed_query_ok(2)] query_of_start
        audit_log_events_page_size_def Let_def)
      (simp add: listed_query_def listed_values_def api_query_url_def)
  show ?thesis
    unfolding list_audit_log_events_def page_url_link [OF p] sum.case u query_def query_with_body_def
    by (simp add: do_query_linked [where dec = decode_audit_events_list and a = zero_audit_events_list, where pages = pages,
        OF assms(1) p listed_query_ok(1) start_of_listed assms(2,3) linked_page_decoded(4)] assms(4))
qed

end
