(* ===== verification/Account_Server.thy ===== *)
theory Account_Server
  imports Account_Book Site_Server
begin

text \<open>
  A directory of users the client can ask and write to over a line that loses requests or answers. It
  answers a lookup with users it searched by the email among the members it lists. The deferred endpoint
  makes a task of every invitation that reaches it and nothing more: as \<open>CreateAccount\<close> tells its caller,
  the user appears only after accepting the invite. Before any request the directory may come to list other members, so
  acceptances, departures and edits fall between any two requests, also between the lookup and the
  invitation of one attempt. Requests arrive one at a time. With it the client's lookup and invitation
  are an account book, whatever the response cache holds.
\<close>

section \<open>The directory\<close>

datatype delivery = Delivered | Dropped | Lost

text \<open>\<open>dr_line\<close>: for each request to come, the members listed from then on and what happens to the request;
  when it is used up, the list stays and all requests are delivered. \<open>dr_trace\<close>: what happened.\<close>

record directory =
  dr_members :: "user list"
  dr_line :: "(user list \<times> delivery) list"
  dr_trace :: "dir_event list"

definition next_delivery :: "directory \<Rightarrow> delivery \<times> directory" where
  "next_delivery d =
     (case dr_line d of
        [] \<Rightarrow> (Delivered, d)
      | (us, x) # xs \<Rightarrow> (x, d\<lparr>dr_line := xs, dr_members := us, dr_trace := dr_trace d @ [Members us]\<rparr>))"

definition noted :: "dir_event \<Rightarrow> directory \<Rightarrow> directory" where
  "noted ev d = d\<lparr>dr_trace := dr_trace d @ [ev]\<rparr>"

definition json_of_user :: "user \<Rightarrow> json" where
  "json_of_user u = JObj
     [(''id'', JStr (us_id u)), (''email'', JStr (us_email u)), (''first_name'', JStr (us_first_name u)),
      (''last_name'', JStr (us_last_name u)), (''role'', JStr (us_role u)), (''status'', JStr (us_status u))]"

definition text_member :: "(string \<times> json) list \<Rightarrow> string \<Rightarrow> string" where
  "text_member ms k = (case map_of ms k of Some (JStr s) \<Rightarrow> s | _ \<Rightarrow> [])"

definition request_of_body :: "string option \<Rightarrow> create_user_request" where
  "request_of_body b =
     (let ms = (case Option.bind b parse_json of Some (JObj ms) \<Rightarrow> ms | _ \<Rightarrow> []); f = text_member ms
      in \<lparr>cu_email = f ''email'', cu_first_name = f ''first_name'', cu_last_name = f ''last_name'',
          cu_role = f ''role'', cu_idempotency_key = f ''idempotency_key''\<rparr>)"

definition email_of_url :: "string \<Rightarrow> string" where
  "email_of_url s = (case url_parse s of Some u \<Rightarrow> values_get (url_query u) ''email'' | None \<Rightarrow> [])"

text \<open>\<open>search\<close> is how the directory searches its members by email, \<open>task\<close> the identifier of the task it makes of
  an invitation.\<close>

definition directory_answer ::
    "(string \<Rightarrow> user list \<Rightarrow> user list) \<Rightarrow> (create_user_request \<Rightarrow> string) \<Rightarrow> http_request \<Rightarrow> directory \<Rightarrow> json \<times> directory" where
  "directory_answer search task rq d =
     (if rq_method rq = method_post
      then (let r = request_of_body (rq_body rq) in (JObj [(''id'', JStr (task r))], noted (Invitation r) d))
      else (let e = email_of_url (rq_url rq)
            in (page_json (map json_of_user (search e (dr_members d))), noted (Lookup e) d)))"

definition line_failure :: gerror where
  "line_failure = Plain [S ''connection reset'']"

definition directory_send ::
    "(string \<Rightarrow> user list \<Rightarrow> user list) \<Rightarrow> (create_user_request \<Rightarrow> string) \<Rightarrow> http_request \<Rightarrow> directory
       \<Rightarrow> (gerror + http_response) \<times> directory" where
  "directory_send search task rq d0 =
     (case next_delivery d0 of
        (Delivered, d) \<Rightarrow> map_prod (Inr \<circ> json_response) id (directory_answer search task rq d)
      | (Dropped, d) \<Rightarrow> (Inl line_failure, d)
      | (Lost, d) \<Rightarrow> (Inl line_failure, snd (directory_answer search task rq d)))"

definition directory_server ::
    "(string \<Rightarrow> user list \<Rightarrow> user list) \<Rightarrow> (create_user_request \<Rightarrow> string) \<Rightarrow> directory svc \<Rightarrow> directory svc" where
  "directory_server search task sv =
     sv\<lparr>sv_send := directory_send search task, sv_network_class := (\<lambda>_. Some (Unavailable, ''connection reset''))\<rparr>"

text \<open>A search gives members only, tasks have names that are text, and identifiers are made without a change
  to the directory.\<close>

definition members_only :: "(string \<Rightarrow> user list \<Rightarrow> user list) \<Rightarrow> bool" where
  "members_only search \<longleftrightarrow> (\<forall>e us. set (search e us) \<subseteq> set us)"

definition names_tasks :: "(create_user_request \<Rightarrow> string) \<Rightarrow> bool" where
  "names_tasks task \<longleftrightarrow> (\<forall>q. valid_utf8 (task q))"

definition makes_keys :: "directory svc \<Rightarrow> bool" where
  "makes_keys sv \<longleftrightarrow> (\<forall>d. valid_utf8 (fst (sv_uuid sv d)) \<and> snd (sv_uuid sv d) = d)"

definition text_user :: "user \<Rightarrow> bool" where
  "text_user u = (valid_utf8 (us_id u) \<and> valid_utf8 (us_email u) \<and> valid_utf8 (us_first_name u)
     \<and> valid_utf8 (us_last_name u) \<and> valid_utf8 (us_role u) \<and> valid_utf8 (us_status u))"

definition text_request :: "create_user_request \<Rightarrow> bool" where
  "text_request r = (valid_utf8 (cu_email r) \<and> valid_utf8 (cu_first_name r) \<and> valid_utf8 (cu_last_name r)
     \<and> valid_utf8 (cu_role r) \<and> cu_idempotency_key r = [])"

definition directory_ok :: "directory \<Rightarrow> bool" where
  "directory_ok d = (list_all text_user (dr_members d) \<and> list_all (\<lambda>(us, _). list_all text_user us) (dr_line d))"

lemma next_delivery_ok: "next_delivery d = (x, d') \<Longrightarrow> directory_ok d \<Longrightarrow> directory_ok d'"
  by (auto simp: next_delivery_def directory_ok_def split: list.splits)

lemma next_delivery_trace:
  "next_delivery d = (x, d') \<Longrightarrow> \<exists>t. dr_trace d' = dr_trace d @ t \<and> list_all is_change t
     \<and> dr_members d' = listed_after (dr_members d) t"
  by (auto simp: next_delivery_def split: list.splits)

lemma noted_simps [simp]:
  "dr_members (noted ev d) = dr_members d" "dr_line (noted ev d) = dr_line d"
  "dr_trace (noted ev d) = dr_trace d @ [ev]" "directory_ok (noted ev d) = directory_ok d"
  by (simp_all add: noted_def directory_ok_def)

section \<open>Requests on a line\<close>

text \<open>One request of a client with a static token that does not come from the cache: what the wire answers
  decides.\<close>

lemma do_query_wire:
  assumes "tok \<noteq> []" "plain_rest p" "api_query q" "meth \<noteq> method_get \<or> nc \<or> \<not> sv_caching sv"
    and "\<And>hs. sv_send sv ((build_request meth (api_query_url p q) body nc)\<lparr>rq_headers := hs\<rparr>) (cn_world c) =
      (Inr (json_response j), w)"
    and "wf_json j" "depth j \<le> max_nesting" "dec j a = Some b"
  shows "\<exists>c'. do_query sv (static_client tok) ctx meth (url_string (api_query_url p q)) body (Some dec) a nc c =
      ((Inr b, Some no_limits), c') \<and> cn_world c' = w"
proof -
  let ?rq = "build_request meth (api_query_url p q) body nc"
  have miss: "rq_method ?rq \<noteq> method_get \<or> header_get (rq_headers ?rq) ''Cache-Control'' = ''no-cache''
      \<or> cache_get sv u (rq_headers ?rq) c = None" for u
    using assms(4) by (auto simp: build_request_def cache_get_def)
  show ?thesis
    using miss
    by (simp add: do_query_def parse_api_query [OF assms(2,3)] http_do_miss round_trip_static [OF assms(1) assms(5)]
        finish_json [where dec = dec and a = a, OF assms(6-8)] remember_def)
qed

lemma round_trip_failed:
  assumes "tok \<noteq> []" "sv_send sv (rq\<lparr>rq_headers := header_set ''Authorization'' (''Bearer '' @ tok) (rq_headers rq)\<rparr>)
      (cn_world c) = (Inl e, w)"
  shows "round_trip sv (cl_sources (static_client tok)) ctx rq c = (Inl e, c\<lparr>cn_rate_limit := None, cn_world := w\<rparr>)"
  using assms
  by (simp add: round_trip_def static_client_def new_client_def new_with_token_sources_def for_class_read_only
      static_token_def Let_def)

lemma do_query_line_failure:
  assumes "tok \<noteq> []" "plain_rest p" "api_query q" "meth \<noteq> method_get \<or> nc \<or> \<not> sv_caching sv"
    and "\<And>hs. sv_send sv ((build_request meth (api_query_url p q) body nc)\<lparr>rq_headers := hs\<rparr>) (cn_world c) =
      (Inl line_failure, w)"
    and "\<And>e. sv_network_class sv e = Some (Unavailable, m)"
  shows "\<exists>e rl c'. do_query sv (static_client tok) ctx meth (url_string (api_query_url p q)) body dec a nc c =
      ((Inl e, rl), c') \<and> status_code e = Unavailable \<and> \<not> is_panic e \<and> cn_world c' = w"
proof -
  let ?rq = "build_request meth (api_query_url p q) body nc"
  have miss: "rq_method ?rq \<noteq> method_get \<or> header_get (rq_headers ?rq) ''Cache-Control'' = ''no-cache''
      \<or> cache_get sv u (rq_headers ?rq) c = None" for u
    using assms(4) by (auto simp: build_request_def cache_get_def)
  have "status_code (wrap_request_error sv w (UrlError x y line_failure)) = Unavailable" for x y
    by (simp add: wrap_request_error_def without_request_url_def line_failure_def classify_transport_failure_def assms(6))
  then show ?thesis
    using miss
    by (simp add: do_query_def parse_api_query [OF assms(2,3)] http_do_miss round_trip_failed [OF assms(1) assms(5)])
qed

section \<open>Bodies\<close>

lemma keys_utf8:
  "valid_utf8 ''id''" "valid_utf8 ''email''" "valid_utf8 ''first_name''" "valid_utf8 ''last_name''"
  "valid_utf8 ''role''" "valid_utf8 ''status''" "valid_utf8 ''idempotency_key''"
  by (rule valid_utf8_ascii, simp)+

lemma json_of_user_ok:
  assumes "list_all text_user us"
  shows "list_all wf_json (map json_of_user us)" "list_all (\<lambda>j. depth j \<le> 3) (map json_of_user us)"
  using assms keys_utf8 by (induction us) (simp_all add: json_of_user_def text_user_def)

lemma decode_json_of_user: "decode_user (json_of_user u) zero_user = Some u"
  by (cases u) (simp add: json_of_user_def decode_user_def key_matches_ascii fold_rune_def zero_user_def)

lemma decode_users: "decode_elems (elem_pointer decode_user zero_user) None (map json_of_user us) [] = Some (map Some us)"
  by (induction us) (simp_all add: elem_pointer_def decode_json_of_user, simp add: json_of_user_def)

lemma request_of_printed:
  assumes "text_request (r\<lparr>cu_idempotency_key := []\<rparr>)" "valid_utf8 (cu_idempotency_key r)"
  shows "request_of_body (Some (print_json (json_of_create_user r))) = r"
proof -
  have "wf_json (json_of_create_user r)" "depth (json_of_create_user r) \<le> max_nesting"
    using assms keys_utf8 by (simp_all add: json_of_create_user_def text_request_def max_nesting_def)
  then have "parse_json (print_json (json_of_create_user r)) = Some (json_of_create_user r)" by (rule parse_print_json)
  then show ?thesis by (cases r) (simp add: request_of_body_def json_of_create_user_def text_member_def Let_def)
qed

section \<open>The two calls\<close>

definition email_query :: "string \<Rightarrow> string" where
  "email_query e = values_encode [(''email'', e)]"

lemma users_paths: "plain_rest users_endpoint" "plain_rest users_deferred_endpoint"
  by (simp_all add: plain_rest_def users_endpoint_def users_deferred_endpoint_def plain_char_def is_alnum_def)

lemma api_email_query: "api_query (email_query e)"
  unfolding email_query_def by (rule values_encode_query)

lemma email_of_query: "email_of_url (url_string (api_query_url users_endpoint (email_query e))) = e"
  by (simp add: email_of_url_def parse_api_query [OF users_paths(1) api_email_query])
    (simp add: url_query_def api_query_url_def email_query_def parse_values_encode values_get_def)

lemma api_url_query: "url_query (api_url p) = []"
  by (simp add: url_query_def api_url_def plain_url_def empty_url_def) code_simp

lemma find_user_by_email_url:
  "find_user_by_email sv (static_client tok) e c =
     (case query_uncached sv (static_client tok) None method_get (url_string (api_query_url users_endpoint (email_query e)))
             (Some decode_users_list) zero_users_list c of
        ((Inl er, rl), c') \<Rightarrow> ((Inl (Wrap [S ''ramp-client: error finding user by email: ''] er []), rl), c')
      | ((Inr l, rl), c') \<Rightarrow> ((first_with_email (sv_unicode sv) e (ul_users l), rl), c'))"
proof -
  have u: "url_string ((api_url users_endpoint)\<lparr>u_raw_query := values_encode (values_set (url_query (api_url users_endpoint)) ''email'' e)\<rparr>) =
      url_string (api_query_url users_endpoint (email_query e))"
    by (simp add: api_url_query values_set_def api_query_url_def email_query_def)
  have n: "new_unpaginated_url (static_client tok) users_endpoint = Inr (ramp_origin @ api_prefix @ users_endpoint)"
    using users_paths(1) by (simp add: new_unpaginated_url_plain)
  show ?thesis
    unfolding find_user_by_email_def n sum.case api_url_parse [OF users_paths(1)] option.case u Let_def ..
qed

lemma find_over_line:
  assumes "tok \<noteq> []" "list_all text_user (search e (dr_members d))" "next_delivery (cn_world c) = (x, d)"
  shows "\<exists>r rl c'. find_user_by_email (directory_server search task sv) (static_client tok) e c = ((r, rl), c')
    \<and> cn_world c' = (if x = Dropped then d else noted (Lookup e) d)
    \<and> (if x = Delivered then r = first_with_email (sv_unicode sv) e (map Some (search e (dr_members d)))
       else \<exists>er. r = Inl er \<and> status_code er = Unavailable \<and> \<not> is_panic er)"
proof -
  let ?sv = "directory_server search task sv" and ?us = "search e (dr_members d)"
  let ?rq = "build_request method_get (api_query_url users_endpoint (email_query e)) None True"
  let ?l = "\<lparr>ul_page = \<lparr>pg_next = []\<rparr>, ul_users = map Some ?us\<rparr>"
  have answer: "directory_answer search task (?rq\<lparr>rq_headers := hs\<rparr>) d = (page_json (map json_of_user ?us), noted (Lookup e) d)" for hs
    by (simp add: directory_answer_def build_request_def email_of_query Let_def) (simp add: method_get_def method_post_def)
  have dec: "decode_users_list (page_json (map json_of_user ?us)) zero_users_list = Some ?l"
    using decode_users [of ?us] by (simp add: list_decoder_simps decode_users_list_def zero_users_list_def)
  have un: "sv_unicode ?sv = sv_unicode sv" "\<And>er. sv_network_class ?sv er = Some (Unavailable, ''connection reset'')"
    by (simp_all add: directory_server_def)
  show ?thesis
  proof (cases "x = Delivered")
    case True
    have "sv_send ?sv (?rq\<lparr>rq_headers := hs\<rparr>) (cn_world c) = (Inr (json_response (page_json (map json_of_user ?us))), noted (Lookup e) d)" for hs
      using assms(3) True by (simp add: directory_server_def directory_send_def answer)
    from do_query_wire [where dec = decode_users_list and a = zero_users_list and ctx = None,
        OF assms(1) users_paths(1) api_email_query _ this page_json_ok [OF json_of_user_ok [OF assms(2)]] dec]
    obtain c' where "do_query ?sv (static_client tok) None method_get (url_string (api_query_url users_endpoint (email_query e))) None
        (Some decode_users_list) zero_users_list True c = ((Inr ?l, Some no_limits), c')" "cn_world c' = noted (Lookup e) d" by auto
    then show ?thesis using True by (simp add: find_user_by_email_url query_uncached_def un)
  next
    case False
    let ?w = "if x = Dropped then d else noted (Lookup e) d"
    have "sv_send ?sv (?rq\<lparr>rq_headers := hs\<rparr>) (cn_world c) = (Inl line_failure, ?w)" for hs
      using assms(3) False by (cases x) (simp_all add: directory_server_def directory_send_def answer)
    from do_query_line_failure [where dec = "Some decode_users_list" and a = zero_users_list and ctx = None,
        OF assms(1) users_paths(1) api_email_query _ this un(2)]
    obtain er rl c' where "do_query ?sv (static_client tok) None method_get (url_string (api_query_url users_endpoint (email_query e))) None
        (Some decode_users_list) zero_users_list True c = ((Inl er, rl), c')" "status_code er = Unavailable" "cn_world c' = ?w"
      by auto
    then show ?thesis using False by (simp add: find_user_by_email_url query_uncached_def)
  qed
qed

lemma create_over_line:
  assumes "tok \<noteq> []" "makes_keys sv" "names_tasks task" "text_request rq" "next_delivery (cn_world c) = (x, d)"
  shows "\<exists>r rl c'. create_user (directory_server search task sv) (static_client tok) rq c = ((r, rl), c')
    \<and> cn_world c' = (if x = Dropped then d
         else noted (Invitation (rq\<lparr>cu_idempotency_key := fst (sv_uuid sv (cn_world c))\<rparr>)) d)
    \<and> (if x = Delivered then is_ok r else \<not> is_ok r)"
proof -
  let ?sv = "directory_server search task sv"
  obtain k where k: "sv_uuid sv (cn_world c) = (k, cn_world c)" "valid_utf8 k"
    using assms(2) unfolding makes_keys_def by (metis prod.collapse)
  let ?r = "rq\<lparr>cu_idempotency_key := k\<rparr>" and ?j = "JObj [(''id'', JStr (task (rq\<lparr>cu_idempotency_key := k\<rparr>)))]"
  let ?rq = "build_request method_post (api_query_url users_deferred_endpoint []) (Some (json_of_create_user ?r)) False"
  let ?d = "noted (Invitation ?r) d"
  have req: "text_request (?r\<lparr>cu_idempotency_key := []\<rparr>)" "valid_utf8 (cu_idempotency_key ?r)" "cu_idempotency_key rq = []"
    using assms(4) k(2) by (simp_all add: text_request_def)
  have answer: "directory_answer search task (?rq\<lparr>rq_headers := hs\<rparr>) d = (?j, ?d)" for hs
    using request_of_printed [OF req(1,2)] by (simp add: directory_answer_def build_request_def Let_def)
  have st: "c\<lparr>cn_world := cn_world c\<rparr> = c" by simp
  have uu: "sv_uuid ?sv (cn_world c) = (k, cn_world c)" "\<And>er. sv_network_class ?sv er = Some (Unavailable, ''connection reset'')"
    using k(1) by (simp_all add: directory_server_def)
  have cu: "create_user ?sv (static_client tok) rq c =
      (case query_with_body ?sv (static_client tok) (with_scope_class None ScopeUsersWrite) method_post
          (url_string (api_query_url users_deferred_endpoint [])) (json_of_create_user ?r) (Some decode_deferred_task) zero_deferred_task c of
        (r, c') \<Rightarrow> (wrap_reply [S ''ramp-client: error creating user: ''] id r, c'))"
    by (simp add: create_user_def req(3) uu(1) st Let_def new_unpaginated_url_plain [OF users_paths(2)]
        api_query_url_Nil api_url_string [OF users_paths(2)])
  have tk: "valid_utf8 (task ?r)" using assms(3) by (simp add: names_tasks_def)
  have post: "method_post \<noteq> method_get" by (simp add: method_get_def method_post_def)
  show ?thesis
  proof (cases "x = Delivered")
    case True
    have send: "sv_send ?sv (?rq\<lparr>rq_headers := hs\<rparr>) (cn_world c) = (Inr (json_response ?j), ?d)" for hs
      using assms(5) True by (simp add: directory_server_def directory_send_def answer)
    have j: "wf_json ?j" "depth ?j \<le> max_nesting" "decode_deferred_task ?j zero_deferred_task = Some \<lparr>dt_id = task ?r\<rparr>"
      using tk keys_utf8
      by (simp_all add: max_nesting_def decode_deferred_task_def key_matches_ascii fold_rune_def zero_deferred_task_def)
    from do_query_wire [where dec = decode_deferred_task and a = zero_deferred_task and ctx = "with_scope_class None ScopeUsersWrite",
        OF assms(1) users_paths(2) _ _ send j]
    obtain c' where "do_query ?sv (static_client tok) (with_scope_class None ScopeUsersWrite) method_post
        (url_string (api_query_url users_deferred_endpoint [])) (Some (json_of_create_user ?r))
        (Some decode_deferred_task) zero_deferred_task False c = ((Inr \<lparr>dt_id = task ?r\<rparr>, Some no_limits), c')"
      "cn_world c' = ?d" using post by (auto simp: api_query_def)
    then show ?thesis using True k(1) by (simp add: cu query_with_body_def wrap_reply_def)
  next
    case False
    let ?w = "if x = Dropped then d else ?d"
    have send: "sv_send ?sv (?rq\<lparr>rq_headers := hs\<rparr>) (cn_world c) = (Inl line_failure, ?w)" for hs
      using assms(5) False by (cases x) (simp_all add: directory_server_def directory_send_def answer)
    from do_query_line_failure [where dec = "Some decode_deferred_task" and a = zero_deferred_task
        and ctx = "with_scope_class None ScopeUsersWrite", OF assms(1) users_paths(2) _ _ send uu(2)]
    obtain er rl c' where "do_query ?sv (static_client tok) (with_scope_class None ScopeUsersWrite) method_post
        (url_string (api_query_url users_deferred_endpoint [])) (Some (json_of_create_user ?r))
        (Some decode_deferred_task) zero_deferred_task False c = ((Inl er, rl), c')" "cn_world c' = ?w"
      using post by (auto simp: api_query_def)
    then show ?thesis using False k(1) by (simp add: cu query_with_body_def wrap_reply_def is_ok_iff)
  qed
qed

end
