(* ===== verification/Vendor_Claims.thy ===== *)
theory Vendor_Claims
  imports Sample_Pages
begin

text \<open>
  Properties of the vendor syncer: which vendors become resources, what a listed page leaves in the cache
  of owners, and what the assignment and the removal of the one owner do, with the response cache of the
  SDK off and on.
\<close>

text \<open>A vendor becomes a resource exactly when it has an identifier and a name or legal name; the
  resource is then the vendor's: legal name before trade name, the trade name only where it differs, the
  link, and each spend window that has a currency. In every other case building it is an error.\<close>

lemma vendor_resource_exact:
  "vendor_resource sv v = Inr r \<longleftrightarrow> vendor_ok v \<and> r = vendor_resource_of sv v"
  using vendor_resource_ok [of v sv] vendor_resource_error [of v sv] by (cases "vendor_ok v") auto

section \<open>A page of vendors\<close>

definition vendor_entry :: "vendor \<Rightarrow> string \<times> string" where
  "vendor_entry v = (ve_id v, ve_vendor_owner_id v)"

lemma vendor_page_ok:
  "vendor_page sv vs m = (Inr rs, m') \<Longrightarrow>
     \<exists>items. vs = map Some items \<and> list_all vendor_ok items \<and> rs = map (vendor_resource_of sv) items
       \<and> m' = ow.put_page (map vendor_entry items) m"
proof (induction sv vs m arbitrary: rs m' rule: vendor_page.induct)
  case (1 sv m)
  then show ?case by (simp add: ow.put_page_def)
next
  case (2 sv vs m)
  then show ?case by simp
next
  case (3 sv v vs m)
  obtain r where r: "vendor_resource sv v = Inr r"
    using "3.prems" by (auto simp: Let_def split: sum.splits)
  let ?m1 = "owners_put (ve_id v) (ve_vendor_owner_id v) m"
  obtain rs2 where rs2: "vendor_page sv vs ?m1 = (Inr rs2, m')" "rs = r # rs2"
    using "3.prems" r by (auto simp: Let_def split: sum.splits prod.splits)
  obtain items where "vs = map Some items" "list_all vendor_ok items" "rs2 = map (vendor_resource_of sv) items"
    "m' = ow.put_page (map vendor_entry items) ?m1"
    using "3.IH" [OF refl r rs2(1)] by blast
  moreover have "vendor_ok v" "r = vendor_resource_of sv v"
    using r vendor_resource_ok [of v sv] vendor_resource_error [of v sv] by (cases "vendor_ok v"; auto)+
  ultimately have "Some v # vs = map Some (v # items) \<and> list_all vendor_ok (v # items)
      \<and> rs = map (vendor_resource_of sv) (v # items) \<and> m' = ow.put_page (map vendor_entry (v # items)) m"
    using rs2(2) by (simp add: ow.put_page_def vendor_entry_def)
  then show ?case by (rule exI)
qed

text \<open>A successful page of vendors has the resources of exactly the vendors the server listed, in
  order, all of them usable; the cache of owners then holds, for each, the owner listed last, starts over
  on a first page, and otherwise keeps what the earlier pages left.\<close>

lemma vendor_list_exact:
  assumes "vendor_list sv cl t m c = ((Inr (rs, nx), an), m', c')"
  shows "\<exists>vs rl. list_vendors sv cl t c = ((Inr \<lparr>vr_vendors = map Some vs, vr_pagination = nx\<rparr>, rl), c')
    \<and> list_all vendor_ok vs \<and> rs = map (vendor_resource_of sv) vs \<and> an = with_rate_limiting [] rl
    \<and> (\<forall>k. owners_find m' k = (case map_of (rev (map vendor_entry vs)) k of Some x \<Rightarrow> Some x
          | None \<Rightarrow> if t = [] then None else owners_find m k))"
proof -
  obtain resp rl where l: "list_vendors sv cl t c = ((Inr resp, rl), c')"
    and p: "vendor_page sv (vr_vendors resp) (owners_begin t m) = (Inr rs, m')"
    and nx: "nx = vr_pagination resp" "an = with_rate_limiting [] rl"
    using assms by (auto simp: vendor_list_def Let_def split: sum.splits prod.splits)
  obtain vs where vs: "vr_vendors resp = map Some vs" "list_all vendor_ok vs" "rs = map (vendor_resource_of sv) vs"
    "m' = ow.put_page (map vendor_entry vs) (owners_begin t m)"
    using vendor_page_ok [OF p] by blast
  have "owners_find m' k = (case map_of (rev (map vendor_entry vs)) k of Some x \<Rightarrow> Some x
          | None \<Rightarrow> if t = [] then None else owners_find m k)" for k
    using ow.find_later [of t m k] ow.find_fresh [of m k]
    by (simp add: vs(4) ow.find_put_page [OF ow.ready_start] split: option.split)
  with l vs nx show ?thesis by (cases resp) auto
qed

lemma vendor_list_exact_witness:
  "\<forall>(sv :: unit svc) m c. \<exists>rs m' vs.
     vendor_list (page_server (page_json [vendor_json ''v1'' ''alice'']) sv) (static_client ''secret'') [] m c =
       ((Inr (rs, []), [ARateLimit no_limits]), m', c\<lparr>cn_rate_limit := None\<rparr>)
     \<and> rs = map (vendor_resource_of (page_server (page_json [vendor_json ''v1'' ''alice'']) sv)) vs
     \<and> owners_find m' ''v1'' = Some ''alice''"
proof (intro allI)
  fix sv :: "unit svc" and m c
  let ?sv = "page_server (page_json [vendor_json ''v1'' ''alice'']) sv" and ?v = "vendor_named ''v1'' ''alice''"
  have ok: "valid_utf8 ''v1''" "valid_utf8 ''alice''" by (rule valid_utf8_ascii, simp)+
  note j = vendor_json_ok [OF ok]
  have d: "decode_elems (elem_pointer decode_vendor zero_vendor) None [vendor_json ''v1'' ''alice''] [] = Some [Some ?v]"
    by (simp add: elem_pointer_def j) (simp add: vendor_json_def)
  have l: "list_vendors ?sv (static_client ''secret'') [] c =
      ((Inr \<lparr>vr_vendors = [Some ?v], vr_pagination = []\<rparr>, Some no_limits), c\<lparr>cn_rate_limit := None\<rparr>)"
    by (rule list_vendors_page [OF _ _ _ d]) (use j in \<open>simp_all add: vendor_json_def\<close>)
  have "vendor_ok ?v" by (simp add: vendor_ok_def vendor_named_def)
  then have run: "vendor_list ?sv (static_client ''secret'') [] m c =
      ((Inr ([vendor_resource_of ?sv ?v], []), [ARateLimit no_limits]), ow.put_page [vendor_entry ?v] (owners_begin [] m),
       c\<lparr>cn_rate_limit := None\<rparr>)"
    by (simp add: vendor_list_def l vendor_resource_ok ow.put_page_def vendor_entry_def)
  let ?rs = "[vendor_resource_of ?sv ?v]" and ?m = "ow.put_page [vendor_entry ?v] (owners_begin [] m)"
  obtain vs rl where vs: "list_vendors ?sv (static_client ''secret'') [] c =
      ((Inr \<lparr>vr_vendors = map Some vs, vr_pagination = []\<rparr>, rl), c\<lparr>cn_rate_limit := None\<rparr>)"
    "?rs = map (vendor_resource_of ?sv) vs"
    "\<forall>k. owners_find ?m k = (case map_of (rev (map vendor_entry vs)) k of Some x \<Rightarrow> Some x
          | None \<Rightarrow> if [] = ([] :: string) then None else owners_find m k)"
    using vendor_list_exact [OF run] by (elim exE conjE) (rule that)
  from vs(1) l have "vs = [?v]" by auto
  with vs(3) have f: "owners_find ?m ''v1'' = Some ''alice''" by (simp add: vendor_entry_def vendor_named_def)
  show "\<exists>rs m' vs. vendor_list ?sv (static_client ''secret'') [] m c =
       ((Inr (rs, []), [ARateLimit no_limits]), m', c\<lparr>cn_rate_limit := None\<rparr>)
     \<and> rs = map (vendor_resource_of ?sv) vs \<and> owners_find m' ''v1'' = Some ''alice''"
    by (intro exI conjI, rule run, rule vs(2), rule f)
qed

section \<open>A vendor and its owner\<close>

definition sample_conn :: "vendor_world conn" where
  "sample_conn = \<lparr>cn_cache = (\<lambda>_. None), cn_rate_limit = None, cn_world = (\<lambda>_. [])(''v1'' := ''alice'')\<rparr>"

definition sample_vendor :: resource where
  "sample_vendor = \<lparr>res_id = \<lparr>ri_type = ''vendor'', ri_resource = ''v1''\<rparr>, res_display_name = ''Vendor'',
     res_external_id = None, res_status = None, res_annotations = []\<rparr>"

definition sample_entitlement :: entitlement where
  "sample_entitlement = new_assignment_entitlement sample_vendor vendor_owner_entitlement [] [] []"

definition sample_user :: "string \<Rightarrow> resource" where
  "sample_user u = \<lparr>res_id = \<lparr>ri_type = ''user'', ri_resource = u\<rparr>, res_display_name = [],
     res_external_id = None, res_status = None, res_annotations = []\<rparr>"

lemma sample_facts:
  "vendor_name ''v1''" "valid_utf8 ''bob''" "valid_owners sample_conn" "cn_cache sample_conn k = None"
  "cn_world sample_conn ''v1'' = ''alice''"
  "ri_resource (res_id (en_resource sample_entitlement)) = ''v1''" "ri_resource (res_id (sample_user u)) = u"
  "ri_resource (res_id (gr_entitlement_resource (owner_grant sample_vendor u))) = ''v1''"
  "ri_resource (gr_principal (owner_grant sample_vendor u)) = u"
  by (simp_all add: vendor_name_def plain_char_def is_alnum_def valid_utf8_ascii sample_conn_def valid_owners_def
      sample_entitlement_def new_assignment_entitlement_def sample_vendor_def sample_user_def owner_grant_def
      new_grant_def new_resource_id_def)

text \<open>C9: Without the response cache, a grant and then a revoke of the same user, both reported as
  successful, leave the vendor without an owner and every other vendor as it was, and the revoke does
  not claim that the grant was already gone.\<close>

theorem grant_then_revoke:
  assumes "vendor_name v" "valid_utf8 u" "valid_owners c"
    and "ri_resource (res_id (en_resource ent)) = v" "ri_resource (res_id who) = u"
    and "ri_resource (res_id (gr_entitlement_resource g)) = v" "ri_resource (gr_principal g) = u"
    and "vendor_grant (vendor_server False sv) (static_client tok) who ent c = ((Inr gs, an), c1)"
    and "vendor_revoke (vendor_server False sv) (static_client tok) g c1 = ((Inr (), an'), c2)"
  shows "cn_world c2 = (cn_world c)(v := []) \<and> AGrantAlreadyRevoked \<notin> set an'"
proof -
  let ?sv = "vendor_server False sv" and ?cl = "static_client tok :: vendor_world client"
  have run: "owner_call ?sv ?cl (Assign who ent) c = (Some (gs, AGrantAlreadyExists \<in> set an), c1)"
    "owner_call ?sv ?cl (Remove g) c1 = (Some ([], AGrantAlreadyRevoked \<in> set an'), c2)"
    using assms(8,9) by (simp_all add: owner_call_def)
  have "owner_named (Assign who ent)" "owner_named (Remove g)"
    "op_vendor (Remove g) = op_vendor (Assign who ent)" "op_user (Remove g) = op_user (Assign who ent)"
    using assms(1,2,4-7) by (simp_all add: owner_named_def)
  from reg.assign_then_remove [OF this(1,2) assms(3) this(3,4) run] assms(6) show ?thesis by simp
qed

theorem grant_then_revoke_witness:
  "\<forall>sv. \<exists>gs an c1 an' c2.
     vendor_grant (vendor_server False sv) (static_client ''secret'') (sample_user ''bob'') sample_entitlement sample_conn =
       ((Inr gs, an), c1)
     \<and> vendor_revoke (vendor_server False sv) (static_client ''secret'') (owner_grant sample_vendor ''bob'') c1 =
       ((Inr (), an'), c2)
     \<and> cn_world c2 = (cn_world sample_conn)(''v1'' := []) \<and> AGrantAlreadyRevoked \<notin> set an'"
proof
  fix sv
  let ?sv = "vendor_server False sv" and ?cl = "static_client ''secret'' :: vendor_world client"
  let ?c0 = "fetched False sv ''v1'' sample_conn"
  let ?c1 = "?c0\<lparr>cn_rate_limit := None, cn_world := (cn_world ?c0)(''v1'' := ''bob'')\<rparr>"
  have ok: "valid_utf8 ''alice''" "valid_utf8 ([] :: string)" by (simp_all add: valid_utf8_ascii)
  have g: "vendor_grant ?sv ?cl (sample_user ''bob'') sample_entitlement sample_conn =
      ((Inr [owner_grant (en_resource sample_entitlement) ''bob''], [ARateLimit no_limits]), ?c1)"
    using get_vendor_miss [of "''secret''" "''v1''" sample_conn False sv]
      update_owner_served [of "''secret''" "''v1''" "''bob''" False sv ?c0] ok
    by (simp add: vendor_grant_def vendor_named_def sample_facts Let_def)
  obtain c2 where r: "vendor_revoke ?sv ?cl (owner_grant sample_vendor ''bob'') ?c1 = ((Inr (), [ARateLimit no_limits]), c2)"
    using get_vendor_miss [of "''secret''" "''v1''" ?c1 False sv]
      update_owner_served [of "''secret''" "''v1''" "[]" False sv] ok
    by (simp add: vendor_revoke_def vendor_named_def sample_facts Let_def)
  from grant_then_revoke [OF sample_facts(1-3,6,7,8,9) g r] g r
  show "\<exists>gs an c1 an' c2.
     vendor_grant ?sv ?cl (sample_user ''bob'') sample_entitlement sample_conn = ((Inr gs, an), c1)
     \<and> vendor_revoke ?sv ?cl (owner_grant sample_vendor ''bob'') c1 = ((Inr (), an'), c2)
     \<and> cn_world c2 = (cn_world sample_conn)(''v1'' := []) \<and> AGrantAlreadyRevoked \<notin> set an'" by blast
qed

text \<open>C35: With the response cache on (the SDK's default) the same two calls go wrong: when the vendor had
  another owner before, the revoke still sees that owner in the remembered answer, sends nothing and
  reports that the grant is already revoked, while the user stays the owner.\<close>

theorem revoke_after_grant_reads_stale_owner:
  assumes "tok \<noteq> []" "vendor_name v" "valid_utf8 u" "valid_owners c" "cn_cache c (vendor_key sv v) = None"
    and "cn_world c v \<noteq> u"
    and "ri_resource (res_id (en_resource ent)) = v" "ri_resource (res_id who) = u"
    and "ri_resource (res_id (gr_entitlement_resource g)) = v" "ri_resource (gr_principal g) = u"
  shows "\<exists>gs an c1 an' c2.
    vendor_grant (vendor_server True sv) (static_client tok) who ent c = ((Inr gs, an), c1) \<and> gs \<noteq> []
    \<and> vendor_revoke (vendor_server True sv) (static_client tok) g c1 = ((Inr (), an'), c2)
    \<and> AGrantAlreadyRevoked \<in> set an' \<and> cn_world c2 v = u"
proof -
  let ?old = "cn_world c v" and ?c0 = "fetched True sv v c"
  have old: "valid_utf8 ?old" using assms(4) by (simp add: valid_owners_def)
  let ?c1 = "?c0\<lparr>cn_rate_limit := None, cn_world := (cn_world ?c0)(v := u)\<rparr>"
  have g: "vendor_grant (vendor_server True sv) (static_client tok) who ent c =
      ((Inr [owner_grant (en_resource ent) u], [ARateLimit no_limits]), ?c1)"
    using assms get_vendor_miss [OF assms(1,2) old, of True sv]
      update_owner_served [OF assms(1,2,3), of True sv ?c0]
    by (simp add: vendor_grant_def vendor_named_def)
  have hit: "cn_cache ?c1 (vendor_key sv v) = Some (json_response (vendor_json v ?old))"
    by (simp add: fetched_def cache_set_def vendor_server_def vendor_key_def cache_key_def)
  have w: "cn_world ?c1 v = u" by simp
  note r = get_vendor_hit [OF assms(2) old hit, of tok]
  have "\<exists>c2. vendor_revoke (vendor_server True sv) (static_client tok) g ?c1 =
      ((Inr (), [ARateLimit no_limits, AGrantAlreadyRevoked]), c2) \<and> cn_world c2 v = u"
    using assms(6,9,10) r w by (simp add: vendor_revoke_def vendor_named_def anno_append_def)
  then obtain c2 where c2: "vendor_revoke (vendor_server True sv) (static_client tok) g ?c1 =
      ((Inr (), [ARateLimit no_limits, AGrantAlreadyRevoked]), c2)" "cn_world c2 v = u" by blast
  show ?thesis
    by (intro exI conjI, rule g, simp, rule c2(1), simp, rule c2(2))
qed

theorem revoke_after_grant_reads_stale_owner_witness:
  "\<forall>sv. \<exists>gs an c1 an' c2.
    vendor_grant (vendor_server True sv) (static_client ''secret'') (sample_user ''bob'') sample_entitlement sample_conn =
      ((Inr gs, an), c1) \<and> gs \<noteq> []
    \<and> vendor_revoke (vendor_server True sv) (static_client ''secret'') (owner_grant sample_vendor ''bob'') c1 =
      ((Inr (), an'), c2)
    \<and> AGrantAlreadyRevoked \<in> set an' \<and> cn_world c2 ''v1'' = ''bob''"
proof
  fix sv
  have ne: "''secret'' \<noteq> []" "cn_world sample_conn ''v1'' \<noteq> ''bob''" by (simp_all add: sample_facts)
  show "\<exists>gs an c1 an' c2.
    vendor_grant (vendor_server True sv) (static_client ''secret'') (sample_user ''bob'') sample_entitlement sample_conn =
      ((Inr gs, an), c1) \<and> gs \<noteq> []
    \<and> vendor_revoke (vendor_server True sv) (static_client ''secret'') (owner_grant sample_vendor ''bob'') c1 =
      ((Inr (), an'), c2)
    \<and> AGrantAlreadyRevoked \<in> set an' \<and> cn_world c2 ''v1'' = ''bob''"
    by (rule revoke_after_grant_reads_stale_owner [OF ne(1) sample_facts(1-4) ne(2) sample_facts(6-9)])
qed

end
