(* ===== verification/Owner_Line.thy ===== *)
theory Owner_Line
  imports Account_Server Vendor_Claims
begin

text \<open>
  Grant and Revoke over a line that loses requests and answers: whole runs of calls are runs of the machine of
  owners in \<open>Owner_Register\<close>.
\<close>

section \<open>The server\<close>

text \<open>\<open>vs_line\<close>: what happens to the requests to come; when it is used up, all are delivered.\<close>

record vendor_site =
  vs_owner :: "string \<Rightarrow> string"
  vs_line :: "delivery list"

definition next_on_line :: "vendor_site \<Rightarrow> delivery \<times> vendor_site" where
  "next_on_line d = (case vs_line d of [] \<Rightarrow> (Delivered, d) | x # xs \<Rightarrow> (x, d\<lparr>vs_line := xs\<rparr>))"

definition line_send :: "http_request \<Rightarrow> vendor_site \<Rightarrow> (gerror + http_response) \<times> vendor_site" where
  "line_send rq d0 =
     (case next_on_line d0 of
        (x, d) \<Rightarrow>
          (case vendor_send rq (vs_owner d) of
             (r, w) \<Rightarrow>
               (case x of
                  Delivered \<Rightarrow> (r, d\<lparr>vs_owner := w\<rparr>)
                | Dropped \<Rightarrow> (Inl line_failure, d)
                | Lost \<Rightarrow> (Inl line_failure, d\<lparr>vs_owner := w\<rparr>))))"

definition line_server :: "vendor_site svc \<Rightarrow> vendor_site svc" where
  "line_server sv = sv\<lparr>sv_send := line_send, sv_caching := False,
     sv_network_class := (\<lambda>_. Some (Unavailable, ''connection reset''))\<rparr>"

definition site_ok :: "vendor_site conn \<Rightarrow> bool" where
  "site_ok c = (\<forall>v. valid_utf8 (vs_owner (cn_world c) v))"

lemma line_server_simps [simp]:
  "sv_caching (line_server sv) = False" "sv_send (line_server sv) = line_send"
  "sv_network_class (line_server sv) e = Some (Unavailable, ''connection reset'')"
  by (simp_all add: line_server_def)

lemma next_on_line_owner: "next_on_line d = (x, d') \<Longrightarrow> vs_owner d' = vs_owner d"
  by (auto simp: next_on_line_def split: list.splits)

lemma vendor_url_query: "url_string (api_query_url (vendor_path v) []) = url_string (vendor_url v)"
  by (simp add: api_query_url_Nil vendor_url_def)

section \<open>The two requests\<close>

lemma get_over_line:
  assumes "tok \<noteq> []" "vendor_name v" "valid_utf8 (vs_owner d v)" "next_on_line (cn_world c) = (x, d)"
  shows "\<exists>r rl c'. get_vendor (line_server sv) (static_client tok) v c = ((r, rl), c') \<and> cn_world c' = d
    \<and> (if x = Delivered then r = Inr (vendor_named v (vs_owner d v)) else \<not> is_ok r)"
proof -
  let ?j = "vendor_json v (vs_owner d v)" and ?p = "vendor_path v"
  let ?rq = "build_request method_get (api_query_url ?p []) None False"
  note u = vendor_request_url [OF assms(2)] and p = vendor_path_plain [OF assms(2)]
  note j = vendor_json_ok [OF vendor_name_facts(2) [OF assms(2)] assms(3)]
  have q: "api_query []" by (simp add: api_query_def)
  have got: "get_vendor (line_server sv) (static_client tok) v c =
      (case do_query (line_server sv) (static_client tok) None method_get (url_string (api_query_url ?p [])) None
          (Some decode_vendor) zero_vendor False c of
        (r, c') \<Rightarrow> (wrap_reply [S ''baton-ramp: error getting vendor '', S v, S '': ''] id r, c'))"
    unfolding get_vendor_def u sum.case query_def api_query_url_Nil api_url_string [OF p] ..
  have answer: "vendor_send (?rq\<lparr>rq_headers := hs\<rparr>) (vs_owner d) = (Inr (json_response ?j), vs_owner d)" for hs
    by (simp add: vendor_send_def vendor_url_query vendor_of_url [OF assms(2)] method_get_def method_patch_def Let_def)
  show ?thesis
  proof (cases "x = Delivered")
    case True
    have "sv_send (line_server sv) (?rq\<lparr>rq_headers := hs\<rparr>) (cn_world c) = (Inr (json_response ?j), d)" for hs
      using assms(4) True answer by (simp add: line_send_def)
    from do_query_wire [where dec = decode_vendor and a = zero_vendor and ctx = None, OF assms(1) p q _ this j] True
    show ?thesis by (auto simp: got wrap_reply_def)
  next
    case False
    have "sv_send (line_server sv) (?rq\<lparr>rq_headers := hs\<rparr>) (cn_world c) = (Inl line_failure, d)" for hs
      using assms(4) False answer by (cases x) (simp_all add: line_send_def)
    from do_query_line_failure [where dec = "Some decode_vendor" and a = zero_vendor and ctx = None and m = "''connection reset''",
        OF assms(1) p q _ this] False
    show ?thesis by (auto simp: got wrap_reply_def is_ok_iff)
  qed
qed

lemma update_over_line:
  assumes "tok \<noteq> []" "vendor_name v" "valid_utf8 o'" "next_on_line (cn_world c) = (x, d)"
  shows "\<exists>r rl c'. update_vendor_owner (line_server sv) (static_client tok) v o' c = ((r, rl), c')
    \<and> cn_world c' = (if x = Dropped then d else d\<lparr>vs_owner := (vs_owner d)(v := o')\<rparr>)
    \<and> (if x = Delivered then is_ok r else \<not> is_ok r)"
proof -
  let ?j = "vendor_json v o'" and ?p = "vendor_path v" and ?d = "d\<lparr>vs_owner := (vs_owner d)(v := o')\<rparr>"
  let ?rq = "build_request method_patch (api_query_url ?p []) (Some (json_of_owner_patch o')) False"
  note u = vendor_request_url [OF assms(2)] and p = vendor_path_plain [OF assms(2)]
  note j = vendor_json_ok [OF vendor_name_facts(2) [OF assms(2)] assms(3)]
  have q: "api_query []" by (simp add: api_query_def)
  have put: "update_vendor_owner (line_server sv) (static_client tok) v o' c =
      (case do_query (line_server sv) (static_client tok) (with_scope_class None ScopeVendorsWrite) method_patch
          (url_string (api_query_url ?p [])) (Some (json_of_owner_patch o')) (Some decode_vendor) zero_vendor False c of
        (r, c') \<Rightarrow> (wrap_reply [S ''baton-ramp: error updating vendor owner for '', S v, S '': ''] (\<lambda>_. ()) r, c'))"
    unfolding update_vendor_owner_def u sum.case query_with_body_def api_query_url_Nil api_url_string [OF p] ..
  have answer: "vendor_send (?rq\<lparr>rq_headers := hs\<rparr>) (vs_owner d) = (Inr (json_response ?j), (vs_owner d)(v := o'))" for hs
    by (simp add: vendor_send_def vendor_url_query vendor_of_url [OF assms(2)] Let_def owner_patch_ok [OF assms(3)])
  show ?thesis
  proof (cases "x = Delivered")
    case True
    have "sv_send (line_server sv) (?rq\<lparr>rq_headers := hs\<rparr>) (cn_world c) = (Inr (json_response ?j), ?d)" for hs
      using assms(4) True answer by (simp add: line_send_def)
    from do_query_wire [where dec = decode_vendor and a = zero_vendor and ctx = "with_scope_class None ScopeVendorsWrite",
        OF assms(1) p q _ this j] True
    show ?thesis by (auto simp: put wrap_reply_def)
  next
    case False
    let ?w = "if x = Dropped then d else ?d"
    have "sv_send (line_server sv) (?rq\<lparr>rq_headers := hs\<rparr>) (cn_world c) = (Inl line_failure, ?w)" for hs
      using assms(4) False answer by (cases x) (simp_all add: line_send_def)
    from do_query_line_failure [where dec = "Some decode_vendor" and a = zero_vendor
        and ctx = "with_scope_class None ScopeVendorsWrite" and m = "''connection reset''", OF assms(1) p q _ this] False
    show ?thesis by (auto simp: put wrap_reply_def is_ok_iff)
  qed
qed

section \<open>Calls are steps of the machine\<close>

lemma owner_call_over_line:
  assumes "tok \<noteq> []" "owner_named op" "site_ok c"
    and "owner_call (line_server sv) (static_client tok) op c = (a, c')"
  shows "owner_step op (vs_owner (cn_world c)) a (vs_owner (cn_world c'))"
proof -
  let ?v = "op_vendor op"
  have v: "vendor_name ?v" "valid_utf8 (op_user op)" "valid_utf8 []"
    using assms(2) by (simp_all add: owner_named_def valid_utf8_ascii)
  obtain x d where x: "next_on_line (cn_world c) = (x, d)" by (metis prod.exhaust)
  note o = next_on_line_owner [OF x]
  from get_over_line [OF assms(1) v(1) _ x, of sv] assms(3) o
  obtain r rl c1 where g: "get_vendor (line_server sv) (static_client tok) ?v c = ((r, rl), c1)" "cn_world c1 = d"
    "if x = Delivered then r = Inr (vendor_named ?v (vs_owner d ?v)) else \<not> is_ok r" by (auto simp: site_ok_def)
  show ?thesis
  proof (rule owner_call_step [where own = "\<lambda>c. vs_owner (cn_world c)", OF g(1) _ _ _ assms(4)])
    show "vs_owner (cn_world c1) = vs_owner (cn_world c)" using g(2) o by simp
    show "ve_vendor_owner_id y = vs_owner (cn_world c) ?v" if "r = Inr y" for y
      using that g(3) o by (auto simp: vendor_named_def is_ok_iff split: if_splits)
    fix y q c2 assume y: "y = op_user op \<or> y = []"
      and u: "update_vendor_owner (line_server sv) (static_client tok) ?v y c1 = (q, c2)"
    obtain z d2 where z: "next_on_line (cn_world c1) = (z, d2)" by (metis prod.exhaust)
    have "valid_utf8 y" using y v(2,3) by auto
    from update_over_line [OF assms(1) v(1) this z, of sv] u
    have "cn_world c2 = (if z = Dropped then d2 else d2\<lparr>vs_owner := (vs_owner d2)(?v := y)\<rparr>)" "z = Dropped \<longrightarrow> \<not> is_ok (fst q)"
      by auto
    then show "vs_owner (cn_world c2) = (vs_owner (cn_world c))(?v := y)
        \<or> vs_owner (cn_world c2) = vs_owner (cn_world c) \<and> \<not> is_ok (fst q)"
      using next_on_line_owner [OF z] g(2) o by auto
  qed
qed

lemma site_ok_step:
  assumes "owner_step op (vs_owner (cn_world c)) r (vs_owner (cn_world c'))" "owner_named op" "site_ok c"
  shows "site_ok c'"
  using owner_step_keeps [OF assms(1), of valid_utf8] assms(2,3)
  by (simp add: site_ok_def owner_named_def valid_utf8_ascii)

interpretation line: owner_service
  "owner_call (line_server sv) (static_client tok)" "\<lambda>c. vs_owner (cn_world c)" site_ok
  "\<lambda>op. tok \<noteq> [] \<and> owner_named op" for sv tok
  by unfold_locales (blast intro: owner_call_over_line site_ok_step)

text \<open>On a line that loses nothing every call succeeds.\<close>

definition line_clear :: "vendor_site \<Rightarrow> bool" where
  "line_clear d = list_all (\<lambda>x. x = Delivered) (vs_line d)"

lemma next_clear: "line_clear d \<Longrightarrow> next_on_line d = (x, d') \<Longrightarrow> x = Delivered \<and> line_clear d'"
  by (cases "vs_line d") (auto simp: next_on_line_def line_clear_def)

lemma owner_call_clear:
  assumes "tok \<noteq> []" "owner_named op" "site_ok c" "line_clear (cn_world c)"
    and "owner_call (line_server sv) (static_client tok) op c = (a, c')"
  shows "a \<noteq> None \<and> line_clear (cn_world c')"
proof -
  let ?v = "op_vendor op" and ?y = "case op of Assign _ _ \<Rightarrow> op_user op | Remove _ \<Rightarrow> []"
  have v: "vendor_name ?v" "valid_utf8 ?y" using assms(2) by (cases op; simp add: owner_named_def valid_utf8_ascii)+
  obtain x d where x: "next_on_line (cn_world c) = (x, d)" by (metis prod.exhaust)
  note d = next_clear [OF assms(4) x]
  from get_over_line [OF assms(1) v(1) _ x, of sv] assms(3) next_on_line_owner [OF x] d
  obtain rl c1 where g: "get_vendor (line_server sv) (static_client tok) ?v c = ((Inr (vendor_named ?v (vs_owner d ?v)), rl), c1)"
    "cn_world c1 = d" by (auto simp: site_ok_def)
  obtain z d2 where z: "next_on_line (cn_world c1) = (z, d2)" by (metis prod.exhaust)
  have d2: "z = Delivered" "line_clear d2" using next_clear [OF _ z] g(2) d by simp_all
  from update_over_line [OF assms(1) v z, of sv] d2
  obtain q rl2 c2 where u: "update_vendor_owner (line_server sv) (static_client tok) ?v ?y c1 = ((q, rl2), c2)"
    "line_clear (cn_world c2)" "is_ok q" by (auto simp: line_clear_def)
  show ?thesis
    using assms(5) g d u
    by (cases op) (auto simp: owner_call_def vendor_grant_def vendor_revoke_def Let_def is_ok_iff split: if_splits)
qed

lemma run_clear:
  assumes "tok \<noteq> []" "list_all owner_named ops" "site_ok c" "line_clear (cn_world c)"
    and "run_calls (owner_call (line_server sv) (static_client tok)) ops c = (rs, c')"
  shows "list_all (\<lambda>r. r \<noteq> None) rs"
  using assms(2-5)
proof (induction ops arbitrary: c rs)
  case (Cons op ops)
  obtain r c1 where c1: "owner_call (line_server sv) (static_client tok) op c = (r, c1)" by (metis prod.exhaust)
  have op: "owner_named op" "list_all owner_named ops" using Cons.prems(1) by simp_all
  note k = owner_call_clear [OF assms(1) op(1) Cons.prems(2,3) c1]
  have "site_ok c1" using owner_call_over_line [OF assms(1) op(1) Cons.prems(2) c1] site_ok_step op(1) Cons.prems(2) by blast
  from Cons.IH [OF op(2) this] k Cons.prems(4) c1 show ?case by (auto split: prod.splits)
qed simp

lemma owner_run_made: "owner_run ops w rs w' \<Longrightarrow> list_all (\<lambda>r. r \<noteq> None) rs \<Longrightarrow> w' = fold owned_after ops w"
  by (induction rule: owner_run.induct) (auto simp: owner_step_made)

section \<open>Properties\<close>

text \<open>C17: Grant and Revoke refine the machine of owners. Any run of grants and revokes of the owner
  entitlement, of any users and vendors in any order, without the response cache and over a line that loses requests and answers, is a run
  of the abstract machine that knows only who owns what: a call that succeeds had exactly its effect - a grant makes
  the user the owner of that vendor in place of the one before, a revoke clears the owner only where it is
  that user - and answers exactly the new grant, or the annotation that there was nothing to do exactly when
  that was so; a call that fails had its effect or none. While the line loses nothing every call succeeds, so the
  owners at the end are those of the operations one after the other.\<close>

theorem grant_and_revoke_refine_the_owners:
  assumes "tok \<noteq> []" "list_all owner_named ops" "site_ok c"
  shows "\<exists>rs c'. run_calls (owner_call (line_server sv) (static_client tok)) ops c = (rs, c')
    \<and> owner_run ops (vs_owner (cn_world c)) rs (vs_owner (cn_world c'))
    \<and> (line_clear (cn_world c) \<longrightarrow>
        list_all (\<lambda>r. r \<noteq> None) rs \<and> vs_owner (cn_world c') = fold owned_after ops (vs_owner (cn_world c)))"
proof -
  have "list_all (\<lambda>op. tok \<noteq> [] \<and> owner_named op) ops" using assms(1,2) by (simp add: list_all_iff)
  from line.run_law [OF this assms(3)] obtain rs c' where
    r: "run_calls (owner_call (line_server sv) (static_client tok)) ops c = (rs, c')"
    "owner_run ops (vs_owner (cn_world c)) rs (vs_owner (cn_world c'))" by blast
  from run_clear [OF assms _ r(1)] owner_run_made [OF r(2)] r show ?thesis by blast
qed

text \<open>Bob gets the vendor, carol takes it over, the revoke of bob finds nothing to do, carol's removes her.\<close>

definition owner_changes :: "owner_op list" where
  "owner_changes =
     [Assign (sample_user ''bob'') sample_entitlement, Assign (sample_user ''carol'') sample_entitlement,
      Remove (owner_grant sample_vendor ''bob''), Remove (owner_grant sample_vendor ''carol'')]"

theorem grant_and_revoke_refine_the_owners_witness:
  "\<forall>(sv :: vendor_site svc) x. \<exists>rs c'.
     run_calls (owner_call (line_server sv) (static_client ''secret'')) owner_changes
       \<lparr>cn_cache = x, cn_rate_limit = None, cn_world = \<lparr>vs_owner = (\<lambda>_. [])(''v1'' := ''alice''), vs_line = []\<rparr>\<rparr> = (rs, c')
     \<and> vs_owner (cn_world c') ''v1'' = [] \<and> list_all (\<lambda>r. r \<noteq> None) rs"
proof (intro allI)
  fix sv :: "vendor_site svc" and x
  let ?c = "\<lparr>cn_cache = x, cn_rate_limit = None, cn_world = \<lparr>vs_owner = (\<lambda>_. [])(''v1'' := ''alice''), vs_line = []\<rparr>\<rparr>"
  have "''secret'' \<noteq> []" "list_all owner_named owner_changes" "site_ok ?c"
    using sample_facts(1) by (simp_all add: owner_changes_def owner_named_def sample_facts valid_utf8_ascii site_ok_def)
  from grant_and_revoke_refine_the_owners [OF this, of sv]
  show "\<exists>rs c'. run_calls (owner_call (line_server sv) (static_client ''secret'')) owner_changes ?c = (rs, c')
     \<and> vs_owner (cn_world c') ''v1'' = [] \<and> list_all (\<lambda>r. r \<noteq> None) rs"
    by (auto simp: line_clear_def owner_changes_def sample_facts)
qed

end
