(* ===== verification/Owner_Interleaving.thy ===== *)
theory Owner_Interleaving
  imports Vendor_Claims
begin

text \<open>
  Concurrent calls on one cache of owners. The map is guarded by a mutex that a listing takes once to begin
  and once for each item, not for the whole call; so calls interleave at those steps. A call is the list of
  its locked steps, a step that writes to a nil map panics, and any number of calls run against each other
  in any order. A call that fails or stalls is one whose remaining steps are never taken.
\<close>

section \<open>Locked steps and their interleavings\<close>

datatype 'v cache_op = Begin string | Put string 'v

definition cache_op_step :: "'v cache_op \<Rightarrow> 'v owners \<Rightarrow> 'v owners option" where
  "cache_op_step op m =
     (case op of
        Begin t \<Rightarrow> Some (owners_begin t m)
      | Put k v \<Rightarrow> if owners_ready m then Some (owners_put k v m) else None)"

definition list_ops :: "string \<Rightarrow> (string \<times> 'v) list \<Rightarrow> 'v cache_op list" where
  "list_ops t items = Begin t # map (\<lambda>(k, v). Put k v) items"

inductive interleaved ::
    "'v cache_op list list \<Rightarrow> 'v owners \<Rightarrow> 'v cache_op list list \<Rightarrow> 'v owners \<Rightarrow> bool" for calls m where
  start: "interleaved calls m calls m"
| locked: "interleaved calls m pool m1 \<Longrightarrow> i < length pool \<Longrightarrow> pool ! i = op # ops \<Longrightarrow>
    cache_op_step op m1 = Some m2 \<Longrightarrow> interleaved calls m (pool[i := ops]) m2"

inductive_cases interleavedE: "interleaved calls m pool m'"

lemma cache_op_step_simps [simp]:
  "cache_op_step (Begin t) m = Some (owners_begin t m)"
  "cache_op_step (Put k v) m = (if owners_ready m then Some (owners_put k v m) else None)"
  by (simp_all add: cache_op_step_def)

lemma cache_op_step_ready: "cache_op_step op m = Some m' \<Longrightarrow> owners_ready m'"
  by (cases op) (auto simp: ow.ready_start ow.ready_put split: if_splits)

lemma cache_op_step_find:
  "cache_op_step op m = Some m' \<Longrightarrow> owners_find m' k = Some v \<Longrightarrow> owners_find m k = Some v \<or> op = Put k v"
  by (cases op) (auto simp: owners_begin_def ow.find_put split: if_splits)

lemma cache_op_step_keeps:
  "cache_op_step op m = Some m' \<Longrightarrow> op \<noteq> Begin [] \<Longrightarrow> owners_ready m \<Longrightarrow> owners_find m k \<noteq> None \<Longrightarrow> owners_find m' k \<noteq> None"
  by (cases op) (auto simp: ow.find_later ow.find_put)

text \<open>One call run alone is the page of the syncer.\<close>

definition run_ops :: "'v cache_op list \<Rightarrow> 'v owners \<Rightarrow> 'v owners option" where
  "run_ops ops m = fold (\<lambda>op r. Option.bind r (cache_op_step op)) ops (Some m)"

lemma run_puts:
  "owners_ready m \<Longrightarrow> fold (\<lambda>op r. Option.bind r (cache_op_step op)) (map (\<lambda>(k, v). Put k v) items) (Some m) =
     Some (ow.put_page items m)"
  by (induction items arbitrary: m) (auto simp: ow.put_page_def ow.ready_put)

lemma run_list_ops: "run_ops (list_ops t items) m = Some (ow.put_page items (owners_begin t m))"
  by (simp add: run_ops_def list_ops_def run_puts ow.ready_start)

lemma vendor_list_runs_its_ops:
  assumes "vendor_list sv cl t m c = ((Inr (rs, nx), an), m', c')"
  shows "\<exists>vs. rs = map (vendor_resource_of sv) vs \<and> run_ops (list_ops t (map vendor_entry vs)) m = Some m'"
proof -
  have "\<exists>resp :: vendors_response. vendor_page sv (vr_vendors resp) (owners_begin t m) = (Inr rs, m')"
    using assms by (auto simp: vendor_list_def Let_def split: sum.splits prod.splits)
  then obtain resp :: vendors_response where p: "vendor_page sv (vr_vendors resp) (owners_begin t m) = (Inr rs, m')" ..
  from vendor_page_ok [OF p] show ?thesis by (auto simp: run_list_ops)
qed

section \<open>What holds in every interleaving\<close>

definition calls_of :: "(string \<times> (string \<times> 'v) list) list \<Rightarrow> 'v cache_op list list" where
  "calls_of calls = map (\<lambda>(t, items). list_ops t items) calls"

lemma calls_of_nth: "i < length calls \<Longrightarrow> calls_of calls ! i = list_ops (fst (calls ! i)) (snd (calls ! i))"
  by (simp add: calls_of_def case_prod_beta)

lemma interleaved_ready:
  "interleaved calls m pool m' \<Longrightarrow> (pool = calls \<and> m' = m) \<or> owners_ready m'"
  by (induction rule: interleaved.induct) (auto dest: cache_op_step_ready)

text \<open>What is left of each call is a suffix of it, and the keys of what was done are in the map as long as
  nobody starts over.\<close>

lemma interleaved_suffix:
  "interleaved calls m pool m' \<Longrightarrow> length pool = length calls \<and> (\<forall>i < length calls. \<exists>us. calls ! i = us @ pool ! i)"
proof (induction rule: interleaved.induct)
  case (locked pool m1 i op ops m2)
  have "\<exists>us. calls ! j = us @ pool[i := ops] ! j" if "j < length calls" for j
  proof -
    from locked.IH that obtain us where us: "calls ! j = us @ pool ! j" by blast
    show ?thesis
    proof (cases "j = i")
      case True
      then have "calls ! j = (us @ [op]) @ pool[i := ops] ! j" using us locked(2,3) by simp
      then show ?thesis by blast
    qed (use us in auto)
  qed
  then show ?case using locked.IH by simp
qed simp

lemma interleaved_op:
  assumes "interleaved calls m pool m'" "i < length pool" "pool ! i = op # ops"
  shows "\<exists>call \<in> set calls. op \<in> set call"
proof -
  from interleaved_suffix [OF assms(1)] assms(2) obtain us where "calls ! i = us @ pool ! i" "i < length calls" by auto
  then have "op \<in> set (calls ! i)" "calls ! i \<in> set calls" using assms(3) by (simp, intro nth_mem)
  then show ?thesis by blast
qed

lemma interleaved_find:
  "interleaved calls m pool m' \<Longrightarrow> owners_find m' k = Some v \<Longrightarrow>
     owners_find m k = Some v \<or> (\<exists>call \<in> set calls. Put k v \<in> set call)"
proof (induction rule: interleaved.induct)
  case (locked pool m1 i op ops m2)
  from cache_op_step_find [OF locked(4,6)] locked(5) interleaved_op [OF locked(1-3)] show ?case by blast
qed simp

lemma interleaved_keeps:
  assumes "interleaved calls m pool m'" "owners_ready m" "\<forall>call \<in> set calls. Begin [] \<notin> set call"
  shows "owners_ready m' \<and> (\<forall>i < length calls. \<forall>k v. Put k v \<in> set (calls ! i) \<longrightarrow>
           (\<exists>w. Put k w \<in> set (pool ! i)) \<or> owners_find m' k \<noteq> None)"
  using assms
proof (induction rule: interleaved.induct)
  case start
  then show ?case by blast
next
  case (locked pool m1 i op ops m2)
  note IH = locked.IH [OF locked.prems]
  have ob: "op \<noteq> Begin []" using interleaved_op [OF locked(1-3)] locked.prems(2) by blast
  have keep: "owners_find m1 k \<noteq> None \<Longrightarrow> owners_find m2 k \<noteq> None" for k
    using cache_op_step_keeps [OF locked(4) ob] IH by blast
  have put: "op = Put k v \<Longrightarrow> owners_find m2 k \<noteq> None" for k v
    using locked(4) by (auto simp: ow.find_put split: if_splits)
  have "(\<exists>w. Put k w \<in> set (pool[i := ops] ! j)) \<or> owners_find m2 k \<noteq> None"
    if j: "j < length calls" "Put k v \<in> set (calls ! j)" for j k v
  proof (cases "j = i")
    case True
    then show ?thesis using IH j locked(2,3) keep put by (metis nth_list_update_eq set_ConsD)
  next
    case False
    then show ?thesis using IH j keep by (metis nth_list_update_neq)
  qed
  then show ?case using cache_op_step_ready [OF locked(4)] by blast
qed

text \<open>C16: However the locked steps of concurrent listings interleave, and wherever each of them stops: no step
  ever writes to a nil map; every owner the cache gives was there before or is one that some call listed for
  that very item; and when no call starts the listing over and all have ended, everything they listed is
  found.\<close>

theorem concurrent_listings_are_safe:
  assumes "interleaved (calls_of calls) m pool m'"
  shows "(\<forall>op ops. op # ops \<in> set pool \<longrightarrow> cache_op_step op m' \<noteq> None)
   \<and> (\<forall>k v. owners_find m' k = Some v \<longrightarrow> owners_find m k = Some v \<or> (\<exists>(t, items) \<in> set calls. (k, v) \<in> set items))
   \<and> (owners_ready m \<and> [] \<notin> fst ` set calls \<and> set pool \<subseteq> {[]} \<longrightarrow>
        (\<forall>(t, items) \<in> set calls. \<forall>k \<in> fst ` set items. owners_find m' k \<noteq> None))"
proof (intro conjI allI impI)
  have put: "Put k v \<in> set (list_ops t items) \<longleftrightarrow> (k, v) \<in> set items" for t :: string and items k and v :: 'a
    by (auto simp: list_ops_def)
  note r = interleaved_ready [OF assms]
  fix op ops assume op: "op # ops \<in> set pool"
  show "cache_op_step op m' \<noteq> None"
  proof (cases "owners_ready m'")
    case False
    then have "op # ops \<in> set (calls_of calls)" using r op by blast
    then show ?thesis by (auto simp: calls_of_def list_ops_def)
  qed (cases op, auto)
next
  fix k v assume "owners_find m' k = Some v"
  from interleaved_find [OF assms this]
  show "owners_find m k = Some v \<or> (\<exists>(t, items) \<in> set calls. (k, v) \<in> set items)"
    by (fastforce simp: calls_of_def list_ops_def)
next
  assume a: "owners_ready m \<and> [] \<notin> fst ` set calls \<and> set pool \<subseteq> {[]}"
  then have nb: "\<forall>call \<in> set (calls_of calls). Begin [] \<notin> set call"
    by (force simp: calls_of_def list_ops_def)
  have len: "length pool = length calls" "length (calls_of calls) = length calls"
    using interleaved_suffix [OF assms] by (simp_all add: calls_of_def)
  have "owners_find m' k \<noteq> None" if it: "(t, items) \<in> set calls" and kv: "(k, v) \<in> set items" for t items k v
  proof -
    from it obtain i where i: "i < length calls" "calls ! i = (t, items)" by (auto simp: in_set_conv_nth)
    have "Put k v \<in> set (calls_of calls ! i)" using kv by (auto simp: calls_of_nth [OF i(1)] i(2) list_ops_def)
    moreover have "pool ! i = []" using a i(1) len(1) nth_mem [of i pool] by (metis empty_iff insert_iff subsetD)
    moreover have "Put k v \<in> set (calls_of calls ! i) \<longrightarrow> (\<exists>w. Put k w \<in> set (pool ! i)) \<or> owners_find m' k \<noteq> None"
      using interleaved_keeps [OF assms _ nb] a i(1) len(2) by metis
    ultimately show ?thesis by simp
  qed
  then have "\<forall>call \<in> set calls. \<forall>kv \<in> set (snd call). owners_find m' (fst kv) \<noteq> None" by (metis prod.collapse)
  then show "\<forall>(t, items) \<in> set calls. \<forall>k \<in> fst ` set items. owners_find m' k \<noteq> None" by fastforce
qed

text \<open>Two later pages at once: both begin, then both store.\<close>

definition two_pages :: "(string \<times> (string \<times> string) list) list" where
  "two_pages = [(''p2'', [(''v1'', ''alice'')]), (''p3'', [(''v2'', ''bob'')])]"

lemma two_pages_run:
  "interleaved (calls_of two_pages) (Some Map.empty) [[], []] (Some [''v1'' \<mapsto> ''alice'', ''v2'' \<mapsto> ''bob''])"
proof -
  let ?m = "Some Map.empty :: string owners"
  have c: "calls_of two_pages = [[Begin ''p2'', Put ''v1'' ''alice''], [Begin ''p3'', Put ''v2'' ''bob'']]"
    by (simp add: calls_of_def two_pages_def list_ops_def)
  have b: "owners_begin t ?m = ?m" for t by (simp add: owners_begin_def)
  note step = interleaved.locked [where calls = "calls_of two_pages" and m = ?m]
  have 1: "interleaved (calls_of two_pages) ?m [[Put ''v1'' ''alice''], [Begin ''p3'', Put ''v2'' ''bob'']] ?m"
    using step [OF interleaved.start, of 0 "Begin ''p2''" "[Put ''v1'' ''alice'']" ?m] by (simp add: c b)
  have 2: "interleaved (calls_of two_pages) ?m [[Put ''v1'' ''alice''], [Put ''v2'' ''bob'']] ?m"
    using step [OF 1, of 1 "Begin ''p3''" "[Put ''v2'' ''bob'']" ?m] by (simp add: b)
  have 3: "interleaved (calls_of two_pages) ?m [[], [Put ''v2'' ''bob'']] (Some [''v1'' \<mapsto> ''alice''])"
    using step [OF 2, of 0 "Put ''v1'' ''alice''" "[]" "Some [''v1'' \<mapsto> ''alice'']"] by (simp add: owners_ready_def)
  show ?thesis
    using step [OF 3, of 1 "Put ''v2'' ''bob''" "[]" "Some [''v1'' \<mapsto> ''alice'', ''v2'' \<mapsto> ''bob'']"] by (simp add: owners_ready_def)
qed

theorem concurrent_listings_are_safe_witness:
  "interleaved (calls_of two_pages) (Some Map.empty) [[], []] (Some [''v1'' \<mapsto> ''alice'', ''v2'' \<mapsto> ''bob''])
   \<and> owners_find (Some [''v1'' \<mapsto> ''alice'', ''v2'' \<mapsto> ''bob'']) ''v1'' \<noteq> None"
proof -
  have "owners_ready (Some Map.empty :: string owners) \<and> [] \<notin> fst ` set two_pages \<and> set [[], []] \<subseteq> {[] :: string cache_op list}"
    by (simp add: owners_ready_def two_pages_def)
  with concurrent_listings_are_safe [OF two_pages_run]
  have "\<forall>(t, items) \<in> set two_pages. \<forall>k \<in> fst ` set items.
      owners_find (Some [''v1'' \<mapsto> ''alice'', ''v2'' \<mapsto> ''bob'']) k \<noteq> None" by blast
  then show ?thesis using two_pages_run by (simp add: two_pages_def)
qed

text \<open>A listing that starts over while another is under way takes away what that one stored; its grants are
  then fetched.\<close>

lemma restart_forgets:
  "\<exists>m'. interleaved (calls_of [([], [(''v1'', ''alice'')]), ([], [])]) no_owners [[], []] m' \<and> owners_find m' ''v1'' = None"
proof -
  let ?calls = "calls_of [([], [(''v1'', ''alice'')]), ([], [])]"
  note step = interleaved.locked [where calls = ?calls and m = no_owners]
  have 1: "interleaved ?calls no_owners [[Put ''v1'' ''alice''], [Begin []]] (Some Map.empty)"
    using step [OF interleaved.start, of 0 "Begin []" "[Put ''v1'' ''alice'']" "Some Map.empty"]
    by (simp add: calls_of_def list_ops_def owners_begin_def)
  have 2: "interleaved ?calls no_owners [[], [Begin []]] (Some [''v1'' \<mapsto> ''alice''])"
    using step [OF 1, of 0 "Put ''v1'' ''alice''" "[]" "Some [''v1'' \<mapsto> ''alice'']"] by (simp add: owners_ready_def)
  have "interleaved ?calls no_owners [[], []] (Some Map.empty)"
    using step [OF 2, of 1 "Begin []" "[]" "Some Map.empty"] by (simp add: owners_begin_def)
  then show ?thesis by (intro exI [of _ "Some Map.empty"]) simp
qed

end
