(* ===== verification/User_Claims.thy ===== *)
theory User_Claims
  imports Sample_Pages
begin

text \<open>
  Properties of the user and the role syncer and of account creation.
\<close>

section \<open>Users\<close>

text \<open>C21: A successful page of users has the resources of exactly the users the server listed, in order,
  and warns exactly when one of them has a role the table does not know: with the unknown roles in normal
  form, sorted and distinct, and the number of users that have one.\<close>

theorem user_list_exact:
  assumes "user_list sv cl t c = (((Inr (rs, nx), an), warning), c')"
  shows "\<exists>us rl. list_users sv cl t c = ((Inr \<lparr>ur_users = map Some us, ur_pagination = nx\<rparr>, rl), c')
    \<and> rs = map resource_of_user us \<and> an = with_rate_limiting [] rl
    \<and> (let unknown = filter (\<lambda>u. \<not> is_known_ramp_role (sv_unicode sv) (us_role u)) us in
        warning = (if unknown = [] then None
          else Some (sorted_keys ((\<lambda>u. normalize_ramp_role (sv_unicode sv) (us_role u)) ` set unknown), length unknown)))"
proof -
  let ?p0 = "\<lparr>up_resources = [], up_unknown = {}, up_unknown_count = 0\<rparr>"
  obtain resp rl p where l: "list_users sv cl t c = ((Inr resp, rl), c')"
    and p: "user_page_loop (sv_unicode sv) ?p0 (ur_users resp) = Inr p"
    and r: "rs = up_resources p" "nx = ur_pagination resp" "an = with_rate_limiting [] rl" "warning = unknown_role_warning p"
    using assms by (auto simp: user_list_def Let_def split: sum.splits prod.splits)
  have "None \<notin> set (ur_users resp)" using user_page_loop_nil [of "ur_users resp" "sv_unicode sv" ?p0] p by auto
  then obtain us where us: "ur_users resp = map Some us"
    by (metis ex_map_conv not_None_eq)
  let ?U = "sv_unicode sv"
  let ?unknown = "filter (\<lambda>u. \<not> is_known_ramp_role ?U (us_role u)) us"
  have e: "normalize_ramp_role ?U ` {u_role. u_role \<in> us_role ` set us \<and> \<not> is_known_ramp_role ?U u_role} =
      (\<lambda>u. normalize_ramp_role ?U (us_role u)) ` set ?unknown" by auto
  have "p = \<lparr>up_resources = map resource_of_user us, up_unknown = (\<lambda>u. normalize_ramp_role ?U (us_role u)) ` set ?unknown,
      up_unknown_count = length ?unknown\<rparr>"
    using p unfolding us user_page_loop_spec e by simp
  then have "warning = (if ?unknown = [] then None
      else Some (sorted_keys ((\<lambda>u. normalize_ramp_role ?U (us_role u)) ` set ?unknown), length ?unknown))"
    "rs = map resource_of_user us"
    using r by (simp_all add: unknown_role_warning_def del: set_filter)
  moreover have "resp = \<lparr>ur_users = map Some us, ur_pagination = nx\<rparr>" using us r(2) by (cases resp) simp
  ultimately show ?thesis using l r(3) by (auto simp: Let_def simp del: set_filter)
qed

text \<open>A user for the witnesses.\<close>

definition user_json :: "string \<Rightarrow> json" where
  "user_json r = JObj [(''id'', JStr ''u1''), (''email'', JStr ''ada''), (''role'', JStr r), (''status'', JStr ''USER_ACTIVE'')]"

definition sample_user_of :: "string \<Rightarrow> user" where
  "sample_user_of r = zero_user\<lparr>us_id := ''u1'', us_email := ''ada'', us_role := r, us_status := ''USER_ACTIVE''\<rparr>"

lemma user_json_facts:
  assumes "ascii r"
  shows "list_all wf_json [user_json r]" "list_all (\<lambda>j. depth j \<le> 3) [user_json r]"
    "decode_elems (elem_pointer decode_user zero_user) None [user_json r] [] = Some [Some (sample_user_of r)]"
proof -
  have k: "valid_utf8 ''id''" "valid_utf8 ''email''" "valid_utf8 ''role''" "valid_utf8 ''status''" "valid_utf8 ''u1''"
    "valid_utf8 ''ada''" "valid_utf8 ''USER_ACTIVE''"
    by (rule valid_utf8_ascii, simp)+
  show "list_all wf_json [user_json r]" using k valid_utf8_ascii [OF assms] by (simp add: user_json_def)
  show "list_all (\<lambda>j. depth j \<le> 3) [user_json r]" by (simp add: user_json_def)
  show "decode_elems (elem_pointer decode_user zero_user) None [user_json r] [] = Some [Some (sample_user_of r)]"
    by (simp add: user_json_def elem_pointer_def decode_user_def key_matches_ascii fold_rune_def sample_user_of_def zero_user_def)
qed

lemma sample_users_listed:
  assumes "ascii r"
  shows "list_users (page_server (page_json [user_json r]) sv) (static_client ''secret'') [] c =
    ((Inr \<lparr>ur_users = [Some (sample_user_of r)], ur_pagination = []\<rparr>, Some no_limits), c\<lparr>cn_rate_limit := None\<rparr>)"
  by (rule list_users_page [OF _ user_json_facts [OF assms]]) simp

theorem user_list_exact_witness:
  "\<forall>(sv :: unit svc) c. \<exists>warning us rl.
     user_list (page_server (page_json [user_json ''AUDITOR'']) sv) (static_client ''secret'') [] c =
       (((Inr ([resource_of_user (sample_user_of ''AUDITOR'')], []), [ARateLimit no_limits]), warning), c\<lparr>cn_rate_limit := None\<rparr>)
     \<and> list_users (page_server (page_json [user_json ''AUDITOR'']) sv) (static_client ''secret'') [] c =
       ((Inr \<lparr>ur_users = map Some us, ur_pagination = []\<rparr>, rl), c\<lparr>cn_rate_limit := None\<rparr>)
     \<and> [resource_of_user (sample_user_of ''AUDITOR'')] = map resource_of_user us"
proof (intro allI)
  fix sv :: "unit svc" and c
  let ?sv = "page_server (page_json [user_json ''AUDITOR'']) sv"
  have a: "ascii ''AUDITOR''" by simp
  obtain w where w: "user_list ?sv (static_client ''secret'') [] c =
      (((Inr ([resource_of_user (sample_user_of ''AUDITOR'')], []), [ARateLimit no_limits]), w), c\<lparr>cn_rate_limit := None\<rparr>)"
    by (simp add: user_list_def sample_users_listed [OF a] Let_def)
  from user_list_exact [OF w] obtain us rl where us: "list_users ?sv (static_client ''secret'') [] c =
      ((Inr \<lparr>ur_users = map Some us, ur_pagination = []\<rparr>, rl), c\<lparr>cn_rate_limit := None\<rparr>)"
    "[resource_of_user (sample_user_of ''AUDITOR'')] = map resource_of_user us"
    by (elim exE conjE) (rule that)
  show "\<exists>warning us rl. user_list ?sv (static_client ''secret'') [] c =
       (((Inr ([resource_of_user (sample_user_of ''AUDITOR'')], []), [ARateLimit no_limits]), warning), c\<lparr>cn_rate_limit := None\<rparr>)
     \<and> list_users ?sv (static_client ''secret'') [] c =
       ((Inr \<lparr>ur_users = map Some us, ur_pagination = []\<rparr>, rl), c\<lparr>cn_rate_limit := None\<rparr>)
     \<and> [resource_of_user (sample_user_of ''AUDITOR'')] = map resource_of_user us"
    by (intro exI conjI, rule w, rule us(1), rule us(2))
qed

section \<open>Roles\<close>

text \<open>Over the fixed table of roles, a user is a member of exactly one role when its role is known
  after trimming and upper-casing, and of none otherwise.\<close>

lemma one_role_per_known_user:
  "card {k \<in> set roles. role_page_grants U r (ro_id k) [Some u] \<noteq> Inr []} =
     (if is_known_ramp_role U (us_role u) then 1 else 0)"
proof -
  let ?n = "normalize_ramp_role U (us_role u)"
  have m: "{k \<in> set roles. role_page_grants U r (ro_id k) [Some u] \<noteq> Inr []} = {k \<in> set roles. ro_id k = ?n}" by auto
  show ?thesis
  proof (cases "is_known_ramp_role U (us_role u)")
    case True
    then obtain k where k: "k \<in> set roles" "ro_id k = ?n" by (auto simp: known_role_iff)
    have "{k \<in> set roles. ro_id k = ?n} = {k}"
      using k role_ids_distinct by (auto simp: distinct_map inj_on_def)
    with m True show ?thesis by simp
  next
    case False
    then have "ro_id k \<noteq> ?n" if "k \<in> set roles" for k using that unfolding known_role_iff by (metis imageI)
    then have "{k \<in> set roles. ro_id k = ?n} = {}" by auto
    with m False show ?thesis by simp
  qed
qed

text \<open>C12: For a role of the table, a successful page of grants has a membership for exactly those listed
  users whose role is that one in normal form, in order; the server is asked to filter exactly for the
  roles the API can filter by, which are those that are not unbundled.\<close>

theorem role_grants_exact:
  assumes "k \<in> set roles" "ri_resource (res_id r) = role_prefix @ ro_id k"
    and "role_grants sv cl r t c = ((Inr (gs, nx), an), c')"
  shows "\<exists>us rl. list_users_role sv cl t (if has_prefix (ro_id k) ''UNBUNDLED_'' then [] else ro_id k) c =
      ((Inr \<lparr>ur_users = map Some us, ur_pagination = nx\<rparr>, rl), c')
    \<and> gs = map (\<lambda>u. new_grant r member_entitlement (new_resource_id user_resource_type (us_id u)))
        (filter (\<lambda>u. normalize_ramp_role (sv_unicode sv) (us_role u) = ro_id k) us)
    \<and> an = with_rate_limiting [] rl"
proof -
  let ?U = "sv_unicode sv"
  have n: "normalize_ramp_role ?U (ro_id k) = ro_id k" using assms(1) by (rule role_ids_normal)
  have f: "can_filter_users_by_role ?U (ro_id k) \<longleftrightarrow> \<not> has_prefix (ro_id k) ''UNBUNDLED_''"
    unfolding can_filter_users_by_role_def n using assms(1) by (auto simp: roles_def has_prefix_def)
  obtain resp rl where l: "list_users_role sv cl t (if has_prefix (ro_id k) ''UNBUNDLED_'' then [] else ro_id k) c = ((Inr resp, rl), c')"
    and g: "role_page_grants ?U r (ro_id k) (ur_users resp) = Inr gs" "nx = ur_pagination resp" "an = with_rate_limiting [] rl"
    using assms(3)
    by (auto simp: role_grants_def assms(2) n f list_users_def list_users_by_role_def Let_def split: sum.splits prod.splits if_splits)
  have "None \<notin> set (ur_users resp)" using role_page_grants_nil [of "ur_users resp" ?U r "ro_id k"] g(1) by auto
  then obtain us where us: "ur_users resp = map Some us" by (metis ex_map_conv not_None_eq)
  with g(1) have "gs = map (\<lambda>u. new_grant r member_entitlement (new_resource_id user_resource_type (us_id u)))
        (filter (\<lambda>u. normalize_ramp_role ?U (us_role u) = ro_id k) us)" by (simp add: role_page_grants_spec)
  moreover have "resp = \<lparr>ur_users = map Some us, ur_pagination = nx\<rparr>" using us g(2) by (cases resp) simp
  ultimately show ?thesis using l g(3) by blast
qed
theorem role_grants_exact_witness:
  "\<forall>(sv :: unit svc) c. \<exists>us rl.
     list_users_role (page_server (page_json [user_json '' unbundled_user'']) sv) (static_client ''secret'') [] [] c =
       ((Inr \<lparr>ur_users = map Some us, ur_pagination = []\<rparr>, rl), c\<lparr>cn_rate_limit := None\<rparr>)
     \<and> length (filter (\<lambda>u. normalize_ramp_role (sv_unicode sv) (us_role u) = ''UNBUNDLED_USER'') us) = 1"
proof (intro allI)
  fix sv :: "unit svc" and c
  let ?sv = "page_server (page_json [user_json '' unbundled_user'']) sv"
  let ?k = "\<lparr>ro_id = ''UNBUNDLED_USER'', ro_name = ''Unbundled User''\<rparr>"
  let ?r = "\<lparr>res_id = \<lparr>ri_type = ''role'', ri_resource = role_prefix @ ro_id ?k\<rparr>, res_display_name = [],
     res_external_id = None, res_status = None, res_annotations = []\<rparr>"
  let ?g = "new_grant ?r member_entitlement (new_resource_id user_resource_type (us_id (sample_user_of '' unbundled_user'')))"
  have a: "ascii '' unbundled_user''" "ascii ''UNBUNDLED_USER''" by simp_all
  have k: "?k \<in> set roles" by (simp add: roles_def)
  have n: "normalize_ramp_role U '' unbundled_user'' = ''UNBUNDLED_USER''" for U
    by (simp add: normalize_ascii is_space_def upper_byte_def) code_simp
  have nk: "normalize_ramp_role U ''UNBUNDLED_USER'' = ''UNBUNDLED_USER''" for U using role_ids_normal [OF k] by simp
  have f: "\<not> can_filter_users_by_role U ''UNBUNDLED_USER''" for U unfolding can_filter_users_by_role_def nk by simp
  have ro: "us_role (sample_user_of '' unbundled_user'') = '' unbundled_user''" by (simp add: sample_user_of_def)
  have run: "role_grants ?sv (static_client ''secret'') ?r [] c = ((Inr ([?g], []), [ARateLimit no_limits]), c\<lparr>cn_rate_limit := None\<rparr>)"
    by (simp add: role_grants_def Let_def nk f sample_users_listed [OF a(1)] ro n)
  have pre: "has_prefix ''UNBUNDLED_USER'' ''UNBUNDLED_''" by (simp add: has_prefix_def)
  have un: "sv_unicode ?sv = sv_unicode sv" by (simp add: page_server_def)
  obtain us rl where us: "list_users_role ?sv (static_client ''secret'') [] [] c =
      ((Inr \<lparr>ur_users = map Some us, ur_pagination = []\<rparr>, rl), c\<lparr>cn_rate_limit := None\<rparr>)"
    "[?g] = map (\<lambda>u. new_grant ?r member_entitlement (new_resource_id user_resource_type (us_id u)))
        (filter (\<lambda>u. normalize_ramp_role (sv_unicode sv) (us_role u) = ''UNBUNDLED_USER'') us)"
    using role_grants_exact [OF k _ run] by (auto simp: pre un)
  have one: "length (filter (\<lambda>u. normalize_ramp_role (sv_unicode sv) (us_role u) = ''UNBUNDLED_USER'') us) = 1"
    using arg_cong [OF us(2), of length] by simp
  show "\<exists>us rl. list_users_role ?sv (static_client ''secret'') [] [] c =
       ((Inr \<lparr>ur_users = map Some us, ur_pagination = []\<rparr>, rl), c\<lparr>cn_rate_limit := None\<rparr>)
     \<and> length (filter (\<lambda>u. normalize_ramp_role (sv_unicode sv) (us_role u) = ''UNBUNDLED_USER'') us) = 1"
    by (intro exI conjI, rule us(1), rule one)
qed

section \<open>Account creation\<close>

definition profile_ok :: "proto_fields \<Rightarrow> bool" where
  "profile_ok fs =
     ((\<forall>k\<in>{''email'', ''first_name'', ''last_name''}. \<exists>s. map_of fs k = Some (VString s) \<and> s \<noteq> [])
      \<and> (\<exists>r\<in>set valid_create_roles. map_of fs ''role'' = Some (VString r)))"

lemma profile_ok_request: "profile_ok fs \<longleftrightarrow> (\<exists>req. profile_request fs = Inr req)"
proof
  assume "profile_ok fs"
  then obtain e f l r where "map_of fs ''email'' = Some (VString e)" "e \<noteq> []" "map_of fs ''first_name'' = Some (VString f)" "f \<noteq> []"
    "map_of fs ''last_name'' = Some (VString l)" "l \<noteq> []" "map_of fs ''role'' = Some (VString r)" "r \<in> set valid_create_roles"
    by (auto simp: profile_ok_def)
  then have "profile_request fs = Inr \<lparr>cu_email = e, cu_first_name = f, cu_last_name = l, cu_role = r, cu_idempotency_key = []\<rparr>"
    unfolding profile_request_Inr by simp
  then show "\<exists>req. profile_request fs = Inr req" ..
qed (auto simp: profile_ok_def profile_request_Inr)

lemma profile_request_code: "profile_request fs = Inl e \<Longrightarrow> status_code e = InvalidArgument"
  by (auto simp: profile_request_def required_error_def invalid_role_error_def status_code_def
      dest!: required_field_Inl split: sum.splits if_splits)

text \<open>C22: A profile without an email, a first or a last name, or without one of the six roles the API
  accepts, is refused with the status InvalidArgument; no request is made and nothing changes.\<close>

theorem incomplete_profile_sends_nothing:
  assumes "\<not> profile_ok fs"
  shows "\<exists>e. create_account sv cl fs c = ((Inl e, []), c) \<and> status_code e = InvalidArgument"
proof -
  obtain e where "profile_request fs = Inl e"
    using assms unfolding profile_ok_request by (cases "profile_request fs") auto
  with profile_request_code show ?thesis by (auto simp: create_account_def)
qed

theorem incomplete_profile_sends_nothing_witness:
  "\<forall>(sv :: unit svc) cl c. \<exists>e.
     create_account sv cl [(''email'', VString ''ada''), (''role'', VString ''BUSINESS_OWNER'')] c = ((Inl e, []), c)
     \<and> status_code e = InvalidArgument"
  by (intro allI incomplete_profile_sends_nothing) (simp add: profile_ok_def)

text \<open>C10: When an account creation ends well, the profile was complete and the lookup by email came first.
  Either it found a user with that email up to case, and the answer is that user's resource and nothing
  more was sent; or it found nobody or answered NotFound, and the answer names the task of the one
  creation request that followed.\<close>

theorem create_account_outcome:
  assumes "create_account sv cl fs c = ((Inr res, an), c')"
  shows "\<exists>req q rl c1. profile_request fs = Inr req \<and> find_user_by_email sv cl (cu_email req) c = ((q, rl), c1)
    \<and> (case res of
         AlreadyExistsResult r \<Rightarrow> c' = c1 \<and> (\<exists>u. q = Inr (Some u) \<and> r = resource_of_user u
            \<and> equal_fold (sv_unicode sv) (us_email u) (cu_email req))
       | ActionRequiredResult m \<Rightarrow> (q = Inr None \<or> (\<exists>e. q = Inl e \<and> status_code e = NotFound))
            \<and> (\<exists>task rl2. create_user sv cl req c1 = ((Inr task, rl2), c') \<and> m = invite_message (dt_id task)))"
proof -
  have fold: "equal_fold U (us_email u) e" if "first_with_email U e us = Inr (Some u)" for U e us u
    using that by (induction U e us rule: first_with_email.induct) (auto split: if_splits)
  have found: "equal_fold (sv_unicode sv) (us_email u) em" if "find_user_by_email sv cl em c = ((Inr (Some u), rl), c1)" for em u rl c1
    using that fold by (auto simp: find_user_by_email_def Let_def split: sum.splits option.splits prod.splits)
  obtain req where req: "profile_request fs = Inr req"
    using assms by (cases "profile_request fs") (auto simp: create_account_def)
  obtain q rl c1 where q: "find_user_by_email sv cl (cu_email req) c = ((q, rl), c1)" by (metis prod.exhaust)
  show ?thesis
    by (rule exI [of _ req], rule exI [of _ q], rule exI [of _ rl], rule exI [of _ c1])
      (use assms found [of "cu_email req"] q in \<open>auto simp: req create_account_def Let_def
        split: sum.splits option.splits prod.splits if_splits\<close>)
qed
definition sample_profile :: proto_fields where
  "sample_profile = [(''email'', VString ''ada''), (''first_name'', VString ''Ada''), (''last_name'', VString ''L''),
     (''role'', VString ''AUDITOR'')]"

theorem create_account_outcome_witness:
  "\<forall>(sv :: unit svc) c. \<exists>req q rl c1.
     create_account (page_server (page_json [user_json ''AUDITOR'']) sv) (static_client ''secret'') sample_profile c =
       ((Inr (AlreadyExistsResult (resource_of_user (sample_user_of ''AUDITOR''))), [ARateLimit no_limits]), c\<lparr>cn_rate_limit := None\<rparr>)
     \<and> profile_request sample_profile = Inr req
     \<and> find_user_by_email (page_server (page_json [user_json ''AUDITOR'']) sv) (static_client ''secret'') (cu_email req) c =
       ((q, rl), c1) \<and> q \<noteq> Inr None"
proof (intro allI)
  fix sv :: "unit svc" and c
  let ?sv = "page_server (page_json [user_json ''AUDITOR'']) sv"
  let ?req = "\<lparr>cu_email = ''ada'', cu_first_name = ''Ada'', cu_last_name = ''L'', cu_role = ''AUDITOR'', cu_idempotency_key = []\<rparr>"
  have req: "profile_request sample_profile = Inr ?req"
    by (simp add: profile_request_Inr sample_profile_def valid_create_roles_def)
  have e: "us_email (sample_user_of ''AUDITOR'') = ''ada''" by (simp add: sample_user_of_def)
  have f: "find_user_by_email ?sv (static_client ''secret'') ''ada'' c =
      ((Inr (Some (sample_user_of ''AUDITOR'')), Some no_limits), c\<lparr>cn_rate_limit := None\<rparr>)"
    using find_user_by_email_page [OF _ user_json_facts, of "''secret''" "''AUDITOR''" sv c] e by simp
  have run: "create_account ?sv (static_client ''secret'') sample_profile c =
      ((Inr (AlreadyExistsResult (resource_of_user (sample_user_of ''AUDITOR''))), [ARateLimit no_limits]), c\<lparr>cn_rate_limit := None\<rparr>)"
    by (simp add: create_account_def req f)
  obtain rq q rl c1 where o: "profile_request sample_profile = Inr rq"
    "find_user_by_email ?sv (static_client ''secret'') (cu_email rq) c = ((q, rl), c1)" "\<exists>u. q = Inr (Some u)"
    using create_account_outcome [OF run] by auto
  have n: "q \<noteq> Inr None" using o(3) by auto
  show "\<exists>req q rl c1. create_account ?sv (static_client ''secret'') sample_profile c =
       ((Inr (AlreadyExistsResult (resource_of_user (sample_user_of ''AUDITOR''))), [ARateLimit no_limits]), c\<lparr>cn_rate_limit := None\<rparr>)
     \<and> profile_request sample_profile = Inr req
     \<and> find_user_by_email ?sv (static_client ''secret'') (cu_email req) c = ((q, rl), c1) \<and> q \<noteq> Inr None"
    by (intro exI conjI, rule run, rule o(1), rule o(2), rule n)
qed

section \<open>The lookup and the cache\<close>

lemma round_trip_any_cache:
  "round_trip sv ss ctx rq (c\<lparr>cn_cache := x\<rparr>) =
     (case round_trip sv ss ctx rq c of (r, c') \<Rightarrow> (r, c'\<lparr>cn_cache := x\<rparr>))"
proof (cases "for_class ss (scope_class_from ctx) (cn_world c)")
  case (Pair r w)
  show ?thesis
  proof (cases r)
    case (Inr tok)
    let ?rq = "rq\<lparr>rq_headers := header_set ''Authorization'' (''Bearer '' @ tok) (rq_headers rq)\<rparr>"
    show ?thesis
      by (cases "sv_send sv ?rq w"; cases "fst (sv_send sv ?rq w)") (simp_all add: round_trip_def Let_def Pair Inr)
  qed (simp add: round_trip_def Let_def Pair)
qed

lemma finish_do_any_cache:
  "fst (finish_do sv rq u dec a resp (c\<lparr>cn_cache := x\<rparr>)) = fst (finish_do sv rq u dec a resp c)"
  "cn_world (snd (finish_do sv rq u dec a resp (c\<lparr>cn_cache := x\<rparr>))) = cn_world (snd (finish_do sv rq u dec a resp c))"
  by (auto simp: finish_do_def split: prod.splits)

lemma no_cache_request: "header_get (rq_headers (build_request meth u body True)) ''Cache-Control'' = ''no-cache''"
  by (simp add: build_request_def header_get_def header_set_def)

lemma do_query_any_cache:
  "fst (do_query sv cl ctx meth s body dec a True (c\<lparr>cn_cache := x\<rparr>)) = fst (do_query sv cl ctx meth s body dec a True c)
   \<and> cn_world (snd (do_query sv cl ctx meth s body dec a True (c\<lparr>cn_cache := x\<rparr>))) =
       cn_world (snd (do_query sv cl ctx meth s body dec a True c))"
proof (cases "Option.bind (url_parse s) (\<lambda>u. url_parse (url_string u))")
  case None
  then show ?thesis by (auto simp: do_query_def split: option.splits)
next
  case (Some u)
  let ?rq = "build_request meth u body True"
  have "fst (http_do sv (cl_sources cl) ctx ?rq u dec a (c\<lparr>cn_cache := x\<rparr>)) = fst (http_do sv (cl_sources cl) ctx ?rq u dec a c)
    \<and> cn_world (snd (http_do sv (cl_sources cl) ctx ?rq u dec a (c\<lparr>cn_cache := x\<rparr>))) =
        cn_world (snd (http_do sv (cl_sources cl) ctx ?rq u dec a c))"
    by (cases "round_trip sv (cl_sources cl) ctx ?rq c"; cases "fst (round_trip sv (cl_sources cl) ctx ?rq c)")
      (simp_all add: http_do_miss no_cache_request round_trip_any_cache finish_do_any_cache)
  moreover obtain u0 where "url_parse s = Some u0" "url_parse (url_string u0) = Some u"
    using Some by (auto simp: bind_eq_Some_conv)
  ultimately show ?thesis
    by (cases "http_do sv (cl_sources cl) ctx ?rq u dec a (c\<lparr>cn_cache := x\<rparr>)"; cases "http_do sv (cl_sources cl) ctx ?rq u dec a c")
      (simp add: do_query_def split: prod.split sum.split)
qed

text \<open>The lookup of an existing user does not depend on remembered answers: with any two caches it
  sends the same requests and gives the same user, error and rate limit.\<close>

lemma lookup_ignores_the_cache:
  "fst (find_user_by_email sv cl email (c\<lparr>cn_cache := x\<rparr>)) = fst (find_user_by_email sv cl email c)
   \<and> cn_world (snd (find_user_by_email sv cl email (c\<lparr>cn_cache := x\<rparr>))) = cn_world (snd (find_user_by_email sv cl email c))"
proof (cases "new_unpaginated_url cl users_endpoint")
  case (Inr s)
  let ?q = "\<lambda>u. query_uncached sv cl None method_get u (Some decode_users_list) zero_users_list"
  have "fst (?q u (c\<lparr>cn_cache := x\<rparr>)) = fst (?q u c) \<and> cn_world (snd (?q u (c\<lparr>cn_cache := x\<rparr>))) = cn_world (snd (?q u c))" for u
    unfolding query_uncached_def by (rule do_query_any_cache)
  note same = this
  show ?thesis
  proof (cases "url_parse s")
    case (Some pu)
    let ?u = "url_string (pu\<lparr>u_raw_query := values_encode (values_set (url_query pu) ''email'' email)\<rparr>)"
    show ?thesis using same [of ?u]
      by (cases "?q ?u (c\<lparr>cn_cache := x\<rparr>)"; cases "?q ?u c")
        (simp add: find_user_by_email_def Inr Some Let_def split: prod.split sum.split)
  qed (simp add: find_user_by_email_def Inr)
qed (simp add: find_user_by_email_def)

end
