(* ===== verification/Client_Claims.thy ===== *)
theory Client_Claims
  imports Sample_Pages
begin

text \<open>
  Properties of the client: which token a request uses and what a refused token does to it, what the
  messages of token failures may depend on, how the status of an answer becomes the status of an error,
  the cache of answers, the list parameters and the conversion of amounts.
\<close>

section \<open>Paths that make a URL\<close>

definition good_path :: "'w client \<Rightarrow> string \<Rightarrow> bool" where
  "good_path cl p =
     (case new_unpaginated_url cl p of Inl _ \<Rightarrow> False
      | Inr s \<Rightarrow> (case url_parse s of None \<Rightarrow> False | Some u \<Rightarrow> url_parse (url_string u) \<noteq> None))"

lemma good_pathE:
  assumes "good_path cl p"
  obtains s u0 u where "new_unpaginated_url cl p = Inr s" "url_parse s = Some u0" "url_parse (url_string u0) = Some u"
  using assms by (auto simp: good_path_def split: sum.splits option.splits)

lemma good_path_plain: "plain_rest p \<Longrightarrow> good_path (static_client tok) p"
  by (simp add: good_path_def new_unpaginated_url_plain api_url_parse api_url_string)

section \<open>Refused tokens\<close>

lemma wrap_request_error_known:
  "status_code e \<noteq> Unknown \<Longrightarrow> status_code (wrap_request_error sv w (UrlError m u e)) = status_code e"
  by (simp add: wrap_request_error_def without_request_url_def Let_def)

lemma do_query_refused:
  assumes "url_parse s = Some u0" "url_parse (url_string u0) = Some u" "meth \<noteq> method_get"
    and "for_class (cl_sources cl) (scope_class_from ctx) (cn_world c) = (Inl e, w)"
  shows "do_query sv cl ctx meth s body dec a nc c =
    ((Inl (Wrap [S ''failed to execute request '', S (url_string u0), S '': '']
        (wrap_request_error sv w (UrlError (url_error_op meth) (url_string u)
          (classify_token_error e (scope_class_from ctx) (ts_read_scopes (cl_sources cl))))) []), Some empty_rate_limit),
     c\<lparr>cn_rate_limit := None, cn_world := w\<rparr>)"
  using assms by (simp add: do_query_def http_do_miss round_trip_def Let_def build_request_def)

text \<open>C23: Without the scope \<open>vendors:write\<close> an owner is not written: the token source for that scope is
  the one that is asked, nothing is sent, and the error has the status FailedPrecondition.\<close>

theorem owner_write_needs_its_scope:
  assumes "good_path cl (vendors_path @ ''/'' @ v)" "ts_vendors_write (cl_sources cl) = Some src"
    and "src (cn_world c) = (Inl (Retrieve r), w)" "re_code r = ''invalid_scope''"
  shows "\<exists>e. update_vendor_owner sv cl v x c =
      ((Inl e, Some empty_rate_limit), c\<lparr>cn_rate_limit := None, cn_world := w\<rparr>) \<and> status_code e = FailedPrecondition"
proof -
  obtain s u0 u where u: "new_unpaginated_url cl (vendors_path @ ''/'' @ v) = Inr s" "url_parse s = Some u0"
    "url_parse (url_string u0) = Some u" using good_pathE [OF assms(1)] by metis
  have f: "for_class (cl_sources cl) (scope_class_from (with_scope_class None ScopeVendorsWrite)) (cn_world c) =
      (Inl (Retrieve r), w)"
    using assms(2,3) by (simp add: for_class_def scope_class_from_def with_scope_class_def)
  have st: "status_code (classify_token_error (Retrieve r) k ss) = FailedPrecondition" for k ss
    using assms(4) by (simp add: classify_token_error_status)
  note q = do_query_refused [OF u(2,3) patch_not_get f]
  show ?thesis
    unfolding update_vendor_owner_def u(1) sum.case query_with_body_def q
    by (simp add: wrap_reply_def wrap_request_error_known st)
qed

definition scope_refused :: retrieve_error where
  "scope_refused = \<lparr>re_response = None, re_body = [], re_code = ''invalid_scope'', re_description = [], re_uri = []\<rparr>"

definition read_only_client :: "'w client" where
  "read_only_client = (static_client ''secret'')
     \<lparr>cl_sources := \<lparr>ts_read = static_token ''secret'', ts_users_write = Some (\<lambda>w. (Inl (Retrieve scope_refused), w)),
        ts_vendors_write = Some (\<lambda>w. (Inl (Retrieve scope_refused), w)), ts_read_scopes = []\<rparr>\<rparr>"

lemma read_only_paths: "plain_rest p \<Longrightarrow> good_path read_only_client p"
  using good_path_plain [of p "''secret''"] by (simp add: good_path_def new_unpaginated_url_def read_only_client_def)

theorem owner_write_needs_its_scope_witness:
  "\<forall>(sv :: unit svc) c. \<exists>e. update_vendor_owner sv read_only_client ''v1'' ''alice'' c =
      ((Inl e, Some empty_rate_limit), c\<lparr>cn_rate_limit := None\<rparr>) \<and> status_code e = FailedPrecondition"
proof (intro allI)
  fix sv :: "unit svc" and c :: "unit conn"
  have p: "good_path read_only_client (vendors_path @ ''/'' @ ''v1'')"
    by (rule read_only_paths) (simp add: plain_rest_def vendors_path_def plain_char_def is_alnum_def)
  have "ts_vendors_write (cl_sources read_only_client) = Some (\<lambda>w. (Inl (Retrieve scope_refused), w))"
    by (simp add: read_only_client_def)
  from owner_write_needs_its_scope [OF p this refl] show "\<exists>e. update_vendor_owner sv read_only_client ''v1'' ''alice'' c =
      ((Inl e, Some empty_rate_limit), c\<lparr>cn_rate_limit := None\<rparr>) \<and> status_code e = FailedPrecondition"
    by (simp add: scope_refused_def)
qed

text \<open>The same for users: deactivation, reactivation and creation ask the source for the scope
  \<open>users:write\<close>, send nothing when it is refused, and fail with the status FailedPrecondition.\<close>

lemma user_writes_need_their_scope:
  assumes "good_path cl (users_endpoint @ ''/'' @ i @ ''/deactivate'')" "good_path cl (users_endpoint @ ''/'' @ i @ ''/reactivate'')"
    and "good_path cl users_deferred_endpoint" "ts_users_write (cl_sources cl) = Some (\<lambda>w. (Inl (Retrieve r), w))"
    and "re_code r = ''invalid_scope''" "cu_idempotency_key req \<noteq> []"
  shows "\<exists>e1 e2 e3. deactivate_user sv cl i c = ((Inl e1, Some empty_rate_limit), c\<lparr>cn_rate_limit := None\<rparr>)
    \<and> reactivate_user sv cl i c = ((Inl e2, Some empty_rate_limit), c\<lparr>cn_rate_limit := None\<rparr>)
    \<and> create_user sv cl req c = ((Inl e3, Some empty_rate_limit), c\<lparr>cn_rate_limit := None\<rparr>)
    \<and> status_code e1 = FailedPrecondition \<and> status_code e2 = FailedPrecondition \<and> status_code e3 = FailedPrecondition"
proof -
  have f: "for_class (cl_sources cl) (scope_class_from (with_scope_class None ScopeUsersWrite)) (cn_world c) =
      (Inl (Retrieve r), cn_world c)"
    using assms(4) by (simp add: for_class_def scope_class_from_def with_scope_class_def)
  have st: "status_code (classify_token_error (Retrieve r) k ss) = FailedPrecondition" for k ss
    using assms(5) by (simp add: classify_token_error_status)
  have same: "c\<lparr>cn_rate_limit := None, cn_world := cn_world c\<rparr> = c\<lparr>cn_rate_limit := None\<rparr>" by simp
  have change: "\<exists>e. user_state_change verb doing sv cl i c = ((Inl e, Some empty_rate_limit), c\<lparr>cn_rate_limit := None\<rparr>)
      \<and> status_code e = FailedPrecondition" if gp: "good_path cl (users_endpoint @ ''/'' @ i @ ''/'' @ verb)" for verb doing
  proof -
    obtain s u0 u where u: "new_unpaginated_url cl (users_endpoint @ ''/'' @ i @ ''/'' @ verb) = Inr s" "url_parse s = Some u0"
      "url_parse (url_string u0) = Some u" using good_pathE [OF gp] by metis
    show ?thesis
      unfolding user_state_change_def u(1) sum.case query_def do_query_refused [OF u(2,3) patch_not_get f] same
      by (simp add: wrap_reply_def wrap_request_error_known st)
  qed
  obtain s u0 u where u: "new_unpaginated_url cl users_deferred_endpoint = Inr s" "url_parse s = Some u0"
    "url_parse (url_string u0) = Some u" using good_pathE [OF assms(3)] by metis
  have post: "method_post \<noteq> method_get" by (simp add: method_post_def method_get_def)
  have "\<exists>e. create_user sv cl req c = ((Inl e, Some empty_rate_limit), c\<lparr>cn_rate_limit := None\<rparr>) \<and> status_code e = FailedPrecondition"
    using assms(6)
    by (simp add: create_user_def Let_def u(1) query_with_body_def wrap_reply_def do_query_refused [OF u(2,3) post f] same
        wrap_request_error_known st)
  with change [of "''deactivate''" "''deactivating''"] change [of "''reactivate''" "''reactivating''"] assms(1,2) show ?thesis
    unfolding deactivate_user_def reactivate_user_def by auto
qed
lemma user_writes_need_their_scope_witness:
  "\<forall>(sv :: unit svc) c. \<exists>e1 e2 e3.
     deactivate_user sv read_only_client ''u1'' c = ((Inl e1, Some empty_rate_limit), c\<lparr>cn_rate_limit := None\<rparr>)
     \<and> reactivate_user sv read_only_client ''u1'' c = ((Inl e2, Some empty_rate_limit), c\<lparr>cn_rate_limit := None\<rparr>)
     \<and> create_user sv read_only_client \<lparr>cu_email = ''ada'', cu_first_name = [], cu_last_name = [], cu_role = [],
          cu_idempotency_key = ''k''\<rparr> c = ((Inl e3, Some empty_rate_limit), c\<lparr>cn_rate_limit := None\<rparr>)
     \<and> status_code e1 = FailedPrecondition \<and> status_code e2 = FailedPrecondition \<and> status_code e3 = FailedPrecondition"
proof (intro allI)
  fix sv :: "unit svc" and c :: "unit conn"
  have p: "good_path read_only_client (users_endpoint @ ''/'' @ ''u1'' @ ''/deactivate'')"
    "good_path read_only_client (users_endpoint @ ''/'' @ ''u1'' @ ''/reactivate'')" "good_path read_only_client users_deferred_endpoint"
    by (rule read_only_paths, simp add: plain_rest_def users_endpoint_def users_deferred_endpoint_def plain_char_def is_alnum_def)+
  have src: "ts_users_write (cl_sources read_only_client) = Some (\<lambda>w. (Inl (Retrieve scope_refused), w))"
    by (simp add: read_only_client_def)
  show "\<exists>e1 e2 e3.
     deactivate_user sv read_only_client ''u1'' c = ((Inl e1, Some empty_rate_limit), c\<lparr>cn_rate_limit := None\<rparr>)
     \<and> reactivate_user sv read_only_client ''u1'' c = ((Inl e2, Some empty_rate_limit), c\<lparr>cn_rate_limit := None\<rparr>)
     \<and> create_user sv read_only_client \<lparr>cu_email = ''ada'', cu_first_name = [], cu_last_name = [], cu_role = [],
          cu_idempotency_key = ''k''\<rparr> c = ((Inl e3, Some empty_rate_limit), c\<lparr>cn_rate_limit := None\<rparr>)
     \<and> status_code e1 = FailedPrecondition \<and> status_code e2 = FailedPrecondition \<and> status_code e3 = FailedPrecondition"
    by (rule user_writes_need_their_scope [OF p src]) (simp_all add: scope_refused_def)
qed

definition with_write_sources :: "'w client \<Rightarrow> 'w token_source option \<Rightarrow> 'w token_source option \<Rightarrow> 'w client" where
  "with_write_sources cl x y = cl\<lparr>cl_sources := (cl_sources cl)\<lparr>ts_users_write := x, ts_vendors_write := y\<rparr>\<rparr>"

lemma http_do_read_only:
  "http_do sv (cl_sources (with_write_sources cl x y)) None = http_do sv (cl_sources cl) None"
proof -
  have r: "round_trip sv (cl_sources (with_write_sources cl x y)) None = round_trip sv (cl_sources cl) None"
  proof -
    have k: "scope_class_from None = ScopeRead" by (simp add: scope_class_from_def)
    have f: "for_class (cl_sources (with_write_sources cl x y)) ScopeRead = for_class (cl_sources cl) ScopeRead"
      "ts_read_scopes (cl_sources (with_write_sources cl x y)) = ts_read_scopes (cl_sources cl)"
      by (simp_all add: for_class_def with_write_sources_def)
    show ?thesis by (intro ext) (simp only: round_trip_def k f Let_def)
  qed
  show ?thesis by (intro ext) (simp only: http_do_def r)
qed

lemma read_only_simps:
  "do_query sv (with_write_sources cl x y) None = do_query sv cl None"
  "page_url (with_write_sources cl x y) = page_url cl"
  "new_unpaginated_url (with_write_sources cl x y) = new_unpaginated_url cl"
  by (intro ext, simp only: do_query_def http_do_read_only)
    (intro ext, simp add: page_url_def new_unpaginated_url_def with_write_sources_def)+

text \<open>Reading never depends on the sources of the write scopes: with any others, every read of the
  client sends the same requests with the same token and gives the same answer.\<close>

lemma reads_ignore_write_sources:
  "list_users_role sv (with_write_sources cl x y) p r c = list_users_role sv cl p r c"
  "find_user_by_email sv (with_write_sources cl x y) p c = find_user_by_email sv cl p c"
  "list_vendors sv (with_write_sources cl x y) p c = list_vendors sv cl p c"
  "get_vendor sv (with_write_sources cl x y) p c = get_vendor sv cl p c"
  "list_vendor_agreements sv (with_write_sources cl x y) q p c = list_vendor_agreements sv cl q p c"
  "get_vendor_agreement sv (with_write_sources cl x y) p c = get_vendor_agreement sv cl p c"
  "list_audit_log_events sv (with_write_sources cl x y) n p c = list_audit_log_events sv cl n p c"
  unfolding list_users_role_def find_user_by_email_def list_vendors_def get_vendor_def list_vendor_agreements_def
    get_vendor_agreement_def list_audit_log_events_def query_def query_uncached_def query_with_body_def read_only_simps
  by (rule refl)+

section \<open>Messages\<close>

text \<open>C33: The message of a classified token failure depends on the error code and the status of the token
  endpoint's answer only: not on its body, its description or its error URI.\<close>

theorem token_error_text_hides_the_body:
  assumes "find_retrieve e = Some r" "find_retrieve f = Some s" "same_public_part r s"
  shows "error_text (classify_token_error e class scopes) = error_text (classify_token_error f class scopes)"
  using assms by (rule classify_text_public)

theorem token_error_text_hides_the_body_witness:
  "\<forall>body desc. error_text (classify_token_error (Retrieve scope_refused) ScopeRead [''users:read'']) =
     error_text (classify_token_error (Retrieve (scope_refused\<lparr>re_body := body, re_description := desc\<rparr>)) ScopeRead [''users:read''])"
proof (intro allI)
  fix body desc
  show "error_text (classify_token_error (Retrieve scope_refused) ScopeRead [''users:read'']) =
     error_text (classify_token_error (Retrieve (scope_refused\<lparr>re_body := body, re_description := desc\<rparr>)) ScopeRead [''users:read''])"
    by (rule token_error_text_hides_the_body [where r = scope_refused and s = "scope_refused\<lparr>re_body := body, re_description := desc\<rparr>"])
      (simp_all add: same_public_part_def)
qed

lemma truncated_something: "p \<noteq> [] \<Longrightarrow> truncate_error_param p \<noteq> []"
  by (simp add: truncate_error_param_def)

lemma described: "re_description r \<noteq> [] \<Longrightarrow> te_description (token_error_from sv r) = truncate_error_param (re_description r)"
  by (simp add: token_error_from_def split: prod.split)

lemma described_message: "te_description te \<noteq> [] \<Longrightarrow> S (te_description te) \<in> set (token_error_message te)"
  by (auto simp: token_error_message_def split: option.split)

lemma joined_status_text:
  "find_status e = None \<Longrightarrow> x \<in> set m \<Longrightarrow> x \<in> set (error_text (wrap_errors c m [e]))"
  by (auto simp: wrap_errors_def join_with_status_def status_states_def)

lemma described_rejection:
  assumes "te_description (token_error_from sv r) \<noteq> []" "find_status e = None"
  shows "S (te_description (token_error_from sv r)) \<in> set (error_text (classify_retrieve_error sv w r e))"
  using described_message [OF assms(1)] assms(1) joined_status_text [OF assms(2)]
  by (auto simp: classify_retrieve_error_def wrap_transient_token_error_def Let_def split: option.split)

text \<open>C40: The endpoint's description reaches the caller. Whatever request is made, when the fetch of its token is rejected - and not
  for the scope, the client or with a 401, which are classified for good - the error the caller sees contains what the token endpoint
  gave as its description (up to the limit for such parameters), although the classification had kept it out of its message: that one is the same as without any
  description. The request path finds the hidden rejection behind the classified error and classifies it again.\<close>

theorem description_reaches_the_caller:
  assumes "url_parse s = Some u0" "url_parse (url_string u0) = Some u"
    and "meth \<noteq> method_get \<or> nc \<or> cache_get sv u (rq_headers (build_request meth u body nc)) c = None"
    and "for_class (cl_sources cl) (scope_class_from ctx) (cn_world c) = (Inl e, w)" "find_retrieve e = Some r"
    and "re_code r \<noteq> ''invalid_scope''" "re_code r \<noteq> ''invalid_client''" "\<not> is_unauthorized r" "re_description r \<noteq> []"
  shows "\<exists>e' rl c'. do_query sv cl ctx meth s body dec a nc c = ((Inl e', rl), c')
    \<and> S (truncate_error_param (re_description r)) \<in> set (error_text e')
    \<and> (\<forall>class scopes. error_text (classify_token_error e class scopes) =
         error_text (classify_token_error (Retrieve (r\<lparr>re_description := []\<rparr>)) class scopes))"
proof -
  let ?rq = "build_request meth u body nc" and ?cls = "scope_class_from ctx" and ?ss = "ts_read_scopes (cl_sources cl)"
  have k: "classify_token_error e ?cls ?ss = Wrap [S ''failed to get token: ''] (Redacted r) []"
    using assms(5-8) by (simp add: classify_token_error_def)
  have nch: "header_get (rq_headers ?rq) ''Cache-Control'' = ''no-cache''" if nc
    using that by (simp add: build_request_def header_get_def header_set_def)
  have miss: "rq_method ?rq \<noteq> method_get \<or> header_get (rq_headers ?rq) ''Cache-Control'' = ''no-cache''
      \<or> cache_get sv u (rq_headers ?rq) c = None" using assms(3) nch by auto
  have d: "te_description (token_error_from sv r) \<noteq> []"
    using described [OF assms(9), of sv] truncated_something [OF assms(9)] by simp
  have told: "S (truncate_error_param (re_description r)) \<in>
      set (error_text (wrap_request_error sv x (UrlError op v (classify_token_error e ?cls ?ss))))" for x op v
    using described_rejection [OF d] described [OF assms(9), of sv]
    by (simp add: k wrap_request_error_def without_request_url_def status_code_def classify_transport_failure_def)
  have "round_trip sv (cl_sources cl) ctx ?rq c =
      (Inl (classify_token_error e ?cls ?ss), c\<lparr>cn_rate_limit := None, cn_world := w\<rparr>)"
    using assms(4) by (simp add: round_trip_def Let_def)
  then have q: "\<exists>e' rl c'. do_query sv cl ctx meth s body dec a nc c = ((Inl e', rl), c')
      \<and> S (truncate_error_param (re_description r)) \<in> set (error_text e')"
    using told by (simp add: do_query_def assms(1,2) http_do_miss [OF miss])
  have "error_text (classify_token_error e cls scopes) =
      error_text (classify_token_error (Retrieve (r\<lparr>re_description := []\<rparr>)) cls scopes)" for cls scopes
    by (rule classify_text_public [where s = "r\<lparr>re_description := []\<rparr>", OF assms(5)]) (simp_all add: same_public_part_def)
  with q show ?thesis by blast
qed

text \<open>The token endpoint is down and says why; a read.\<close>

definition endpoint_down :: retrieve_error where
  "endpoint_down = \<lparr>re_response = Some \<lparr>rs_status = 503, rs_status_text = ''503 Service Unavailable'', rs_headers = [], rs_body = []\<rparr>,
     re_body = [], re_code = [], re_description = ''host db-7 is gone'', re_uri = []\<rparr>"

definition down_client :: "'w client" where
  "down_client = (static_client ''secret'')
     \<lparr>cl_sources := \<lparr>ts_read = (\<lambda>w. (Inl (Retrieve endpoint_down), w)), ts_users_write = None, ts_vendors_write = None, ts_read_scopes = []\<rparr>\<rparr>"

theorem description_reaches_the_caller_witness:
  "\<forall>(sv :: unit svc) c. \<exists>e rl c'.
     do_query sv down_client None method_get (url_string (api_url users_endpoint)) None (Some decode_users_list) zero_users_list True c =
       ((Inl e, rl), c')
     \<and> S ''host db-7 is gone'' \<in> set (error_text e)"
proof (intro allI)
  fix sv :: "unit svc" and c :: "unit conn"
  have p: "plain_rest users_endpoint" by (simp add: plain_rest_def users_endpoint_def plain_char_def is_alnum_def)
  have u: "url_parse (url_string (api_url users_endpoint)) = Some (api_url users_endpoint)"
    using api_url_parse [OF p] api_url_string [OF p] by simp
  have f: "for_class (cl_sources down_client) (scope_class_from None) (cn_world c) = (Inl (Retrieve endpoint_down), cn_world c)"
    by (simp add: for_class_def down_client_def scope_class_from_def)
  have r: "find_retrieve (Retrieve endpoint_down) = Some endpoint_down" "re_code endpoint_down \<noteq> ''invalid_scope''"
    "re_code endpoint_down \<noteq> ''invalid_client''" "\<not> is_unauthorized endpoint_down" "re_description endpoint_down \<noteq> []"
    "truncate_error_param (re_description endpoint_down) = ''host db-7 is gone''"
    by (simp_all add: endpoint_down_def is_unauthorized_def truncate_error_param_def max_error_param_length_def)
  from description_reaches_the_caller [OF u u _ f r(1-5), of method_get True sv None "Some decode_users_list" zero_users_list] r(6)
  show "\<exists>e rl c'. do_query sv down_client None method_get (url_string (api_url users_endpoint)) None
       (Some decode_users_list) zero_users_list True c = ((Inl e, rl), c')
     \<and> S ''host db-7 is gone'' \<in> set (error_text e)" by auto
qed

end
