(* ===== verification/Client_Answers.thy ===== *)
theory Client_Answers
  imports Client_Claims
begin

text \<open>
  Properties of what the client makes of an answer: the status of an unsuccessful one, the cache, the
  parameters of a listing, the two shapes of a list and the conversion of amounts.
\<close>

section \<open>Unsuccessful answers and the cache\<close>

definition with_bearer :: "string \<Rightarrow> http_request \<Rightarrow> http_request" where
  "with_bearer tok rq = rq\<lparr>rq_headers := header_set ''Authorization'' (''Bearer '' @ tok) (rq_headers rq)\<rparr>"

lemma do_query_unsuccessful:
  assumes "url_parse s = Some u0" "url_parse (url_string u0) = Some u"
    and "meth \<noteq> method_get \<or> nc \<or> cache_get sv u (rq_headers (build_request meth u body nc)) c = None"
    and "for_class (cl_sources cl) (scope_class_from ctx) (cn_world c) = (Inr tok, w)"
    and "sv_send sv (with_bearer tok (build_request meth u body nc)) w = (Inr resp, w')"
    and "\<not> is_success_status (rs_status resp)"
  shows "\<exists>e rl c'. do_query sv cl ctx meth s body dec a nc c = ((Inl e, Some rl), c')
     \<and> status_code e = grpc_code_of_http (rs_status resp) \<and> cn_cache c' = cn_cache c \<and> cn_world c' = w'
     \<and> (cn_rate_limit c' = None) = (rs_status resp \<noteq> 429)"
proof -
  let ?rq = "build_request meth u body nc"
  obtain r c' where rt: "round_trip sv (cl_sources cl) ctx ?rq c = (r, c')" by fastforce
  have r: "r = Inr resp" "cn_world c' = w'" "(cn_rate_limit c' = None) = (rs_status resp \<noteq> 429)" "cn_cache c' = cn_cache c"
    using rt assms(4,5) by (auto simp: round_trip_def Let_def with_bearer_def)
  have nch: "header_get (rq_headers ?rq) ''Cache-Control'' = ''no-cache''" if nc
    using that by (simp add: build_request_def header_get_def header_set_def)
  have miss: "rq_method ?rq \<noteq> method_get \<or> header_get (rq_headers ?rq) ''Cache-Control'' = ''no-cache''
      \<or> cache_get sv u (rq_headers ?rq) c = None" using assms(3) nch by auto
  obtain e rl where f: "finish_do sv ?rq u dec a resp c' = ((Inl e, rl), c')" "status_code e = grpc_code_of_http (rs_status resp)"
    using finish_do_error [OF assms(6)] by metis
  have "http_do sv (cl_sources cl) ctx ?rq u dec a c = ((Inl e, rl), c')"
    using rt r(1) f(1) by (simp add: http_do_miss [OF miss])
  then show ?thesis using f(2) r(2-4) by (auto simp: do_query_def assms(1,2))
qed

text \<open>C24: Whatever request goes to the wire - a read or a write, of any URL, with any decoder, and a read when the response
  cache has no answer for it - an answer without a successful status is an error with the status code of
  its HTTP status, whatever the decoder made of its body, and keeps it under the prefix that a method of the client puts before
  it. It is not remembered: the cache is as it was, so the same read goes to the wire again. The transport notes an exceeded
  rate limit exactly for a 429.\<close>

theorem failed_answer_keeps_its_status:
  assumes "url_parse s = Some u0" "url_parse (url_string u0) = Some u"
    and "meth \<noteq> method_get \<or> nc \<or> cache_get sv u (rq_headers (build_request meth u body nc)) c = None"
    and "for_class (cl_sources cl) (scope_class_from ctx) (cn_world c) = (Inr tok, w)"
    and "sv_send sv (with_bearer tok (build_request meth u body nc)) w = (Inr resp, w')"
    and "\<not> is_success_status (rs_status resp)"
  shows "\<exists>e rl c'. do_query sv cl ctx meth s body dec (a :: 'a) nc c = ((Inl e, Some rl), c')
     \<and> status_code e = grpc_code_of_http (rs_status resp)
     \<and> (\<forall>m (f :: 'a \<Rightarrow> 'b). \<exists>e'. wrap_reply m f (Inl e, Some rl) = (Inl e', Some rl) \<and> status_code e' = status_code e)
     \<and> cn_cache c' = cn_cache c \<and> cn_world c' = w'
     \<and> (meth = method_get \<and> \<not> nc \<longrightarrow> cache_get sv u (rq_headers (build_request meth u body nc)) c' = None)
     \<and> (cn_rate_limit c' = None) = (rs_status resp \<noteq> 429)"
proof -
  obtain e rl c' where r: "do_query sv cl ctx meth s body dec a nc c = ((Inl e, Some rl), c')"
    "status_code e = grpc_code_of_http (rs_status resp)" "cn_cache c' = cn_cache c" "cn_world c' = w'"
    "(cn_rate_limit c' = None) = (rs_status resp \<noteq> 429)"
    using do_query_unsuccessful [OF assms, of dec a] by (elim exE conjE) (rule that)
  have wrap: "\<exists>e'. wrap_reply m f (Inl e, Some rl) = (Inl e', Some rl) \<and> status_code e' = status_code e"
    for m and f :: "'a \<Rightarrow> 'b"
    by (simp add: wrap_reply_def)
  have miss: "cache_get sv u (rq_headers (build_request meth u body nc)) c' = None" if "meth = method_get \<and> \<not> nc"
    using assms(3) that r(3) by (simp add: cache_get_def split: if_splits)
  show ?thesis
    by (rule exI [of _ e], rule exI [of _ rl], rule exI [of _ c'], intro conjI allI impI)
      (rule r wrap miss, assumption?)+
qed

definition busy_answer :: http_response where
  "busy_answer = \<lparr>rs_status = 429, rs_status_text = ''429 Too Many Requests'', rs_headers = [], rs_body = []\<rparr>"

definition busy_server :: "'w svc \<Rightarrow> 'w svc" where
  "busy_server sv = sv\<lparr>sv_send := (\<lambda>rq w. (Inr busy_answer, w)), sv_caching := True\<rparr>"

text \<open>A read of the vendors, with the cache on and empty.\<close>

theorem failed_answer_keeps_its_status_witness:
  "\<forall>(sv :: unit svc) c. \<exists>e rl c'. do_query (busy_server sv) (static_client ''t'') None method_get
       (url_string (api_url vendors_path)) None (Some decode_vendors_list) zero_vendors_list False (c\<lparr>cn_cache := (\<lambda>_. None)\<rparr>) =
         ((Inl e, Some rl), c')
     \<and> status_code e = Unavailable \<and> cn_cache c' = (\<lambda>_. None) \<and> (cn_rate_limit c' = None) = False"
proof (intro allI)
  fix sv :: "unit svc" and c :: "unit conn"
  let ?c = "c\<lparr>cn_cache := (\<lambda>_. None)\<rparr>"
  have p: "plain_rest vendors_path" by (simp add: plain_rest_def vendors_path_def plain_char_def is_alnum_def)
  have u: "url_parse (url_string (api_url vendors_path)) = Some (api_url vendors_path)"
    using api_url_parse [OF p] api_url_string [OF p] by simp
  have f: "for_class (cl_sources (static_client ''t'')) (scope_class_from None) (cn_world ?c) = (Inr ''t'', cn_world ?c)"
    by (simp add: for_class_def static_client_def new_client_def new_with_token_sources_def static_token_def scope_class_from_def)
  have snd: "sv_send (busy_server sv) rq (cn_world ?c) = (Inr busy_answer, cn_world ?c)" for rq by (simp add: busy_server_def)
  have st: "\<not> is_success_status (rs_status busy_answer)" by (simp add: busy_answer_def is_success_status_def)
  have co: "grpc_code_of_http 429 = Unavailable" "rs_status busy_answer = 429"
    by (simp_all add: busy_answer_def grpc_code_of_http_def)
  have miss: "method_get \<noteq> method_get \<or> False
      \<or> cache_get (busy_server sv) (api_url vendors_path) (rq_headers (build_request method_get (api_url vendors_path) None False)) ?c = None"
    by (simp add: cache_get_def)
  from failed_answer_keeps_its_status [OF u u miss f snd st, of "Some decode_vendors_list" zero_vendors_list]
  show "\<exists>e rl c'. do_query (busy_server sv) (static_client ''t'') None method_get
       (url_string (api_url vendors_path)) None (Some decode_vendors_list) zero_vendors_list False ?c = ((Inl e, Some rl), c')
     \<and> status_code e = Unavailable \<and> cn_cache c' = (\<lambda>_. None) \<and> (cn_rate_limit c' = None) = False"
    by (auto simp: co)
qed

lemma reply_cache:
  assumes "meth \<noteq> method_get"
  shows "cn_cache (snd (do_query sv cl ctx meth s body dec a nc c)) = cn_cache c"
  using do_query_cache_other [OF assms, of sv cl ctx s body dec a nc c] by (cases "do_query sv cl ctx meth s body dec a nc c") auto

text \<open>No write of the client changes the cache of answers, whatever the server does and whether or not
  the write succeeds: what was read before stays what the next read gives.\<close>

lemma writes_leave_the_cache:
  "cn_cache (snd (update_vendor_owner sv cl v x c)) = cn_cache c
   \<and> cn_cache (snd (create_user sv cl req c)) = cn_cache c
   \<and> cn_cache (snd (deactivate_user sv cl i c)) = cn_cache c
   \<and> cn_cache (snd (reactivate_user sv cl i c)) = cn_cache c
   \<and> cn_cache (snd (list_vendor_agreements sv cl q p c)) = cn_cache c"
proof -
  have post: "method_post \<noteq> method_get" by (simp add: method_post_def method_get_def)
  note [simp] = reply_cache [OF post] reply_cache [OF patch_not_get]
  have change: "cn_cache (snd (user_state_change verb doing sv cl i c)) = cn_cache c" for verb doing
    by (simp add: user_state_change_def query_def case_prod_beta split: sum.split)
  show ?thesis
    using change
    by (simp add: update_vendor_owner_def create_user_def deactivate_user_def reactivate_user_def list_vendor_agreements_def
        query_with_body_def case_prod_beta Let_def split: sum.split)
qed

section \<open>Amounts\<close>

text \<open>C31: On every multiple of half a minor unit (in the range where \<open>float64\<close> has one) the conversion of
  an amount rounds to the nearest minor unit, halves away from zero, in both signs.\<close>

theorem minor_units_rounds_half_away:
  assumes "mo_currency_code m \<noteq> []"
    and "fl_mul_pos (mo_amount m)
           (fl_of_int (if mo_minor_unit_conversion_rate m \<le> 0 then 100 else mo_minor_unit_conversion_rate m))
         = fl_make h (- 1)"
    and "\<bar>h\<bar> < 2 ^ 53 - 1"
  shows "minor_units sv (Some m) = (if 0 \<le> h then (h + 1) div 2 else - ((1 - h) div 2))"
  using assms by (rule minor_units_half)

text \<open>The example of the source's comment, 48000.005.\<close>

lemma bitlen_numeral [simp]:
  "bitlen 0 = 0" "bitlen (Suc 0) = 1" "bitlen (numeral k) = Suc (bitlen (numeral k div 2))"
  by (simp_all add: bitlen.simps)

lemmas float_compute =
  fl_of_decimal_def fl_mul_pos_def fl_add_def fl_half_def fl_of_int_def fl_round_def fl_make_def drop_digits_def Let_def

definition the_example :: money where
  "the_example = \<lparr>mo_amount = fl_of_decimal False 48000005 (- 3), mo_currency_code = ''USD'', mo_minor_unit_conversion_rate = 100\<rparr>"

lemma the_example_amount: "fl_of_decimal False 48000005 (- 3) = FFin 6597070453850767 (- 37)"
  by (simp add: float_compute)

theorem minor_units_rounds_half_away_witness:
  "\<forall>sv :: unit svc. minor_units sv (Some the_example) = 4800001"
proof
  fix sv :: "unit svc"
  have "fl_mul_pos (mo_amount the_example) (fl_of_int 100) = fl_make 9600001 (- 1)"
    by (simp add: the_example_def the_example_amount float_compute)
  from minor_units_rounds_half_away [of the_example 9600001 sv] this
  show "minor_units sv (Some the_example) = 4800001" by (simp add: the_example_def)
qed

text \<open>Below a half the addition itself rounds: the largest number below a half gives one minor unit.\<close>

lemma almost_half_rounds_up:
  "minor_units sv (Some \<lparr>mo_amount = FFin 9007199254740991 (- 54), mo_currency_code = ''JPY'', mo_minor_unit_conversion_rate = 1\<rparr>) = 1"
proof -
  have v: "fl_mul_pos (FFin 9007199254740991 (- 54)) (fl_of_int 1) = FFin 9007199254740991 (- 54)" by (simp add: float_compute)
  have a: "fl_add (FFin 9007199254740991 (- 54)) fl_half = FFin 1 0" by (simp add: float_compute)
  show ?thesis by (simp add: minor_units_def v a fl_nonneg_def fl_to_int64_def trunc_pair_def)
qed

section \<open>Parameters of a listing\<close>

lemma values_get_set_other [simp]: "k \<noteq> k' \<Longrightarrow> values_get (values_set vs k v) k' = values_get vs k'"
proof -
  assume "k \<noteq> k'"
  then have "map_of (filter (\<lambda>(j, _). j \<noteq> k) vs) k' = map_of vs k'" by (induction vs) auto
  with \<open>k \<noteq> k'\<close> show ?thesis by (simp add: values_get_def values_set_def map_add_def split: option.split)
qed

lemma values_set_not_Nil [simp]: "values_set vs k v \<noteq> []"
  by (simp add: values_set_def)

lemma with_page_size_not_Nil [simp]: "with_page_size n q \<noteq> []"
  by (auto simp: with_page_size_def values_get_def)

lemma query_of_api_query_url: "url_query (api_query_url p q) = parse_query q"
  by (simp add: url_query_def api_query_url_def)

text \<open>C29: A listing asks for what the given URL asks for: of a page URL the server gave (a plain path with
  any query) every parameter is kept, the page size included; only a missing page size becomes 100, and
  a role, when there is one, is set. The new URL has the same path.\<close>

theorem list_params_keep_the_query:
  assumes "plain_rest p" "vs \<noteq> []"
  shows "\<exists>q. add_users_list_params (url_string (api_query_url p (values_encode vs))) role = Inr (url_string (api_query_url p q))
     \<and> url_parse (url_string (api_query_url p q)) = Some (api_query_url p q)
     \<and> values_get (parse_query q) k =
         (if k = ''role'' \<and> role \<noteq> [] then role
          else if k = ''page_size'' \<and> values_get vs k = [] then ''100'' else values_get vs k)"
proof -
  have ne: "values_encode vs' \<noteq> []" "plain_query (values_encode vs')" if "vs' \<noteq> []" for vs'
    using plain_query_encode [OF that] by (simp_all add: plain_query_def)
  let ?q1 = "with_page_size default_page_size (sort_key fst vs)"
  let ?q2 = "if role = [] then ?q1 else values_set ?q1 ''role'' role"
  have n2: "?q2 \<noteq> []" by simp
  have hundred: "itoa default_page_size = ''100''" unfolding default_page_size_def by code_simp
  have p1: "url_parse (url_string (api_query_url p (values_encode vs))) = Some (api_query_url p (values_encode vs))"
    using api_query_url_parse [OF assms(1) ne(2) [OF assms(2)]] api_query_url_string [OF assms(1) ne(1) [OF assms(2)]] by simp
  have add: "add_users_list_params (url_string (api_query_url p (values_encode vs))) role =
      Inr (url_string (api_query_url p (values_encode ?q2)))"
    unfolding add_users_list_params_def p1 option.case query_of_api_query_url parse_values_encode Let_def
    by (simp add: api_query_url_def)
  have p2: "url_parse (url_string (api_query_url p (values_encode ?q2))) = Some (api_query_url p (values_encode ?q2))"
    using api_query_url_parse [OF assms(1) ne(2) [OF n2]] api_query_url_string [OF assms(1) ne(1) [OF n2]] by simp
  have get: "values_get (parse_query (values_encode ?q2)) k =
     (if k = ''role'' \<and> role \<noteq> [] then role
      else if k = ''page_size'' \<and> values_get vs k = [] then ''100'' else values_get vs k)"
    by (auto simp: with_page_size_def hundred)
  show ?thesis by (intro exI conjI, rule add, rule p2, rule get)
qed

theorem list_params_keep_the_query_witness:
  "\<exists>q. add_users_list_params (url_string (api_query_url ''users'' (values_encode [(''start'', ''u7''), (''page_size'', ''25'')]))) ''IT_ADMIN''
       = Inr (url_string (api_query_url ''users'' q))
     \<and> url_parse (url_string (api_query_url ''users'' q)) = Some (api_query_url ''users'' q)
     \<and> values_get (parse_query q) ''page_size'' = ''25''"
proof -
  have p: "plain_rest ''users''" by (simp add: plain_rest_def plain_char_def is_alnum_def)
  from list_params_keep_the_query [OF p, of "[(''start'', ''u7''), (''page_size'', ''25'')]" "''IT_ADMIN''" "''page_size''"]
  show ?thesis by (simp add: values_get_def)
qed

section \<open>Shapes of a list\<close>

text \<open>A bare array of agreements, the older shape of the list, is read exactly like the page that holds
  the same agreements and has no next page, elements that cannot be decoded included.\<close>

lemma bare_array_is_one_page:
  "decode_agreements_list (JArr js) zero_agreements_list = decode_agreements_list (page_json js) zero_agreements_list"
  by (simp add: list_decoder_simps decode_agreements_list_def decode_agreements_fields_def zero_agreements_list_def
      map_option_case split: option.split)

definition is_object :: "json \<Rightarrow> bool" where
  "is_object j = (case j of JObj _ \<Rightarrow> True | _ \<Rightarrow> False)"

definition unbatch :: "json list \<Rightarrow> json list" where
  "unbatch raw = concat (map (\<lambda>j. case j of JArr js \<Rightarrow> js | _ \<Rightarrow> [j]) raw)"

definition ok_value :: "'e + 'a \<Rightarrow> 'a option" where
  "ok_value r = (case r of Inl _ \<Rightarrow> None | Inr a \<Rightarrow> Some a)"

lemma ok_value_simps [simp]: "ok_value (Inl e) = None" "ok_value (Inr a) = Some a"
  by (simp_all add: ok_value_def)

lemma map_res_append:
  "ok_value (map_res f (xs @ ys)) = Option.bind (ok_value (map_res f xs)) (\<lambda>as. map_option (\<lambda>bs. as @ bs) (ok_value (map_res f ys)))"
  by (induction xs) (auto split: sum.splits option.splits simp: ok_value_def)

lemma ok_value_flatten: "ok_value (flatten_audit_events raw) = map_option concat (ok_value (map_res flatten_entry raw))"
  by (simp add: flatten_audit_events_def ok_value_def split: sum.split)

lemma flatten_append:
  "ok_value (flatten_audit_events (xs @ ys)) =
     Option.bind (ok_value (flatten_audit_events xs)) (\<lambda>as. map_option (\<lambda>bs. as @ bs) (ok_value (flatten_audit_events ys)))"
  by (simp add: ok_value_flatten map_res_append option.map_comp bind_map_option comp_def map_option_bind
      split: bind_splits)

lemma batch_of_objects:
  "list_all is_object js \<Longrightarrow>
     decode_elems (elem_pointer decode_audit_event zero_audit_event) None js [] = ok_value (flatten_audit_events js)"
proof (induction js)
  case Nil
  then show ?case by (simp add: flatten_audit_events_def)
next
  case (Cons j js)
  from Cons.prems obtain ms where j: "j = JObj ms" by (auto simp: is_object_def split: json.splits)
  from Cons show ?case
    by (auto simp: j flatten_audit_events_def flatten_entry_def elem_pointer_def ok_value_def split: option.splits sum.splits)
qed

text \<open>C30: How the audit log is cut into batches does not matter: entries that are lists of events give the same
  events, in the same order, as their events one by one, and a batch fails exactly when one of its events
  fails.\<close>

theorem batches_do_not_matter:
  assumes "list_all is_object (unbatch raw)"
  shows "ok_value (flatten_audit_events raw) = ok_value (flatten_audit_events (unbatch raw))"
  using assms
proof (induction raw)
  case Nil
  then show ?case by (simp add: unbatch_def)
next
  case (Cons j raw)
  let ?u = "case j of JArr js \<Rightarrow> js | _ \<Rightarrow> [j]"
  have u: "unbatch (j # raw) = ?u @ unbatch raw" by (simp add: unbatch_def)
  with Cons.prems have o: "list_all is_object ?u" "list_all is_object (unbatch raw)" by simp_all
  have one: "ok_value (flatten_audit_events [j]) = ok_value (flatten_audit_events ?u)"
  proof (cases j)
    case (JArr js)
    then show ?thesis using batch_of_objects [of js] o(1)
      by (simp add: flatten_audit_events_def [of "[JArr js]"] flatten_entry_def ok_value_def split: option.split)
  qed simp_all
  show ?case
    using flatten_append [of "[j]" raw] flatten_append [of ?u "unbatch raw"] one Cons.IH [OF o(2)] by (simp add: u)
qed

theorem batches_do_not_matter_witness:
  "ok_value (flatten_audit_events [JArr [JObj [], JObj [(''id'', JStr ''e'')]], JObj []]) =
   ok_value (flatten_audit_events [JObj [], JObj [(''id'', JStr ''e'')], JObj []])"
proof -
  let ?raw = "[JArr [JObj [], JObj [(''id'', JStr ''e'')]], JObj []]"
  have u: "unbatch ?raw = [JObj [], JObj [(''id'', JStr ''e'')], JObj []]" by (simp add: unbatch_def)
  have "list_all is_object (unbatch ?raw)" by (simp add: u is_object_def)
  from batches_do_not_matter [OF this] show ?thesis unfolding u .
qed

end
