(* ===== verification/Connector.thy ===== *)
theory Connector
  imports Vendors Users Roles Agreements Audit_Feed
begin

text \<open>
  \<open>src/pkg/connector/connector.go\<close> and \<open>actions.go\<close>: the connector and its options, what it offers to
  the platform, its validation, and the two global actions on users. A connector made without a token
  has no client.
\<close>

section \<open>Options\<close>

record 'w connector =
  con_client :: "'w client option"
  con_base_url :: string
  con_disable_vendor_agreements :: bool
  con_audit_log_events_enabled :: bool

type_synonym 'w connector_option = "'w connector \<Rightarrow> gerror + 'w connector"

definition zero_connector :: "'w connector" where
  "zero_connector =
     \<lparr>con_client = None, con_base_url = [], con_disable_vendor_agreements = False,
      con_audit_log_events_enabled = False\<rparr>"

definition with_base_url :: "string \<Rightarrow> 'w connector_option" where
  "with_base_url u d = Inr (d\<lparr>con_base_url := u\<rparr>)"

definition with_vendor_agreements :: "bool \<Rightarrow> 'w connector_option" where
  "with_vendor_agreements enabled d = Inr (d\<lparr>con_disable_vendor_agreements := \<not> enabled\<rparr>)"

definition with_audit_log_events :: "bool \<Rightarrow> 'w connector_option" where
  "with_audit_log_events enabled d = Inr (d\<lparr>con_audit_log_events_enabled := enabled\<rparr>)"

definition creating_client :: "(gerror + 'w client) \<Rightarrow> 'w connector_option" where
  "creating_client r d =
     (case r of Inl e \<Rightarrow> Inl (Wrap [S ''error creating ramp client: ''] e [])
      | Inr cl \<Rightarrow> Inr (d\<lparr>con_client := Some cl\<rparr>))"

text \<open>\<open>http\<close> is what the SDK says to a new HTTP client: nothing, or an error.\<close>

definition with_token :: "gerror option \<Rightarrow> string \<Rightarrow> 'w connector_option" where
  "with_token http token d =
     creating_client (create_token_client http (static_token token) (con_base_url d)) d"

definition with_token_sources :: "gerror option \<Rightarrow> 'w token_sources \<Rightarrow> 'w connector_option" where
  "with_token_sources http sources d = creating_client (create_client http sources (con_base_url d)) d"

definition new_connector :: "'w connector_option list \<Rightarrow> gerror + 'w connector" where
  "new_connector opts =
     (case apply_options opts zero_connector of
        Inl e \<Rightarrow> Inl (Wrap [S ''failed to apply option: ''] e []) | Inr d \<Rightarrow> Inr d)"

section \<open>What the connector offers\<close>

datatype 'w syncer =
    UserSyncer "'w client option" | RoleSyncer "'w client option"
  | VendorSyncer "'w client option" vendor_owners
  | VendorAgreementSyncer "'w client option" agreement_owners

text \<open>A new syncer of vendors or agreements has a nil map of owners.\<close>

definition new_user_builder :: "'w client option \<Rightarrow> 'w syncer" where
  "new_user_builder c = UserSyncer c"

definition new_role_builder :: "'w client option \<Rightarrow> 'w syncer" where
  "new_role_builder c = RoleSyncer c"

definition new_vendor_builder :: "'w client option \<Rightarrow> 'w syncer" where
  "new_vendor_builder c = VendorSyncer c no_owners"

definition new_vendor_agreement_builder :: "'w client option \<Rightarrow> 'w syncer" where
  "new_vendor_agreement_builder c = VendorAgreementSyncer c no_owners"

definition resource_syncers :: "'w connector \<Rightarrow> 'w syncer list" where
  "resource_syncers d =
     [new_user_builder (con_client d), new_role_builder (con_client d), new_vendor_builder (con_client d)]
     @ (if con_disable_vendor_agreements d then [] else [new_vendor_agreement_builder (con_client d)])"

text \<open>The method \<open>ResourceType\<close> of each syncer.\<close>

definition user_builder_type :: resource_type where
  "user_builder_type = user_resource_type"

definition role_builder_type :: resource_type where
  "role_builder_type = role_resource_type"

definition vendor_builder_type :: resource_type where
  "vendor_builder_type = vendor_resource_type"

definition vendor_agreement_builder_type :: resource_type where
  "vendor_agreement_builder_type = vendor_agreement_resource_type"

definition syncer_resource_type :: "'w syncer \<Rightarrow> resource_type" where
  "syncer_resource_type s =
     (case s of UserSyncer _ \<Rightarrow> user_builder_type | RoleSyncer _ \<Rightarrow> role_builder_type
      | VendorSyncer _ _ \<Rightarrow> vendor_builder_type | VendorAgreementSyncer _ _ \<Rightarrow> vendor_agreement_builder_type)"

lemmas builder_defs =
  new_user_builder_def new_role_builder_def new_vendor_builder_def new_vendor_agreement_builder_def
  user_builder_type_def role_builder_type_def vendor_builder_type_def vendor_agreement_builder_type_def

definition event_feeds :: "'w connector \<Rightarrow> ('w client option \<times> audit_feed) list" where
  "event_feeds d =
     (if \<not> con_audit_log_events_enabled d then []
      else [(con_client d, \<lparr>fd_agreements_enabled = \<not> con_disable_vendor_agreements d\<rparr>)])"

definition event_feed_id :: string where
  "event_feed_id = ''vendor_audit_feed''"

datatype event_type = ResourceChangeEvents

record event_feed_metadata =
  fm_id :: string
  fm_supported :: "event_type list"

definition feed_metadata :: event_feed_metadata where
  "feed_metadata = \<lparr>fm_id = event_feed_id, fm_supported = [ResourceChangeEvents]\<rparr>"

record schema_field =
  sf_display_name :: string
  sf_description :: string
  sf_required :: bool
  sf_order :: nat

record connector_metadata =
  cm_display_name :: string
  cm_description :: string
  cm_account_fields :: "(string \<times> schema_field) list"

definition connector_metadata_of :: "'w connector \<Rightarrow> connector_metadata" where
  "connector_metadata_of d =
     \<lparr>cm_display_name = ''Baton Ramp Connector'',
      cm_description = ''This connector integrates with Ramp to manage users, roles, and vendors.'',
      cm_account_fields =
        [(''email'', \<lparr>sf_display_name = ''Email'', sf_description = [], sf_required = True, sf_order = 1\<rparr>),
         (''first_name'', \<lparr>sf_display_name = ''First Name'', sf_description = [], sf_required = True, sf_order = 2\<rparr>),
         (''last_name'', \<lparr>sf_display_name = ''Last Name'', sf_description = [], sf_required = True, sf_order = 3\<rparr>),
         (''role'', \<lparr>sf_display_name = ''Role'',
            sf_description = ''One of: AUDITOR, BUSINESS_ADMIN, BUSINESS_BOOKKEEPER, BUSINESS_USER, GUEST_USER, IT_ADMIN'',
            sf_required = True, sf_order = 4\<rparr>)]\<rparr>"

definition connector_asset :: "'w connector \<Rightarrow> string \<Rightarrow> gerror + (string \<times> string option)" where
  "connector_asset d ref = Inr ([], None)"

definition connector_validate :: "'w svc \<Rightarrow> 'w connector \<Rightarrow> 'w conn \<Rightarrow> unit sync_reply \<times> 'w conn" where
  "connector_validate sv d c =
     (case con_client d of
        None \<Rightarrow> ((Inl (Plain [S ''baton-ramp: connector client not configured'']), []), c)
      | Some cl \<Rightarrow>
        (case list_users sv cl [] c of
           ((r, rl), c') \<Rightarrow>
             let annos = with_rate_limiting [] rl in
             (case r of
                Inl e \<Rightarrow> ((Inl (Wrap [S ''baton-ramp: validate failed: ''] e []), annos), c')
              | Inr _ \<Rightarrow> ((Inr (), annos), c'))))"

section \<open>Actions\<close>

definition action_return_success :: string where
  "action_return_success = ''success''"

definition require_user_id :: "proto_fields \<Rightarrow> gerror + string" where
  "require_user_id args =
     (case map_of args ''user_id'' of
        None \<Rightarrow> Inl (Plain [S ''ramp-connector: user_id parameter is required''])
      | Some v \<Rightarrow>
        if string_value v = [] then Inl (Plain [S ''ramp-connector: user_id cannot be empty''])
        else Inr (string_value v))"

text \<open>An action answers a struct even when it fails after the request.\<close>

record action_reply =
  ac_fields :: "proto_fields option"
  ac_annos :: "annotation list"
  ac_error :: "gerror option"

definition finish_action :: "string \<Rightarrow> unit reply \<Rightarrow> action_reply" where
  "finish_action doing q =
     (case q of (r, rl) \<Rightarrow>
        let annos = with_rate_limiting [] rl in
        (case r of
           Inl e \<Rightarrow> \<lparr>ac_fields = Some [(action_return_success, VBool False)], ac_annos = annos,
                      ac_error = Some (Wrap [S ''ramp-connector: failed to '', S doing, S '' user: ''] e [])\<rparr>
         | Inr _ \<Rightarrow> \<lparr>ac_fields = Some [(action_return_success, VBool True)], ac_annos = annos, ac_error = None\<rparr>))"

definition handle_disable_user ::
    "'w svc \<Rightarrow> 'w client \<Rightarrow> proto_fields \<Rightarrow> 'w conn \<Rightarrow> action_reply \<times> 'w conn" where
  "handle_disable_user sv cl args c =
     (case require_user_id args of
        Inl e \<Rightarrow> (\<lparr>ac_fields = None, ac_annos = [], ac_error = Some e\<rparr>, c)
      | Inr u \<Rightarrow> (case deactivate_user sv cl u c of (q, c') \<Rightarrow> (finish_action ''disable'' q, c')))"

definition handle_enable_user ::
    "'w svc \<Rightarrow> 'w client \<Rightarrow> proto_fields \<Rightarrow> 'w conn \<Rightarrow> action_reply \<times> 'w conn" where
  "handle_enable_user sv cl args c =
     (case require_user_id args of
        Inl e \<Rightarrow> (\<lparr>ac_fields = None, ac_annos = [], ac_error = Some e\<rparr>, c)
      | Inr u \<Rightarrow> (case reactivate_user sv cl u c of (q, c') \<Rightarrow> (finish_action ''enable'' q, c')))"

datatype action_type = ActionAccount | ActionAccountDisable | ActionAccountEnable

datatype field_kind = StringKind | BoolKind

record action_field =
  fl_name :: string
  fl_display_name :: string
  fl_description :: string
  fl_required :: bool
  fl_kind :: field_kind

record action_schema =
  as_name :: string
  as_display_name :: string
  as_description :: string
  as_arguments :: "action_field list"
  as_return_types :: "action_field list"
  as_types :: "action_type list"

definition user_id_argument :: "string \<Rightarrow> action_field" where
  "user_id_argument d =
     \<lparr>fl_name = ''user_id'', fl_display_name = ''User ID'', fl_description = d, fl_required = True, fl_kind = StringKind\<rparr>"

definition success_field :: action_field where
  "success_field =
     \<lparr>fl_name = action_return_success, fl_display_name = ''Success'', fl_description = [], fl_required = False,
      fl_kind = BoolKind\<rparr>"

definition disable_user_schema :: action_schema where
  "disable_user_schema =
     \<lparr>as_name = ''disable_user'', as_display_name = ''Disable User'',
      as_description = ''Deactivate a Ramp user. The user will no longer be able to log in, spend on cards, or receive notifications.'',
      as_arguments = [user_id_argument ''The Ramp user ID to deactivate''],
      as_return_types = [success_field], as_types = [ActionAccount, ActionAccountDisable]\<rparr>"

definition enable_user_schema :: action_schema where
  "enable_user_schema =
     \<lparr>as_name = ''enable_user'', as_display_name = ''Enable User'',
      as_description = ''Reactivate a Ramp user. The user can log in to Ramp again, spend on their previously issued cards, and resume receiving notifications.'',
      as_arguments = [user_id_argument ''The Ramp user ID to reactivate''],
      as_return_types = [success_field], as_types = [ActionAccount, ActionAccountEnable]\<rparr>"

type_synonym 'w action_handler = "proto_fields \<Rightarrow> 'w conn \<Rightarrow> action_reply \<times> 'w conn"

text \<open>The registry belongs to the SDK: it takes a schema and a handler and may refuse. A nil client is
  dereferenced when the handler runs.\<close>

definition nil_client_action :: "'w action_handler" where
  "nil_client_action args c = (\<lparr>ac_fields = None, ac_annos = [],
     ac_error = Some (case require_user_id args of Inl e \<Rightarrow> e | Inr _ \<Rightarrow> nil_dereference)\<rparr>, c)"

definition global_actions ::
    "('w action_handler \<Rightarrow> action_schema \<Rightarrow> 'r \<Rightarrow> (gerror + 'r)) \<Rightarrow> 'w svc \<Rightarrow> 'w connector \<Rightarrow> 'r \<Rightarrow> gerror + 'r" where
  "global_actions register sv d reg =
     (let handler = (\<lambda>f. case con_client d of None \<Rightarrow> nil_client_action | Some cl \<Rightarrow> f cl) in
      case register (handler (\<lambda>cl. handle_disable_user sv cl)) disable_user_schema reg of
        Inl e \<Rightarrow> Inl e
      | Inr reg1 \<Rightarrow> register (handler (\<lambda>cl. handle_enable_user sv cl)) enable_user_schema reg1)"

section \<open>Facts\<close>

lemma with_token_client:
  "with_token None t d = Inr (d\<lparr>con_client := Some (new_client (static_token t) (con_base_url d))\<rparr>)"
  "with_token_sources None ss d = Inr (d\<lparr>con_client := Some (new_with_token_sources ss (con_base_url d))\<rparr>)"
  by (simp_all add: with_token_def with_token_sources_def creating_client_def)

lemma require_user_id_Inr: "require_user_id args = Inr u \<longleftrightarrow> u \<noteq> [] \<and> map_of args ''user_id'' = Some (VString u)"
  by (auto simp: require_user_id_def string_value_def split: option.splits proto_value.splits)

end
