(* ===== verification/Config_Main.thy ===== *)
theory Config_Main
  imports Connector
begin

text \<open>
  \<open>src/pkg/config\<close> and \<open>src/cmd/baton-ramp/main.go\<close>: the configuration fields and their groups, the
  getters of the generated configuration struct, the OAuth scopes and how a connector is put together from
  them. The field library of the SDK appears as far as these fields use it: a required string must not be
  empty.
\<close>

section \<open>Fields and groups\<close>

datatype field_variant = StringVariant | BoolVariant

datatype field_default = DefaultString string | DefaultBool bool

datatype export_target = ExportTargetNone | ExportTargetGUI | ExportTargetOps | ExportTargetCLIOnly

datatype web_field_type = WebText | Randomize | OAuth2 | ConnectorDerivedOptions | FileUpload | Multiline

text \<open>Of a field, what the connector sets and the SDK reads here; a boolean has no web type, and an empty
  name in the struct means that it is made from the name of the field.\<close>

record config_field =
  cf_name :: string
  cf_variant :: field_variant
  cf_required :: bool
  cf_secret :: bool
  cf_display_name :: string
  cf_description :: string
  cf_default :: field_default
  cf_export_target :: export_target
  cf_web_type :: "web_field_type option"
  cf_struct_field_name :: string

definition string_field :: "string \<Rightarrow> config_field" where
  "string_field n =
     \<lparr>cf_name = n, cf_variant = StringVariant, cf_required = False, cf_secret = False, cf_display_name = [],
      cf_description = [], cf_default = DefaultString [], cf_export_target = ExportTargetGUI,
      cf_web_type = Some WebText, cf_struct_field_name = []\<rparr>"

definition token_field :: config_field where
  "token_field = (string_field ''token'')
     \<lparr>cf_secret := True, cf_required := True, cf_display_name := ''Ramp Access Token''\<rparr>"

definition ramp_client_id_field :: config_field where
  "ramp_client_id_field = (string_field ''ramp-client-id'')
     \<lparr>cf_required := True, cf_display_name := ''Ramp OAuth Client ID''\<rparr>"

definition ramp_client_secret_field :: config_field where
  "ramp_client_secret_field = (string_field ''ramp-client-secret'')
     \<lparr>cf_secret := True, cf_required := True, cf_display_name := ''Ramp OAuth Client Secret''\<rparr>"

definition ramp_base_url_field :: config_field where
  "ramp_base_url_field = (string_field ''ramp-base-url'')
     \<lparr>cf_display_name := ''Ramp API Base URL'',
      cf_description := ''Override the Ramp API base URL. Defaults to https://api.ramp.com. Use https://demo-api.ramp.com for sandbox.'',
      cf_default := DefaultString ''https://api.ramp.com''\<rparr>"

definition audit_log_events_field :: config_field where
  "audit_log_events_field =
     \<lparr>cf_name = ''audit-log-events'', cf_variant = BoolVariant, cf_required = False, cf_secret = False,
      cf_display_name = ''Sync audit log events'',
      cf_description = ''Enable Ramp audit-log polling for incremental sync events. Requires Ramp audit-log API availability, such as Ramp Plus, and adds the audit_logs:read OAuth scope. Default off.'',
      cf_default = DefaultBool False, cf_export_target = ExportTargetGUI, cf_web_type = None, cf_struct_field_name = []\<rparr>"

definition configuration_fields :: "config_field list" where
  "configuration_fields =
     [token_field, ramp_client_id_field, ramp_client_secret_field, ramp_base_url_field, audit_log_events_field]"

definition access_token_group :: string where "access_token_group = ''access_token''"
definition client_credentials_group :: string where "client_credentials_group = ''client_credentials''"

record field_group =
  fg_name :: string
  fg_display_name :: string
  fg_help_text :: string
  fg_fields :: "config_field list"
  fg_default :: bool

definition configuration_field_groups :: "field_group list" where
  "configuration_field_groups =
     [\<lparr>fg_name = access_token_group, fg_display_name = ''Access Token'',
       fg_help_text = ''Authenticate using a Ramp API access token.'', fg_fields = [token_field, ramp_base_url_field, audit_log_events_field],
       fg_default = True\<rparr>,
      \<lparr>fg_name = client_credentials_group, fg_display_name = ''OAuth 2.0 Client Credentials'',
       fg_help_text = ''Authenticate using OAuth 2.0 client credentials issued by Ramp.'',
       fg_fields = [ramp_client_id_field, ramp_client_secret_field, ramp_base_url_field, audit_log_events_field],
       fg_default = False\<rparr>]"

text \<open>The whole configuration: no relationships between the fields.\<close>

datatype field_relationship =
    RequiredTogether "config_field list" | MutuallyExclusive "config_field list"
  | AtLeastOne "config_field list" | Dependents "config_field list" "config_field list"

definition field_relationships :: "field_relationship list" where
  "field_relationships = []"

record configuration =
  cg_fields :: "config_field list"
  cg_constraints :: "field_relationship list"
  cg_groups :: "field_group list"
  cg_display_name :: string
  cg_icon_url :: string
  cg_help_url :: string
  cg_catalog_id :: string
  cg_is_directory :: bool
  cg_supports_external_resources :: bool
  cg_requires_external_connector :: bool

definition ramp_configuration :: configuration where
  "ramp_configuration =
     \<lparr>cg_fields = configuration_fields, cg_constraints = field_relationships, cg_groups = configuration_field_groups,
      cg_display_name = ''Ramp'', cg_icon_url = ''/static/app-icons/ramp.svg'', cg_help_url = ''/docs/baton/ramp'',
      cg_catalog_id = [], cg_is_directory = False, cg_supports_external_resources = False,
      cg_requires_external_connector = False\<rparr>"

section \<open>The configuration struct\<close>

record ramp_config =
  rc_token :: string
  rc_client_id :: string
  rc_client_secret :: string
  rc_base_url :: string
  rc_audit_log_events :: bool

text \<open>The types of a field that the getters ask for; the struct has strings and one flag.\<close>

datatype any_value = AnyString string | AnyBool bool

definition find_field_by_tag :: "ramp_config \<Rightarrow> string \<Rightarrow> any_value option" where
  "find_field_by_tag cc tag =
     map_of [(''token'', AnyString (rc_token cc)), (''ramp-client-id'', AnyString (rc_client_id cc)),
             (''ramp-client-secret'', AnyString (rc_client_secret cc)),
             (''ramp-base-url'', AnyString (rc_base_url cc)),
             (''audit-log-events'', AnyBool (rc_audit_log_events cc))] tag"

definition wrong_type :: gerror where
  "wrong_type = Panicked [S ''wrong type'']"

definition get_string :: "ramp_config \<Rightarrow> string \<Rightarrow> gerror + string" where
  "get_string cc n =
     (case find_field_by_tag cc n of None \<Rightarrow> Inr [] | Some (AnyString s) \<Rightarrow> Inr s | Some _ \<Rightarrow> Inl wrong_type)"

definition get_bool :: "ramp_config \<Rightarrow> string \<Rightarrow> gerror + bool" where
  "get_bool cc n =
     (case find_field_by_tag cc n of None \<Rightarrow> Inr False | Some (AnyBool b) \<Rightarrow> Inr b | Some _ \<Rightarrow> Inl wrong_type)"

definition get_int :: "ramp_config \<Rightarrow> string \<Rightarrow> gerror + int" where
  "get_int cc n = (case find_field_by_tag cc n of None \<Rightarrow> Inr 0 | Some _ \<Rightarrow> Inl wrong_type)"

definition get_string_slice :: "ramp_config \<Rightarrow> string \<Rightarrow> gerror + string list" where
  "get_string_slice cc n = (case find_field_by_tag cc n of None \<Rightarrow> Inr [] | Some _ \<Rightarrow> Inl wrong_type)"

definition get_string_map :: "ramp_config \<Rightarrow> string \<Rightarrow> gerror + (string \<times> any_value) list" where
  "get_string_map cc n = (case find_field_by_tag cc n of None \<Rightarrow> Inr [] | Some _ \<Rightarrow> Inl wrong_type)"

section \<open>Validation\<close>

text \<open>\<open>FieldGroupFields\<close>: the named group, else the default one, else the first.\<close>

definition group_fields :: "string \<Rightarrow> config_field list" where
  "group_fields n =
     (case find (\<lambda>g. fg_name g = n) (cg_groups ramp_configuration) of
        Some g \<Rightarrow> fg_fields g
      | None \<Rightarrow> (case find fg_default (cg_groups ramp_configuration) of
          Some g \<Rightarrow> fg_fields g | None \<Rightarrow> fg_fields (hd (cg_groups ramp_configuration))))"

definition required_zero_value :: "config_field \<Rightarrow> gerror" where
  "required_zero_value f =
     Plain [S ''field '', S (cf_name f), S '' of type string is marked as required but it has a zero-value'']"

definition validate_field :: "ramp_config \<Rightarrow> config_field \<Rightarrow> gerror + gerror list" where
  "validate_field cc f =
     (case cf_variant f of
        StringVariant \<Rightarrow>
          (case get_string cc (cf_name f) of
             Inl e \<Rightarrow> Inl e
           | Inr s \<Rightarrow> Inr (if cf_required f \<and> s = [] then [required_zero_value f] else []))
      | BoolVariant \<Rightarrow> (case get_bool cc (cf_name f) of Inl e \<Rightarrow> Inl e | Inr _ \<Rightarrow> Inr []))"

definition missing_fields_error :: "gerror list \<Rightarrow> gerror" where
  "missing_fields_error es = Plain ([S ''errors found:\<newline>''] @ msg_join [S ''\<newline>''] (map error_text es))"

definition validate_config :: "ramp_config \<Rightarrow> string \<Rightarrow> gerror + unit" where
  "validate_config cc auth =
     (case map_res (validate_field cc)
             (filter (\<lambda>f. cf_name f \<in> cf_name ` set (group_fields auth)) (cg_fields ramp_configuration)) of
        Inl e \<Rightarrow> Inl e
      | Inr ess \<Rightarrow> if concat ess = [] then Inr () else Inl (missing_fields_error (concat ess)))"

section \<open>Scopes\<close>

definition base_ramp_oauth_scopes :: "string list" where
  "base_ramp_oauth_scopes = [''users:read'', ''vendors:read'']"

definition audit_logs_scope :: string where "audit_logs_scope = ''audit_logs:read''"

definition read_scopes :: "ramp_config \<Rightarrow> string list" where
  "read_scopes cc = base_ramp_oauth_scopes @ (if rc_audit_log_events cc then [audit_logs_scope] else [])"

definition users_write_scopes :: "ramp_config \<Rightarrow> string list" where
  "users_write_scopes cc = read_scopes cc @ [''users:write'']"

definition vendors_write_scopes :: "ramp_config \<Rightarrow> string list" where
  "vendors_write_scopes cc = read_scopes cc @ [''vendors:write'']"

definition vendor_agreement_enabled :: "string list \<Rightarrow> bool" where
  "vendor_agreement_enabled ids = (ids = [] \<or> list_ex (\<lambda>t. t = ''vendor_agreement'') ids)"

section \<open>Putting a connector together\<close>

record runtime_opts =
  ro_selected_auth_method :: string
  ro_sync_resource_type_ids :: "string list"

record client_credentials =
  cc_client_id :: string
  cc_client_secret :: string
  cc_token_url :: string
  cc_scopes :: "string list"

definition credentials :: "ramp_config \<Rightarrow> string list \<Rightarrow> client_credentials" where
  "credentials cc scopes =
     \<lparr>cc_client_id = rc_client_id cc, cc_client_secret = rc_client_secret cc,
      cc_token_url = token_url (rc_base_url cc), cc_scopes = scopes\<rparr>"

text \<open>\<open>grant_flow\<close> is the OAuth library's client-credentials token source, \<open>build\<close> the SDK's
  \<open>connectorbuilder.NewConnector\<close>.\<close>

definition auth_option ::
    "(client_credentials \<Rightarrow> 'w token_source) \<Rightarrow> gerror option \<Rightarrow> ramp_config \<Rightarrow> string
       \<Rightarrow> gerror + 'w connector_option" where
  "auth_option grant_flow http cc auth =
     (if auth = client_credentials_group then
        Inr (with_token_sources http
          \<lparr>ts_read = grant_flow (credentials cc (read_scopes cc)),
           ts_users_write = Some (grant_flow (credentials cc (users_write_scopes cc))),
           ts_vendors_write = Some (grant_flow (credentials cc (vendors_write_scopes cc))),
           ts_read_scopes = read_scopes cc\<rparr>)
      else if auth = access_token_group then Inr (with_token http (rc_token cc))
      else Inl (Plain [S ''baton-ramp-connector: unknown auth method '', Q auth]))"

definition get_connector ::
    "(client_credentials \<Rightarrow> 'w token_source) \<Rightarrow> gerror option \<Rightarrow> ('w connector \<Rightarrow> gerror + 's)
       \<Rightarrow> ramp_config \<Rightarrow> runtime_opts \<Rightarrow> gerror + 's" where
  "get_connector grant_flow http build cc opts =
     (let auth = (if ro_selected_auth_method opts = [] then access_token_group else ro_selected_auth_method opts)
      in case validate_config cc auth of
           Inl e \<Rightarrow> Inl e
         | Inr _ \<Rightarrow>
           (case auth_option grant_flow http cc auth of
              Inl e \<Rightarrow> Inl e
            | Inr opt \<Rightarrow>
              (case new_connector
                      [with_base_url (rc_base_url cc),
                       with_vendor_agreements (vendor_agreement_enabled (ro_sync_resource_type_ids opts)),
                       with_audit_log_events (rc_audit_log_events cc), opt] of
                 Inl e \<Rightarrow> Inl e
               | Inr cb \<Rightarrow> build cb)))"

section \<open>Facts\<close>

definition config_complete :: "ramp_config \<Rightarrow> string \<Rightarrow> bool" where
  "config_complete cc auth =
     (if auth = client_credentials_group then rc_client_id cc \<noteq> [] \<and> rc_client_secret cc \<noteq> [] else rc_token cc \<noteq> [])"

lemmas config_field_defs =
  ramp_configuration_def configuration_fields_def token_field_def ramp_client_id_field_def ramp_client_secret_field_def
  ramp_base_url_field_def audit_log_events_field_def string_field_def

lemma group_fields_cases:
  "group_fields auth =
     (if auth = client_credentials_group
      then [ramp_client_id_field, ramp_client_secret_field, ramp_base_url_field, audit_log_events_field]
      else [token_field, ramp_base_url_field, audit_log_events_field])"
  by (simp add: group_fields_def ramp_configuration_def configuration_field_groups_def access_token_group_def client_credentials_group_def)

lemma validate_config_iff: "is_ok (validate_config cc auth) \<longleftrightarrow> config_complete cc auth"
  by (simp add: validate_config_def group_fields_cases config_complete_def config_field_defs validate_field_def
      get_string_def get_bool_def find_field_by_tag_def)

end
