(* ===== verification/Feed_Calls.thy ===== *)
theory Feed_Calls
  imports Ramp_Server
begin

text \<open>
  Properties of whole calls of \<open>ListEvents\<close>: the request, the decoding of the answer, the page and the
  token, whatever the server answers.
\<close>

section \<open>A call that succeeds\<close>

definition event_json :: "string \<Rightarrow> string \<Rightarrow> json" where
  "event_json i t = JObj
     [(''id'', JStr i), (''event_type'', JStr ''Merged vendors''), (''event_time'', JStr t),
      (''primary_reference'', JObj [(''id'', JStr ''v1''), (''resource_name'', JStr ''Vendor / Merchant''),
         (''url'', JStr ''/vendors/v1'')])]"

definition feed_json :: json where
  "feed_json = JObj
     [(''page'', JObj [(''next'', JNull)]),
      (''data'', JArr [JArr [event_json ''e2'' ''2025-01-02T03:00:02Z''], event_json ''e1'' ''2025-01-02T03:00:01Z''])]"

lemma event_json_decoded:
  "decode_audit_event (event_json i t) zero_audit_event = Some (sample_event i t)"
  by (simp add: event_json_def decode_audit_event_def key_matches_ascii fold_rune_def dec_pointer_def
      decode_audit_reference_def sample_event_def zero_audit_event_def zero_audit_reference_def)

lemma event_json_ok:
  assumes "ascii i" "ascii t"
  shows "wf_json (event_json i t)" "depth (event_json i t) = 2"
proof -
  have k: "valid_utf8 ''id''" "valid_utf8 ''event_type''" "valid_utf8 ''event_time''" "valid_utf8 ''primary_reference''"
    "valid_utf8 ''resource_name''" "valid_utf8 ''url''" "valid_utf8 ''Merged vendors''" "valid_utf8 ''v1''"
    "valid_utf8 ''Vendor / Merchant''" "valid_utf8 ''/vendors/v1''"
    by (rule valid_utf8_ascii, simp)+
  show "wf_json (event_json i t)" using assms k by (simp add: event_json_def valid_utf8_ascii)
  show "depth (event_json i t) = 2" by (simp add: event_json_def)
qed

definition feed_answer :: audit_events_list where
  "feed_answer = \<lparr>aq_page = \<lparr>pg_next = []\<rparr>, aq_data_raw =
     [JArr [event_json ''e2'' ''2025-01-02T03:00:02Z''], event_json ''e1'' ''2025-01-02T03:00:01Z'']\<rparr>"

lemma feed_json_facts:
  "wf_json feed_json" "depth feed_json \<le> max_nesting"
  "decode_audit_events_list feed_json zero_audit_events_list = Some feed_answer"
  "flatten_audit_events (aq_data_raw feed_answer) =
     Inr [Some (sample_event ''e2'' ''2025-01-02T03:00:02Z''), Some (sample_event ''e1'' ''2025-01-02T03:00:01Z'')]"
proof -
  have k: "valid_utf8 ''page''" "valid_utf8 ''next''" "valid_utf8 ''data''" by (rule valid_utf8_ascii, simp)+
  show "wf_json feed_json" using k by (simp add: feed_json_def event_json_ok)
  show "depth feed_json \<le> max_nesting" by (simp add: feed_json_def event_json_ok max_nesting_def)
  show "decode_audit_events_list feed_json zero_audit_events_list = Some feed_answer"
    by (simp add: feed_json_def decode_audit_events_list_def key_matches_ascii fold_rune_def dec_nested_def
        decode_page_def zero_audit_events_list_def zero_page_def feed_answer_def)
  show "flatten_audit_events (aq_data_raw feed_answer) =
     Inr [Some (sample_event ''e2'' ''2025-01-02T03:00:02Z''), Some (sample_event ''e1'' ''2025-01-02T03:00:01Z'')]"
    by (simp add: feed_answer_def flatten_audit_events_def flatten_entry_def elem_pointer_def event_json_decoded)
      (simp add: event_json_def flatten_entry_def event_json_decoded [unfolded event_json_def])
qed

definition sample_feed :: audit_feed where
  "sample_feed = \<lparr>fd_agreements_enabled = True\<rparr>"

lemma sample_call:
  "\<exists>st. list_events (page_server feed_json sv) (static_client ''secret'') sample_feed None [] c =
     ((Inr (emitted True zero_time {} [sample_event ''e2'' ''2025-01-02T03:00:02Z'', sample_event ''e1'' ''2025-01-02T03:00:01Z''],
        st), [ARateLimit no_limits]), c\<lparr>cn_rate_limit := None\<rparr>)"
proof -
  let ?es = "[sample_event ''e2'' ''2025-01-02T03:00:02Z'', sample_event ''e1'' ''2025-01-02T03:00:01Z'']"
  have d: "decode_event_page_token [] = Inr zero_event_cursor" by (simp add: decode_event_page_token_def)
  have n: "ec_next_page_token zero_event_cursor = []" by (simp add: zero_event_cursor_def)
  have q: "list_audit_log_events (page_server feed_json sv) (static_client ''secret'') audit_log_events_page_size [] c =
      ((Inr (map Some ?es, []), Some no_limits), c\<lparr>cn_rate_limit := None\<rparr>)"
    using list_audit_log_events_page [OF _ feed_json_facts, of "''secret''"] by (simp add: feed_answer_def)
  have f: "feed_floor None zero_event_cursor = (zero_time, {})" by code_simp
  obtain cur' where page: "feed_page True None zero_event_cursor (map Some ?es) [] = Inr (emitted True zero_time {} ?es, cur')"
    using feed_page_total [OF f] by blast
  have ok: "list_all event_ok ?es" by (simp add: event_ok_def sample_event_def valid_utf8_ascii) code_simp
  have "cursor_ok cur'"
    by (rule next_cursor_ok [OF _ _ ok _ page])
      (use zero_cursor_inv in \<open>auto simp: cursor_inv_def floor_ok_def intro: valid_utf8_ascii\<close>)
  then obtain s where e: "encode_event_page_token (Some cur') = Inr s" using decode_encode_cursor by blast
  show ?thesis
    by (simp add: list_events_def d n q [simplified] page [simplified] e sample_feed_def)
qed

section \<open>Properties\<close>

text \<open>C7: A successful call of \<open>ListEvents\<close> asked the audit log for the page its token names, and hands
  out, in order, exactly the change events of that page's events that are new at the floor of its token;
  it reports more pages exactly when the server named a next page and the page gave no reason to stop.\<close>

theorem call_emits:
  assumes "list_events sv cl f earliest tok c = ((Inr (evs, st), annos), c')"
  shows "\<exists>cur es nx rl floor ids.
    decode_event_page_token tok = Inr cur
    \<and> list_audit_log_events sv cl audit_log_events_page_size (ec_next_page_token cur) c = ((Inr (map Some es, nx), rl), c')
    \<and> feed_floor earliest cur = (floor, ids)
    \<and> evs = emitted (fd_agreements_enabled f) floor ids es
    \<and> annos = with_rate_limiting [] rl
    \<and> (ss_has_more st \<longleftrightarrow> nx \<noteq> [] \<and>
         \<not> (timed es \<noteq> [] \<and> descending_from None (timed es) \<and> \<not> is_zero floor
            \<and> list_all (\<lambda>ae. event_time ae \<noteq> None) es \<and> list_all (\<lambda>(ae, t). seen_or_before floor ids ae t) (timed es)))"
proof -
  obtain cur aes nx rl cur' where d: "decode_event_page_token tok = Inr cur"
    and q: "list_audit_log_events sv cl audit_log_events_page_size (ec_next_page_token cur) c = ((Inr (aes, nx), rl), c')"
    and p: "feed_page (fd_agreements_enabled f) earliest cur aes nx = Inr (evs, cur')"
    and more: "ss_has_more st = (ec_next_page_token cur' \<noteq> [])" and an: "annos = with_rate_limiting [] rl"
    using list_events_parts [OF assms] by metis
  obtain floor ids where fi: "feed_floor earliest cur = (floor, ids)" by fastforce
  obtain es acc where es: "aes = map Some es" and acc: "acc_after (fd_agreements_enabled f) floor ids es (initial_acc floor cur) acc"
    and ev: "evs = emitted (fd_agreements_enabled f) floor ids es" and c': "cur' = next_cursor floor ids nx acc"
    using feed_page_cases [OF p fi] by metis
  have "ss_has_more st \<longleftrightarrow> nx \<noteq> [] \<and>
       \<not> (timed es \<noteq> [] \<and> descending_from None (timed es) \<and> \<not> is_zero floor
          \<and> list_all (\<lambda>ae. event_time ae \<noteq> None) es \<and> list_all (\<lambda>(ae, t). seen_or_before floor ids ae t) (timed es))"
    using acc by (simp add: more c' effective_next_def acc_after_def initial_acc_def list_all_iff) blast
  with d q fi ev an es show ?thesis by blast
qed

theorem call_emits_witness:
  "\<forall>(sv :: unit svc) c. \<exists>evs st an c' cur es nx rl floor ids.
     list_events (page_server feed_json sv) (static_client ''secret'') sample_feed None [] c = ((Inr (evs, st), an), c')
     \<and> decode_event_page_token [] = Inr cur
     \<and> list_audit_log_events (page_server feed_json sv) (static_client ''secret'') audit_log_events_page_size
          (ec_next_page_token cur) c = ((Inr (map Some es, nx), rl), c')
     \<and> feed_floor None cur = (floor, ids) \<and> evs = emitted True floor ids es"
proof (intro allI)
  fix sv :: "unit svc" and c
  obtain evs st an c' where call:
    "list_events (page_server feed_json sv) (static_client ''secret'') sample_feed None [] c = ((Inr (evs, st), an), c')"
    using sample_call by blast
  have "fd_agreements_enabled sample_feed" by (simp add: sample_feed_def)
  with call call_emits [OF call] show "\<exists>evs st an c' cur es nx rl floor ids.
     list_events (page_server feed_json sv) (static_client ''secret'') sample_feed None [] c = ((Inr (evs, st), an), c')
     \<and> decode_event_page_token [] = Inr cur
     \<and> list_audit_log_events (page_server feed_json sv) (static_client ''secret'') audit_log_events_page_size
          (ec_next_page_token cur) c = ((Inr (map Some es, nx), rl), c')
     \<and> feed_floor None cur = (floor, ids) \<and> evs = emitted True floor ids es" by auto
qed

text \<open>C19: Whatever the server, the network and the platform do between the calls, a token that the
  platform can come to hold decodes, and the cursor in it is in order: identifiers sorted, distinct and
  not empty, times that can be printed, and a floor only while a page is pending.\<close>

theorem held_token_decodes:
  assumes "feed_token sv cl f tok"
  shows "\<exists>cur. decode_event_page_token tok = Inr cur \<and> cursor_inv cur"
  using assms by (rule feed_token_inv)

theorem held_token_decodes_witness:
  "\<forall>(sv :: unit svc) c. \<exists>evs st an c' cur.
     list_events (page_server feed_json sv) (static_client ''secret'') sample_feed None [] c = ((Inr (evs, st), an), c')
     \<and> decode_event_page_token (ss_cursor st) = Inr cur \<and> cursor_inv cur"
proof (intro allI)
  fix sv :: "unit svc" and c
  obtain evs st an c' where call:
    "list_events (page_server feed_json sv) (static_client ''secret'') sample_feed None [] c = ((Inr (evs, st), an), c')"
    using sample_call by blast
  have "feed_token (page_server feed_json sv) (static_client ''secret'') sample_feed (ss_cursor st)"
    by (rule feed_token.polled [OF feed_token.fresh call])
  from held_token_decodes [OF this] call show "\<exists>evs st an c' cur.
     list_events (page_server feed_json sv) (static_client ''secret'') sample_feed None [] c = ((Inr (evs, st), an), c')
     \<and> decode_event_page_token (ss_cursor st) = Inr cur \<and> cursor_inv cur" by blast
qed

text \<open>One successful call never moves the last time backwards, and its token decodes to a cursor
  whose pending page is what \<open>HasMore\<close> reports.\<close>

lemma call_advances:
  assumes "feed_token sv cl f tok"
    and "list_events sv cl f earliest tok c = ((Inr (evs, st), annos), c')"
  shows "\<exists>cur cur'. decode_event_page_token tok = Inr cur \<and> decode_event_page_token (ss_cursor st) = Inr cur'
           \<and> t_ns (ec_last_event_time cur) \<le> t_ns (ec_last_event_time cur')
           \<and> (ss_has_more st \<longleftrightarrow> ec_next_page_token cur' \<noteq> [])"
  using feed_token_inv [OF assms(1)] list_events_cursor [OF assms(2)] by blast

lemma call_advances_witness:
  "\<forall>(sv :: unit svc) c. \<exists>evs st an c' cur'.
     list_events (page_server feed_json sv) (static_client ''secret'') sample_feed None [] c = ((Inr (evs, st), an), c')
     \<and> decode_event_page_token (ss_cursor st) = Inr cur' \<and> (ss_has_more st \<longleftrightarrow> ec_next_page_token cur' \<noteq> [])"
proof (intro allI)
  fix sv :: "unit svc" and c
  obtain evs st an c' where call:
    "list_events (page_server feed_json sv) (static_client ''secret'') sample_feed None [] c = ((Inr (evs, st), an), c')"
    using sample_call by blast
  from call_advances [OF feed_token.fresh call] call show "\<exists>evs st an c' cur'.
     list_events (page_server feed_json sv) (static_client ''secret'') sample_feed None [] c = ((Inr (evs, st), an), c')
     \<and> decode_event_page_token (ss_cursor st) = Inr cur' \<and> (ss_has_more st \<longleftrightarrow> ec_next_page_token cur' \<noteq> [])" by blast
qed

end
