(* ===== verification/Connector_Claims.thy ===== *)
theory Connector_Claims
  imports Client_Claims Config_Main Feed_Calls
begin

text \<open>
  Properties of the connector as a whole: how a configuration becomes a connector, which resources its
  event feed speaks of, and how the identifiers in audit events meet those of a sync.
\<close>

section \<open>From a configuration to a connector\<close>

definition auth_method :: "runtime_opts \<Rightarrow> string" where
  "auth_method opts = (if ro_selected_auth_method opts = [] then access_token_group else ro_selected_auth_method opts)"

definition configured :: "ramp_config \<Rightarrow> runtime_opts \<Rightarrow> bool" where
  "configured cc opts =
     (auth_method opts \<in> {access_token_group, client_credentials_group} \<and> config_complete cc (auth_method opts))"

definition configured_sources ::
    "(client_credentials \<Rightarrow> 'w token_source) \<Rightarrow> ramp_config \<Rightarrow> runtime_opts \<Rightarrow> 'w token_sources" where
  "configured_sources flow cc opts =
     (if auth_method opts = client_credentials_group then
        \<lparr>ts_read = flow (credentials cc (read_scopes cc)), ts_users_write = Some (flow (credentials cc (users_write_scopes cc))),
         ts_vendors_write = Some (flow (credentials cc (vendors_write_scopes cc))), ts_read_scopes = read_scopes cc\<rparr>
      else \<lparr>ts_read = static_token (rc_token cc), ts_users_write = None, ts_vendors_write = None, ts_read_scopes = []\<rparr>)"

definition configured_connector ::
    "(client_credentials \<Rightarrow> 'w token_source) \<Rightarrow> ramp_config \<Rightarrow> runtime_opts \<Rightarrow> 'w connector" where
  "configured_connector flow cc opts =
     \<lparr>con_client = Some \<lparr>cl_base_url = rc_base_url cc, cl_sources = configured_sources flow cc opts\<rparr>,
      con_base_url = rc_base_url cc,
      con_disable_vendor_agreements = (ro_sync_resource_type_ids opts \<noteq> [] \<and> ''vendor_agreement'' \<notin> set (ro_sync_resource_type_ids opts)),
      con_audit_log_events_enabled = rc_audit_log_events cc\<rparr>"

lemma groups_differ: "access_token_group \<noteq> client_credentials_group"
  by (simp add: access_token_group_def client_credentials_group_def)

lemma vendor_agreement_enabled_iff:
  "vendor_agreement_enabled ids \<longleftrightarrow> ids = [] \<or> ''vendor_agreement'' \<in> set ids"
  by (auto simp: vendor_agreement_enabled_def list_ex_iff)

lemma get_connector_configured:
  "if configured cc opts then get_connector flow None build cc opts = build (configured_connector flow cc opts)
   else \<exists>e. \<forall>b. get_connector flow None b cc opts = Inl e"
proof (cases "configured cc opts")
  case True
  then have v: "is_ok (validate_config cc (auth_method opts))" by (simp add: validate_config_iff configured_def)
  then obtain u where u: "validate_config cc (auth_method opts) = Inr u" by (auto simp: is_ok_iff)
  have m: "auth_method opts = client_credentials_group \<or> auth_method opts = access_token_group"
    using True by (auto simp: configured_def)
  have "get_connector flow None build cc opts = build (configured_connector flow cc opts)"
    unfolding get_connector_def auth_method_def [symmetric] Let_def u sum.case
    using m groups_differ
    by (elim disjE)
      (simp_all add: auth_option_def new_connector_def with_base_url_def with_vendor_agreements_def with_audit_log_events_def
        with_token_client zero_connector_def configured_connector_def configured_sources_def vendor_agreement_enabled_iff
        new_client_def new_with_token_sources_def)
  with True show ?thesis by simp
next
  case False
  have "\<exists>e. \<forall>b. get_connector flow None b cc opts = Inl e"
  proof (cases "validate_config cc (auth_method opts)")
    case (Inl e)
    then show ?thesis by (simp add: get_connector_def auth_method_def [symmetric])
  next
    case (Inr u)
    then have "config_complete cc (auth_method opts)" using validate_config_iff [of cc "auth_method opts"] by simp
    with False have "auth_method opts \<noteq> access_token_group" "auth_method opts \<noteq> client_credentials_group"
      by (auto simp: configured_def)
    then show ?thesis using Inr by (simp add: get_connector_def auth_method_def [symmetric] auth_option_def)
  qed
  with False show ?thesis by simp
qed

text \<open>A configuration gives a connector exactly when the required fields of a known authentication method
  are filled; it then is the connector with the configured base URL, token sources and flags, handed to the
  SDK's builder as it is. Otherwise the builder is not called.\<close>

lemma connector_of_configuration:
  "if configured cc opts then get_connector flow None build cc opts = build (configured_connector flow cc opts)
   else \<exists>e. \<forall>b. get_connector flow None b cc opts = Inl e"
  by (rule get_connector_configured)

section \<open>Events and resources\<close>

definition synced_types :: "'w connector \<Rightarrow> string set" where
  "synced_types d = rt_id ` syncer_resource_type ` set (resource_syncers d)"

lemma synced_types_eq:
  "synced_types d = {user_resource_type_id, role_resource_type_id, vendor_resource_type_id}
     \<union> (if con_disable_vendor_agreements d then {} else {vendor_agreement_resource_type_id})"
  by (auto simp: synced_types_def resource_syncers_def syncer_resource_type_def builder_defs)

lemma target_type:
  "audit_event_resource_target r = (rt, i) \<Longrightarrow> i \<noteq> [] \<Longrightarrow> rt = vendor_agreement_resource_type_id \<or> rt = vendor_resource_type_id"
  by (auto simp: audit_event_resource_target_def split: option.splits if_splits)

definition about_synced :: "bool \<Rightarrow> change_event \<Rightarrow> bool" where
  "about_synced enabled ev =
     (ev_resource ev \<noteq> [] \<and> (ev_resource_type ev = vendor_resource_type_id
        \<or> (enabled \<and> ev_resource_type ev = vendor_agreement_resource_type_id)))"

lemma change_event_about: "to_resource_change_event enabled ae t = Some ev \<Longrightarrow> about_synced enabled ev"
  by (auto simp: to_resource_change_event_def about_synced_def dest: target_type split: prod.splits if_splits)

lemma feed_step_events:
  "feed_step enabled floor ids acc ae = Inr acc' \<Longrightarrow> list_all (about_synced enabled) (fa_events acc) \<Longrightarrow>
     list_all (about_synced enabled) (fa_events acc')"
  by (auto simp: feed_step_def Let_def dest: change_event_about split: option.splits if_splits)

lemma feed_loop_events:
  "feed_loop enabled floor ids acc aes = Inr acc' \<Longrightarrow> list_all (about_synced enabled) (fa_events acc) \<Longrightarrow>
     list_all (about_synced enabled) (fa_events acc')"
  by (induction aes arbitrary: acc) (auto dest: feed_step_events split: sum.splits)

lemma list_events_about:
  assumes "list_events sv cl f earliest token c = ((Inr (evs, ss), annos), c')"
  shows "list_all (about_synced (fd_agreements_enabled f)) evs"
  using assms
  by (auto simp: list_events_def feed_page_def Let_def initial_acc_def dest!: feed_loop_events
      split: sum.splits prod.splits)

text \<open>C8: Every event a feed of the connector gives names a resource, of a type that the connector also
  syncs: no event speaks of an agreement when agreements are not synced.\<close>

theorem events_are_about_synced_types:
  assumes "(cl0, f) \<in> set (event_feeds d)"
    and "list_events sv cl f earliest token c = ((Inr (evs, ss), annos), c')" "ev \<in> set evs"
  shows "ev_resource_type ev \<in> synced_types d \<and> ev_resource ev \<noteq> []"
proof -
  have f: "fd_agreements_enabled f = (\<not> con_disable_vendor_agreements d)"
    using assms(1) by (auto simp: event_feeds_def split: if_splits)
  have "about_synced (fd_agreements_enabled f) ev" using list_events_about [OF assms(2)] assms(3) by (simp add: list_all_iff)
  then show ?thesis by (auto simp: f about_synced_def synced_types_eq)
qed

definition auditing_connector :: "'w connector" where
  "auditing_connector = \<lparr>con_client = Some (static_client ''secret''), con_base_url = ramp_origin,
     con_disable_vendor_agreements = False, con_audit_log_events_enabled = True\<rparr>"

lemma sample_events_emitted:
  "emitted True zero_time {} [sample_event ''e2'' ''2025-01-02T03:00:02Z'', sample_event ''e1'' ''2025-01-02T03:00:01Z''] \<noteq> []"
  by code_simp

theorem events_are_about_synced_types_witness:
  "\<forall>(sv :: unit svc) c. \<exists>evs ss annos c' ev.
     list_events (page_server feed_json sv) (static_client ''secret'') sample_feed None [] c = ((Inr (evs, ss), annos), c')
     \<and> ev \<in> set evs \<and> ev_resource_type ev \<in> synced_types (auditing_connector :: unit connector) \<and> ev_resource ev \<noteq> []"
proof (intro allI)
  fix sv :: "unit svc" and c
  let ?evs = "emitted True zero_time {} [sample_event ''e2'' ''2025-01-02T03:00:02Z'', sample_event ''e1'' ''2025-01-02T03:00:01Z'']"
  obtain ss where call: "list_events (page_server feed_json sv) (static_client ''secret'') sample_feed None [] c =
      ((Inr (?evs, ss), [ARateLimit no_limits]), c\<lparr>cn_rate_limit := None\<rparr>)" using sample_call by blast
  obtain ev where ev: "ev \<in> set ?evs" using sample_events_emitted by (meson last_in_set)
  have f: "(Some (static_client ''secret''), sample_feed) \<in> set (event_feeds (auditing_connector :: unit connector))"
    by (simp add: event_feeds_def auditing_connector_def sample_feed_def)
  from events_are_about_synced_types [OF f call ev] call ev show "\<exists>evs ss annos c' ev.
     list_events (page_server feed_json sv) (static_client ''secret'') sample_feed None [] c = ((Inr (evs, ss), annos), c')
     \<and> ev \<in> set evs \<and> ev_resource_type ev \<in> synced_types (auditing_connector :: unit connector) \<and> ev_resource ev \<noteq> []"
    by blast
qed

section \<open>Identifiers of agreements in URLs\<close>

lemma go_index_append: "go_index s p = Some n \<Longrightarrow> go_index (s @ t) p = Some n"
proof (induction s p arbitrary: n rule: go_index.induct)
  case (1 p)
  then show ?case by (cases t) (auto simp: has_prefix_def split: if_splits)
next
  case (2 c s p)
  show ?case
  proof (cases "has_prefix (c # s) p")
    case True
    then obtain v where "c # s = p @ v" by (auto simp: has_prefix_iff)
    then have "has_prefix (c # s @ t) p" by (metis append_Cons append_assoc has_prefix_append)
    with "2.prems" True show ?thesis by simp
  next
    case False
    with "2.prems" obtain m where m: "go_index s p = Some m" "n = Suc m" by auto
    have "\<not> has_prefix (c # s @ t) p"
    proof -
      from go_index_SomeD [OF m(1)] obtain v where "s = take m s @ p @ v" "m \<le> length s" by blast
      then have "length p \<le> length s" by (metis le_add1 le_add2 le_trans length_append)
      then have "take (length p) (c # s @ t) = take (length p) (c # s)" by (cases p) auto
      with False show ?thesis by (auto simp: has_prefix_def)
    qed
    then show ?thesis using "2.IH" [OF False m(1)] m(2) by simp
  qed
qed

lemma segment_end:
  "c \<in> set ''/?#'' \<Longrightarrow> should_escape EncPathSegment c"
  "c \<in> set ''/?#'' \<Longrightarrow> \<not> is_alnum c"
  by (simp_all only: list.set insert_iff empty_iff HOL.simp_thms) (elim disjE, (hypsubst, code_simp)+)+

lemma escaped_char_set: "set (escape_char EncPathSegment c) \<inter> set ''/?#'' = {}"
proof (cases "should_escape EncPathSegment c")
  case True
  have "upper_hex d \<notin> set ''/?#''" if "d < 16" for d using upper_hex_alnum [OF that] segment_end(2) by blast
  moreover have "byte c div 16 < 16" "byte c mod 16 < 16"
    using byte_bound [of c] by (simp_all add: less_mult_imp_div_less)
  moreover have "escape_char EncPathSegment c = [CHR ''%'', upper_hex (byte c div 16), upper_hex (byte c mod 16)]"
    using True by (simp add: escape_char_def)
  ultimately show ?thesis by simp
next
  case False
  then have "c \<notin> set ''/?#''" using segment_end(1) by blast
  with False show ?thesis by (simp add: escape_char_def)
qed

lemma segment_chars: "set (url_escape EncPathSegment i) \<inter> set ''/?#'' = {}"
  using escaped_char_set by (induction i) (simp_all add: url_escape_def Int_Un_distrib2)

text \<open>C28: The identifier of an agreement survives its URLs: whatever the server wrote before the first
  \<open>/contracts/\<close> and behind the escaped identifier, an audit event that refers to such a URL is about the
  agreement with that identifier. The deep link a sync puts on an agreement
  holds the identifier as it is: it is such a URL for the identifiers that need no escaping.\<close>

theorem agreement_id_survives_urls:
  assumes "go_index (b @ contracts_marker) contracts_marker = Some (length b)"
    and "i \<noteq> []" "tail = [] \<or> hd tail \<in> set ''/?#''"
  shows "audit_event_resource_target (Some (r\<lparr>af_url := b @ contracts_marker @ url_escape EncPathSegment i @ tail\<rparr>)) =
     (vendor_agreement_resource_type_id, i)"
proof -
  let ?e = "url_escape EncPathSegment i"
  have ix: "go_index (b @ contracts_marker @ ?e @ tail) contracts_marker = Some (length b)"
    using go_index_append [OF assms(1), of "?e @ tail"] by simp
  have ne: "?e \<noteq> []" using assms(2) by (cases i) (simp_all add: url_escape_def escape_char_def)
  have cut: "(case go_index_any (?e @ tail) ''/?#'' of Some n \<Rightarrow> take n (?e @ tail) | None \<Rightarrow> ?e @ tail) = ?e"
  proof (cases tail)
    case Nil
    then show ?thesis using segment_chars [of i] go_index_any_None [of ?e "''/?#''"] by simp
  next
    case (Cons c t)
    then have "go_index_any tail ''/?#'' = Some 0" using assms(3) by simp
    then show ?thesis using go_index_any_append [OF segment_chars [of i], of tail] by simp
  qed
  have "agreement_id_from_url (b @ contracts_marker @ ?e @ tail) = i"
  proof -
    have d: "drop (length b + length contracts_marker) (b @ contracts_marker @ ?e @ tail) = ?e @ tail" by simp
    have "?e @ tail \<noteq> []" using ne by simp
    then show ?thesis
      unfolding agreement_id_from_url_def ix option.case Let_def d cut using ne by (simp add: path_unescape_def)
  qed
  then show ?thesis by (simp add: audit_event_resource_target_def is_agreement_url_def go_contains_def ix)
qed

theorem agreement_id_survives_urls_witness:
  "audit_event_resource_target (Some (zero_audit_reference\<lparr>af_url := agreement_deep_link_url ''agr-1''\<rparr>)) =
     (vendor_agreement_resource_type_id, ''agr-1'')"
proof -
  have i: "go_index (''https://app.ramp.com'' @ contracts_marker) contracts_marker = Some (length ''https://app.ramp.com'')"
    by code_simp
  have l: "agreement_deep_link_url ''agr-1'' = ''https://app.ramp.com'' @ contracts_marker @ url_escape EncPathSegment ''agr-1'' @ []"
    by code_simp
  show ?thesis unfolding l by (rule agreement_id_survives_urls [OF i]) simp_all
qed

section \<open>What the write scopes are for\<close>

definition configured_client ::
    "(client_credentials \<Rightarrow> 'w token_source) \<Rightarrow> ramp_config \<Rightarrow> runtime_opts \<Rightarrow> 'w client" where
  "configured_client flow cc opts = the (con_client (configured_connector flow cc opts))"

lemma configured_client_eq:
  "configured_client flow cc opts = \<lparr>cl_base_url = rc_base_url cc, cl_sources = configured_sources flow cc opts\<rparr>"
  by (simp add: configured_client_def configured_connector_def)

lemma other_write_flow:
  assumes "flow' (credentials cc (read_scopes cc)) = flow (credentials cc (read_scopes cc))"
  obtains x y where "configured_client flow' cc opts = with_write_sources (configured_client flow cc opts) x y"
  by (rule that [of "ts_users_write (configured_sources flow' cc opts)" "ts_vendors_write (configured_sources flow' cc opts)"])
    (simp add: configured_client_eq with_write_sources_def configured_sources_def assms)

text \<open>C11: A connector reads with the read scopes alone: however the token endpoint answers the requests for
  write scopes, the validation, every list, fetch and grant listing and the event feed send the same
  requests and give the same results.\<close>

theorem write_scopes_serve_writes_only:
  assumes "flow' (credentials cc (read_scopes cc)) = flow (credentials cc (read_scopes cc))"
  shows "(let cl = configured_client flow cc opts; cl' = configured_client flow' cc opts in
     connector_validate sv (configured_connector flow' cc opts) c = connector_validate sv (configured_connector flow cc opts) c
     \<and> user_list sv cl' tok c = user_list sv cl tok c
     \<and> role_grants sv cl' r tok c = role_grants sv cl r tok c
     \<and> vendor_list sv cl' tok m c = vendor_list sv cl tok m c
     \<and> vendor_get sv cl' i c = vendor_get sv cl i c
     \<and> vendor_grants sv cl' r m c = vendor_grants sv cl r m c
     \<and> agreement_list sv cl' tok n c = agreement_list sv cl tok n c
     \<and> agreement_get sv cl' i c = agreement_get sv cl i c
     \<and> agreement_grants sv cl' r n c = agreement_grants sv cl r n c
     \<and> list_events sv cl' f earliest tok c = list_events sv cl f earliest tok c)"
proof -
  obtain x y where xy: "configured_client flow' cc opts = with_write_sources (configured_client flow cc opts) x y"
    using other_write_flow [where flow = flow and flow' = flow' and cc = cc, OF assms] by blast
  have v: "connector_validate sv (configured_connector fl cc opts) c =
      (case list_users sv (configured_client fl cc opts) [] c of
         ((r, rl), c') \<Rightarrow> ((case r of Inl e \<Rightarrow> Inl (Wrap [S ''baton-ramp: validate failed: ''] e []) | Inr _ \<Rightarrow> Inr (),
            with_rate_limiting [] rl), c'))" for fl
    by (simp add: connector_validate_def configured_client_def configured_connector_def Let_def split: prod.split sum.split)
  show ?thesis
    unfolding Let_def v xy user_list_def list_users_def list_users_by_role_def role_grants_def vendor_list_def vendor_get_def
      vendor_grants_def agreement_list_def agreement_get_def agreement_grants_def list_events_def reads_ignore_write_sources
    by (intro conjI refl)
qed

definition read_only_flow :: "client_credentials \<Rightarrow> 'w token_source" where
  "read_only_flow cr w =
     (if set (cc_scopes cr) \<inter> {''users:write'', ''vendors:write''} = {} then (Inr ''read'', w)
      else (Inl (Retrieve scope_refused), w))"

definition read_config :: ramp_config where
  "read_config = \<lparr>rc_token = [], rc_client_id = ''id'', rc_client_secret = ''secret'', rc_base_url = ramp_origin,
     rc_audit_log_events = True\<rparr>"

definition credentials_opts :: runtime_opts where
  "credentials_opts = \<lparr>ro_selected_auth_method = client_credentials_group, ro_sync_resource_type_ids = []\<rparr>"

theorem write_scopes_serve_writes_only_witness:
  "\<forall>(sv :: unit svc) c m. vendor_list sv (configured_client read_only_flow read_config credentials_opts) [] m c =
       vendor_list sv (configured_client (\<lambda>cr w. (Inr ''read'', w)) read_config credentials_opts) [] m c"
proof (intro allI)
  fix sv :: "unit svc" and c m
  have s: "set (cc_scopes (credentials read_config (read_scopes read_config))) \<inter> {''users:write'', ''vendors:write''} = {}"
    by (simp add: credentials_def read_scopes_def base_ramp_oauth_scopes_def audit_logs_scope_def)
  have "read_only_flow (credentials read_config (read_scopes read_config)) =
      (\<lambda>cr w. (Inr ''read'', w)) (credentials read_config (read_scopes read_config))"
    by (intro ext) (simp add: read_only_flow_def s)
  from write_scopes_serve_writes_only [where flow = "\<lambda>cr w. (Inr ''read'', w)" and flow' = read_only_flow and cc = read_config,
      OF this, of credentials_opts sv c]
  show "vendor_list sv (configured_client read_only_flow read_config credentials_opts) [] m c =
       vendor_list sv (configured_client (\<lambda>cr w. (Inr ''read'', w)) read_config credentials_opts) [] m c"
    unfolding Let_def by blast
qed

section \<open>Actions\<close>

text \<open>What an action on a user may do: without a user identifier fail and leave everything as it is, else make
  the one request and say whether it succeeded.\<close>

definition action_outcome ::
    "(string \<Rightarrow> unit reply \<times> 'w conn) \<Rightarrow> proto_fields \<Rightarrow> 'w conn \<Rightarrow> action_reply \<times> 'w conn \<Rightarrow> bool" where
  "action_outcome request args c out =
     (case map_of args ''user_id'' of
        Some (VString (x # xs)) \<Rightarrow>
          (case request (x # xs) of
             ((r, rl), c') \<Rightarrow> snd out = c' \<and> ac_fields (fst out) = Some [(action_return_success, VBool (is_ok r))]
               \<and> (ac_error (fst out) = None) = is_ok r \<and> ac_annos (fst out) = with_rate_limiting [] rl)
      | _ \<Rightarrow> snd out = c \<and> ac_fields (fst out) = None \<and> ac_error (fst out) \<noteq> None)"

lemma require_user_id_cases:
  "require_user_id args = Inr u \<Longrightarrow> \<exists>x xs. u = x # xs \<and> map_of args ''user_id'' = Some (VString (x # xs))"
  "require_user_id args = Inl e \<Longrightarrow> \<not> (\<exists>x xs. map_of args ''user_id'' = Some (VString (x # xs)))"
  by (auto simp: require_user_id_def string_value_def neq_Nil_conv split: option.splits proto_value.splits if_splits)

lemma finish_action_outcome:
  "ac_fields (finish_action doing (r, rl)) = Some [(action_return_success, VBool (is_ok r))]"
  "(ac_error (finish_action doing (r, rl)) = None) = is_ok r" "ac_annos (finish_action doing (r, rl)) = with_rate_limiting [] rl"
  by (cases r; simp add: finish_action_def Let_def)+

text \<open>C32: The two actions on a user do what they report: without a non-empty string \<open>user_id\<close> they fail and
  send nothing; else they make exactly the one request for that user, and the success flag, the error and
  the rate limit are those of that request.\<close>

theorem actions_report_what_happened:
  "action_outcome (\<lambda>u. deactivate_user sv cl u c) args c (handle_disable_user sv cl args c)
   \<and> action_outcome (\<lambda>u. reactivate_user sv cl u c) args c (handle_enable_user sv cl args c)"
proof (cases "require_user_id args")
  case (Inl e)
  then show ?thesis using require_user_id_cases(2) [OF Inl]
    by (auto simp: action_outcome_def handle_disable_user_def handle_enable_user_def
        split: option.split proto_value.split list.split)
next
  case (Inr u)
  then show ?thesis using require_user_id_cases(1) [OF Inr]
    by (auto simp: action_outcome_def handle_disable_user_def handle_enable_user_def finish_action_outcome split: prod.split)
qed

end
