(* ===== verification/Feed_Order.thy ===== *)
theory Feed_Order
  imports Feed_Polls
begin

text \<open>
  What the order of the audit log decides: a poll over pages that are only not newer, and a whole history
  of polls over a log that grows, in which every event is delivered exactly once.
\<close>

section \<open>Pages that are only not newer\<close>

text \<open>No event of a later page is newer than an event of an earlier one; ties are possible.\<close>

fun pages_not_newer :: "(audit_event list \<times> string) list \<Rightarrow> bool" where
  "pages_not_newer [] = True"
| "pages_not_newer ((es, next) # ps) =
     (list_all (\<lambda>(_, t). list_all (\<lambda>(_, u). \<not> after u t) (timed (shown ps))) (timed es) \<and> pages_not_newer ps)"

text \<open>An event that would be delivered lies exactly at the floor.\<close>

definition silent_or_tie :: "bool \<Rightarrow> gotime \<Rightarrow> string set \<Rightarrow> audit_event \<Rightarrow> bool" where
  "silent_or_tie enabled floor ids ae =
     (emits enabled floor ids ae = None
      \<or> (case event_time ae of Some t \<Rightarrow> time_eq t floor | None \<Rightarrow> False))"

lemma seen_or_before_floor: "seen_or_before floor ids ae t \<Longrightarrow> \<not> is_zero floor \<and> t_ns t \<le> t_ns floor"
  by (auto simp: seen_or_before_def after_def)

lemma silent_or_tie_le:
  assumes "event_time ae = Some t" "\<not> is_zero floor" "t_ns t \<le> t_ns floor"
  shows "silent_or_tie enabled floor ids ae"
proof (cases "t_ns t = t_ns floor")
  case True
  with assms show ?thesis by (simp add: silent_or_tie_def time_eq_def)
next
  case False
  with assms have "already_seen floor ids ae t" by (simp add: already_seen_def before_def)
  with assms show ?thesis by (simp add: silent_or_tie_def emits_def)
qed

text \<open>What the early stop drops is silent or a tie.\<close>

lemma stop_early_ties:
  assumes acc: "acc_after enabled floor ids es (initial_acc floor cur) acc"
    and stop: "next \<noteq> []" "effective_next next acc = []"
    and order: "\<And>ae t be u. (ae, t) \<in> set (timed es) \<Longrightarrow> (be, u) \<in> set (timed later) \<Longrightarrow> \<not> after u t"
  shows "list_all (silent_or_tie enabled floor ids) later"
proof -
  from stop have e: "fa_parsed acc" "fa_all_before acc" by (auto simp: effective_next_def split: if_splits)
  from e(1) acc have "timed es \<noteq> []" by (simp add: acc_after_def initial_acc_def)
  then obtain ae t where at: "(ae, t) \<in> set (timed es)" by (cases "timed es") auto
  from e(2) acc at have "seen_or_before floor ids ae t" by (auto simp: acc_after_def)
  note le = seen_or_before_floor [OF this]
  show ?thesis unfolding list_all_iff
  proof
    fix be assume be: "be \<in> set later"
    show "silent_or_tie enabled floor ids be"
    proof (cases "event_time be")
      case None
      then show ?thesis by (simp add: silent_or_tie_def emits_def)
    next
      case (Some u)
      with order [OF at] be have "\<not> after u t" by (simp add: timed_event)
      with le Some show ?thesis by (intro silent_or_tie_le) (auto simp: after_def)
    qed
  qed
qed

lemma same_floor_ties:
  assumes "same_floor (f, i) (g, j)" "list_all (silent_or_tie enabled f i) es"
  shows "list_all (silent_or_tie enabled g j) es"
proof -
  have "emits enabled f i = emits enabled g j"
    using assms(1) by (intro ext) (auto simp: same_floor_def emits_def already_seen_def split: option.splits)
  moreover have "time_eq t f = time_eq t g" for t
    using assms(1) by (auto simp: same_floor_def is_zero_def time_eq_def)
  ultimately show ?thesis using assms(2) by (simp add: silent_or_tie_def list_all_iff cong: option.case_cong)
qed

lemma poll_pages_ties:
  assumes "pages_linked ps" "pages_not_newer ps" "ps \<noteq> []" "earliest_valid earliest"
    and "feed_floor earliest cur = (floor, ids)"
  shows "\<exists>n cur'. poll_pages enabled earliest cur ps = Inr (emitted enabled floor ids (shown (take n ps)), cur')
           \<and> ec_next_page_token cur' = [] \<and> list_all (silent_or_tie enabled floor ids) (shown (drop n ps))"
  using assms
proof (induction ps arbitrary: cur floor ids)
  case (Cons p ps)
  obtain es nx where p: "p = (es, nx)" by fastforce
  obtain cur' where page: "feed_page enabled earliest cur (map Some es) nx = Inr (emitted enabled floor ids es, cur')"
    using feed_page_total [OF Cons.prems(5)] by blast
  obtain acc where acc: "acc_after enabled floor ids es (initial_acc floor cur) acc"
    and c': "cur' = next_cursor floor ids nx acc"
    using feed_page_cases [OF page Cons.prems(5)] by (metis inj_map_eq_map inj_Some)
  show ?case
  proof (cases "ec_next_page_token cur' = []")
    case True
    have "list_all (silent_or_tie enabled floor ids) (shown ps)"
    proof (cases "nx = []")
      case True
      with Cons.prems(1) show ?thesis by (simp add: p)
    next
      case False
      show ?thesis
        by (rule stop_early_ties [OF acc False]) (use True c' Cons.prems(2) in \<open>auto simp: p list_all_iff\<close>)
    qed
    with True page show ?thesis by (intro exI [of _ 1] exI [of _ cur']) (simp add: p)
  next
    case False
    then have "nx \<noteq> []" by (auto simp: c' effective_next_def split: if_splits)
    then have ps: "ps \<noteq> []" using Cons.prems(1) by (simp add: p)
    obtain f i where fi: "feed_floor earliest cur' = (f, i)" by fastforce
    have same: "same_floor (f, i) (floor, ids)"
      using floor_next [OF page False Cons.prems(5) Cons.prems(4)] fi by simp
    obtain n cur'' where "poll_pages enabled earliest cur' ps = Inr (emitted enabled f i (shown (take n ps)), cur'')"
      "ec_next_page_token cur'' = []" "list_all (silent_or_tie enabled f i) (shown (drop n ps))"
      using Cons.IH [OF _ _ ps Cons.prems(4) fi] Cons.prems(1,2) by (auto simp: p)
    with page False same_floor_emitted [OF same] same_floor_ties [OF same] show ?thesis
      by (intro exI [of _ "Suc n"] exI [of _ cur'']) (simp add: p emitted_append)
  qed
qed simp

section \<open>A history of polls\<close>

text \<open>The platform polls again and again, each time from the cursor of the last poll.\<close>

fun polls ::
    "bool \<Rightarrow> timestamp option \<Rightarrow> event_cursor \<Rightarrow> (audit_event list \<times> string) list list
       \<Rightarrow> gerror + (change_event list \<times> event_cursor)" where
  "polls enabled earliest cur [] = Inr ([], cur)"
| "polls enabled earliest cur (ps # pss) =
     (case poll_pages enabled earliest cur ps of
        Inl e \<Rightarrow> Inl e
      | Inr (evs, cur') \<Rightarrow>
        (case polls enabled earliest cur' pss of
           Inl e \<Rightarrow> Inl e | Inr (evs', cur'') \<Rightarrow> Inr (evs @ evs', cur'')))"

text \<open>An event is new against a list of events when it is not before any of them and is told apart, by
  a nonempty identifier, from those at its own time.\<close>

definition new_against :: "audit_event list \<Rightarrow> audit_event \<Rightarrow> bool" where
  "new_against old ae =
     (case event_time ae of None \<Rightarrow> True
      | Some t \<Rightarrow> ae_id ae \<noteq> []
          \<and> list_all (\<lambda>(be, u). before u t \<or> (time_eq u t \<and> ae_id be \<noteq> ae_id ae)) (timed old))"

text \<open>Every poll is shown pages that get strictly older, over events shown before and new ones that lie
  after the platform's earliest time.\<close>

definition after_earliest :: "timestamp option \<Rightarrow> audit_event list \<Rightarrow> bool" where
  "after_earliest earliest es = list_all (\<lambda>(_, t). 0 < t_ns t
     \<and> (case earliest of None \<Rightarrow> True | Some ts \<Rightarrow> before (as_time ts) t)) (timed es)"

fun log_grows :: "timestamp option \<Rightarrow> audit_event list \<Rightarrow> (audit_event list \<times> string) list list \<Rightarrow> bool" where
  "log_grows earliest old [] = True"
| "log_grows earliest old (ps # pss) =
     (ps \<noteq> [] \<and> pages_linked ps \<and> pages_older ps \<and> after_earliest earliest (shown ps)
      \<and> list_all (\<lambda>ae. ae \<in> set old \<or> new_against old ae) (shown ps)
      \<and> log_grows earliest (old @ shown ps) pss)"

text \<open>The events in the order in which they are shown for the first time.\<close>

fun first_shown :: "audit_event list \<Rightarrow> (audit_event list \<times> string) list list \<Rightarrow> audit_event list" where
  "first_shown old [] = []"
| "first_shown old (ps # pss) = filter (\<lambda>ae. ae \<notin> set old) (shown ps) @ first_shown (old @ shown ps) pss"

lemma latest_append: "latest z (xs @ ys) = latest (latest z xs) ys"
  by (simp add: latest_def)

lemma ids_at_append: "ids_at z (xs @ ys) = ids_at z xs \<union> ids_at z ys"
  by (auto simp: ids_at_def)

lemma latest_le: "(\<And>ae t. (ae, t) \<in> set (timed es) \<Longrightarrow> t_ns t \<le> z) \<Longrightarrow> latest z es = z"
proof (induction es)
  case (Cons ae es)
  show ?case
  proof (cases "event_time ae")
    case (Some t)
    with Cons.prems [of ae t] have "max z (t_ns t) = z" by simp
    moreover have "latest z es = z"
    proof (rule Cons.IH)
      show "t_ns u \<le> z" if "(be, u) \<in> set (timed es)" for be u
        using Cons.prems [of be u] that Some by simp
    qed
    ultimately show ?thesis using Some by simp
  qed (use Cons in simp)
qed simp

lemma ids_at_before: "(\<And>ae t. (ae, t) \<in> set (timed es) \<Longrightarrow> t_ns t < z) \<Longrightarrow> ids_at z es = {}"
  by (fastforce simp: ids_at_def)

lemma ids_at_later: "latest z xs < y \<Longrightarrow> ids_at y xs = {}"
  by (rule ids_at_before) (meson latest_upper le_less_trans)

lemma latest_attained: "latest z es = z \<or> (\<exists>ae t. (ae, t) \<in> set (timed es) \<and> t_ns t = latest z es)"
proof (induction es arbitrary: z)
  case (Cons ae es)
  show ?case
  proof (cases "event_time ae")
    case (Some t)
    from Cons [of "max z (t_ns t)"] consider "latest (max z (t_ns t)) es = max z (t_ns t)"
      | be u where "(be, u) \<in> set (timed es)" "t_ns u = latest (max z (t_ns t)) es" by blast
    then show ?thesis
    proof cases
      case 1
      then show ?thesis using Some by (cases "t_ns t \<le> z") auto
    next
      case 2
      then show ?thesis using Some by auto
    qed
  qed (use Cons [of z] in simp)
qed simp

definition last_exact :: "event_cursor \<Rightarrow> audit_event list \<Rightarrow> bool" where
  "last_exact cur old =
     (t_ns (ec_last_event_time cur) = latest 0 old
      \<and> set (ec_last_event_ids cur) = ids_at (latest 0 old) old)"

lemma ids_at_not_empty: "[] \<notin> ids_at z es"
  by (simp add: ids_at_def)

lemma event_id_set_exact: "set ids = ids_at z es \<Longrightarrow> event_id_set ids = ids_at z es"
  using ids_at_not_empty [of z es] by (auto simp: event_id_set_def)

lemma page_exact:
  assumes page: "feed_page enabled earliest cur (map Some es) nx = Inr (evs, cur')" and old: "last_exact cur old"
  shows "last_exact cur' (old @ es)"
proof -
  obtain f i where fi: "feed_floor earliest cur = (f, i)" by fastforce
  obtain acc where acc: "acc_after enabled f i es (initial_acc f cur) acc" and c': "cur' = next_cursor f i nx acc"
    using feed_page_cases [OF page fi] by (metis inj_map_eq_map inj_Some)
  note nl = next_cursor_last [OF acc]
  let ?a = "latest 0 old" and ?m = "latest 0 (old @ es)"
  have last: "t_ns (ec_last_event_time cur) = ?a" "event_id_set (ec_last_event_ids cur) = ids_at ?a old"
    using old by (simp_all add: last_exact_def event_id_set_exact)
  have m: "t_ns (fa_max_time acc) = ?m" using nl(1) last(1) by (simp add: latest_append)
  have "?a \<le> ?m" by (simp add: latest_append latest_ge)
  then have o: "(if ?m = ?a then ids_at ?a old else {}) = ids_at ?m old"
    using ids_at_later [of 0 old ?m] by auto
  have "fa_max_ids acc = ids_at ?m (old @ es)"
    using nl(2) unfolding m last o ids_at_append .
  with m nl(3) show ?thesis by (simp add: c' last_exact_def sorted_event_ids_def)
qed

lemma older_exact:
  assumes "last_exact cur old" "(ae, t) \<in> set (timed old)" "\<And>be u. (be, u) \<in> set (timed later) \<Longrightarrow> before u t"
  shows "last_exact cur (old @ later)"
proof -
  let ?a = "latest 0 old"
  have lt: "t_ns u < ?a" if "(be, u) \<in> set (timed later)" for be u
    using assms(3) [OF that] latest_upper [OF assms(2), of 0] by (simp add: before_def)
  have "latest ?a later = ?a" by (rule latest_le) (use lt in fastforce)
  moreover have "ids_at ?a later = {}" by (rule ids_at_before) (rule lt)
  ultimately show ?thesis using assms(1) by (simp add: last_exact_def latest_append ids_at_append)
qed

lemma poll_exact:
  assumes "pages_linked ps" "pages_older ps" "poll_pages enabled earliest cur ps = Inr (evs, cur')" "last_exact cur old"
  shows "last_exact cur' (old @ shown ps)"
  using assms
proof (induction ps arbitrary: cur evs old)
  case (Cons p ps)
  obtain es nx where p: "p = (es, nx)" by fastforce
  obtain evs1 cur1 where page: "feed_page enabled earliest cur (map Some es) nx = Inr (evs1, cur1)"
    using Cons.prems(3) by (auto simp: p split: sum.splits)
  note ex = page_exact [OF page Cons.prems(4)]
  show ?case
  proof (cases "ec_next_page_token cur1 = []")
    case True
    then have c': "cur' = cur1" using Cons.prems(3) page by (simp add: p)
    show ?thesis
    proof (cases "nx = []")
      case True
      with Cons.prems(1) ex c' show ?thesis by (simp add: p)
    next
      case False
      obtain f i where fi: "feed_floor earliest cur = (f, i)" by fastforce
      obtain acc where acc: "acc_after enabled f i es (initial_acc f cur) acc" and c1: "cur1 = next_cursor f i nx acc"
        using feed_page_cases [OF page fi] by (metis inj_map_eq_map inj_Some)
      from True False have "fa_parsed acc" by (auto simp: c1 effective_next_def split: if_splits)
      with acc have "timed es \<noteq> []" by (simp add: acc_after_def initial_acc_def)
      then obtain ae t where at: "(ae, t) \<in> set (timed es)" by (cases "timed es") auto
      have "last_exact cur1 ((old @ es) @ shown ps)"
        by (rule older_exact [OF ex, of ae t]) (use at Cons.prems(2) in \<open>auto simp: p list_all_iff\<close>)
      with c' show ?thesis by (simp add: p)
    qed
  next
    case False
    then obtain evs2 where "poll_pages enabled earliest cur1 ps = Inr (evs2, cur')"
      using Cons.prems(3) page by (auto simp: p split: sum.splits)
    from Cons.IH [OF _ _ this ex] Cons.prems(1,2) show ?thesis by (simp add: p)
  qed
qed simp

text \<open>At the floor of an exact cursor the shown events are seen and the new ones are not.\<close>

lemma exact_covers: "last_exact cur old \<Longrightarrow> covers cur old"
  using latest_upper by (fastforce simp: last_exact_def covers_def list_all_iff ids_at_def)

lemma new_unseen:
  assumes "last_exact cur old" "ec_next_page_token cur = []" "feed_floor earliest cur = (f, i)"
    and "new_against old ae" "event_time ae = Some t" "after_earliest earliest [ae]"
  shows "\<not> already_seen f i ae t"
proof
  assume s: "already_seen f i ae t"
  have nz: "\<not> is_zero f" using s by (simp add: already_seen_def)
  have ids: "i = ids_at (latest 0 old) old"
    using assms(1-3) by (auto simp: last_exact_def feed_floor_def Let_def event_id_set_exact split: if_splits)
  have new: "ae_id ae \<noteq> []"
    "\<And>be u. (be, u) \<in> set (timed old) \<Longrightarrow> t_ns u < t_ns t \<or> (t_ns u = t_ns t \<and> ae_id be \<noteq> ae_id ae)"
    using assms(4,5) by (auto simp: new_against_def list_all_iff before_def time_eq_def)
  from assms(2,3) consider "f = (case earliest of None \<Rightarrow> zero_time | Some ts \<Rightarrow> as_time ts)"
    | "f = ec_last_event_time cur"
    by (auto simp: feed_floor_def Let_def split: if_splits)
  then show False
  proof cases
    case 1
    with nz have "before f t"
      using assms(5,6) by (auto simp: after_earliest_def is_zero_def zero_time_def split: option.splits)
    with s show False by (auto simp: already_seen_def before_def time_eq_def)
  next
    case 2
    with assms(1) have fl: "t_ns f = latest 0 old" by (simp add: last_exact_def)
    with nz latest_attained [of 0 old] obtain be u where "(be, u) \<in> set (timed old)" "t_ns u = t_ns f"
      by (auto simp: is_zero_def)
    with new(2) s have "time_eq t f" by (fastforce simp: already_seen_def before_def)
    with s new(1) have "ae_id ae \<in> ids_at (t_ns t) old"
      by (auto simp: already_seen_def before_def time_eq_def ids fl)
    then obtain be' u' where "(be', u') \<in> set (timed old)" "t_ns u' = t_ns t" "ae_id be' = ae_id ae"
      by (auto simp: ids_at_def)
    with new(2) show False by fastforce
  qed
qed

lemma poll_emits_new:
  assumes "last_exact cur old" "ec_next_page_token cur = []" "feed_floor earliest cur = (f, i)" "dated old"
    and "after_earliest earliest es" "list_all (\<lambda>ae. ae \<in> set old \<or> new_against old ae) es"
  shows "emitted enabled f i es = emitted enabled zero_time {} (filter (\<lambda>ae. ae \<notin> set old) es)"
  using assms(5,6)
proof (induction es)
  case (Cons ae es)
  have z: "is_zero zero_time" by (simp add: is_zero_def zero_time_def)
  have ae: "after_earliest earliest [ae]" and rest: "after_earliest earliest es"
    using Cons.prems(1) by (auto simp: after_earliest_def simp del: split_paired_All split: option.split_asm)
  have one: "emits enabled f i ae = (if ae \<in> set old then None else emits enabled zero_time {} ae)"
  proof (cases "event_time ae")
    case (Some t)
    have "already_seen f i ae t" if "ae \<in> set old"
    proof -
      from assms(4) that Some have "0 < t_ns t" by (auto simp: dated_def list_all_iff timed_event)
      from covered_seen [OF exact_covers [OF assms(1)] assms(2) this assms(3) that Some] show ?thesis .
    qed
    moreover have "\<not> already_seen f i ae t" if "ae \<notin> set old"
      using new_unseen [OF assms(1-3) _ Some ae] Cons.prems(2) that by simp
    moreover have "\<not> already_seen zero_time {} ae t" using z by (simp add: already_seen_def)
    ultimately show ?thesis by (cases "ae \<in> set old") (simp_all add: emits_def Some)
  qed (simp add: emits_def)
  from Cons.prems(2) have "emitted enabled f i es = emitted enabled zero_time {} (filter (\<lambda>ae. ae \<notin> set old) es)"
    by (intro Cons.IH rest) simp
  with one show ?case by (cases "emits enabled zero_time {} ae") simp_all
qed simp

lemma polls_exact:
  assumes "earliest_valid earliest" "last_exact cur old" "ec_next_page_token cur = []" "dated old"
    and "log_grows earliest old pss"
  shows "\<exists>cur'. polls enabled earliest cur pss = Inr (emitted enabled zero_time {} (first_shown old pss), cur')"
  using assms
proof (induction pss arbitrary: cur old)
  case (Cons ps pss)
  obtain f i where fi: "feed_floor earliest cur = (f, i)" by fastforce
  have ps: "ps \<noteq> []" "pages_linked ps" "pages_older ps" "after_earliest earliest (shown ps)"
    "list_all (\<lambda>ae. ae \<in> set old \<or> new_against old ae) (shown ps)" "log_grows earliest (old @ shown ps) pss"
    using Cons.prems(5) by simp_all
  obtain cur' where poll: "poll_pages enabled earliest cur ps = Inr (emitted enabled f i (shown ps), cur')"
    and ended: "ec_next_page_token cur' = []"
    using poll_pages_emitted [OF ps(2,3,1) Cons.prems(1) fi] by blast
  have "dated (old @ shown ps)"
    using Cons.prems(4) ps(4) by (auto simp: dated_def after_earliest_def list_all_iff)
  from Cons.IH [OF Cons.prems(1) poll_exact [OF ps(2,3) poll Cons.prems(2)] ended this ps(6)]
  obtain cur'' where "polls enabled earliest cur' pss =
      Inr (emitted enabled zero_time {} (first_shown (old @ shown ps) pss), cur'')" by blast
  with poll poll_emits_new [OF Cons.prems(2,3) fi Cons.prems(4) ps(4,5)] show ?case
    by (simp add: emitted_append)
qed simp

section \<open>Properties\<close>

text \<open>C18: When later pages are only not newer, what a poll delivers is exactly what the pages up to where
  it stopped give, and every event of the dropped pages that would have been delivered has exactly the
  time of the floor: nothing but ties at the floor can be lost.\<close>

theorem only_ties_are_lost:
  assumes "pages_linked ps" "pages_not_newer ps" "ps \<noteq> []" "earliest_valid earliest"
    and "feed_floor earliest cur = (floor, ids)"
  shows "\<exists>n cur'. poll_pages enabled earliest cur ps = Inr (emitted enabled floor ids (shown (take n ps)), cur')
           \<and> ec_next_page_token cur' = [] \<and> list_all (silent_or_tie enabled floor ids) (shown (drop n ps))"
  using assms by (rule poll_pages_ties)

definition tied_pages :: "(audit_event list \<times> string) list" where
  "tied_pages =
     [([sample_event ''a'' ''2025-01-02T03:00:01Z''], ''p2''), ([sample_event ''b'' ''2025-01-02T03:00:01Z''], [])]"

definition tied_cursor :: event_cursor where
  "tied_cursor = zero_event_cursor
     \<lparr>ec_last_event_time := the (event_time (sample_event ''a'' ''2025-01-02T03:00:01Z'')), ec_last_event_ids := [''a'']\<rparr>"

theorem only_ties_are_lost_witness:
  "\<exists>n cur'. poll_pages True None tied_cursor tied_pages =
       Inr (emitted True (ec_last_event_time tied_cursor) {''a''} (shown (take n tied_pages)), cur')
     \<and> ec_next_page_token cur' = []
     \<and> list_all (silent_or_tie True (ec_last_event_time tied_cursor) {''a''}) (shown (drop n tied_pages))"
  by (rule only_ties_are_lost) code_simp+

text \<open>C1: Over a whole history of polls from a fresh start, every event is delivered exactly once: as long
  as each poll is shown pages that get strictly older, over events shown before and new ones, no poll
  fails and together they deliver the change events of the events in the order in which they were first
  shown - nothing is missed and nothing comes twice, ties at the time of an earlier poll included.\<close>

theorem history_delivers_once:
  assumes "earliest_valid earliest" "log_grows earliest [] pss"
  shows "\<exists>cur'. polls enabled earliest zero_event_cursor pss =
           Inr (emitted enabled zero_time {} (first_shown [] pss), cur')"
proof (rule polls_exact [OF assms(1) _ _ _ assms(2)])
  show "last_exact zero_event_cursor []" "dated []"
    by (simp_all add: last_exact_def zero_event_cursor_def zero_time_def dated_def)
qed (simp add: zero_event_cursor_def)

definition sample_history :: "(audit_event list \<times> string) list list" where
  "sample_history =
     [sample_pages,
      [([sample_event ''e5'' ''2025-01-02T03:00:04Z'', sample_event ''e4'' ''2025-01-02T03:00:03Z'',
         sample_event ''e3'' ''2025-01-02T03:00:03Z''], ''p2''),
       ([sample_event ''e2'' ''2025-01-02T03:00:02Z'', sample_event ''e1'' ''2025-01-02T03:00:01Z''], [])]]"

theorem history_delivers_once_witness:
  "map_sum id (\<lambda>(evs, _). map ev_id evs) (polls True None zero_event_cursor sample_history) =
     Inr [''e3'', ''e2'', ''e1'', ''e5'', ''e4'']"
proof -
  have v: "earliest_valid None" "log_grows None [] sample_history" by code_simp+
  obtain cur' where "polls True None zero_event_cursor sample_history =
      Inr (emitted True zero_time {} (first_shown [] sample_history), cur')"
    using history_delivers_once [OF v] by blast
  moreover have "map ev_id (emitted True zero_time {} (first_shown [] sample_history)) =
      [''e3'', ''e2'', ''e1'', ''e5'', ''e4'']" by code_simp
  ultimately show ?thesis by simp
qed

end
