(* ===== verification/Follow.thy ===== *)
theory Follow
  imports Prelude
begin

text \<open>
  The caller's side of every paged operation: ask, and ask again with the token of the answer until the
  answer says that it was the last one. How many rounds that takes is up to the other side, so the loop
  is a partial function. Two interfaces give the conditions under which it ends and what it gathers:
  \<open>paged_source\<close> for any kind of token, \<open>listing\<close> for the list operations, whose token is empty at the
  start and at the end.
\<close>

section \<open>The loop\<close>

text \<open>One round answers its items and how to go on: \<open>Inl\<close> the token of the next round or \<open>Inr\<close> the
  result. \<open>None\<close> is a loop that does not return.\<close>

partial_function (option) follow ::
    "('t \<Rightarrow> 's \<Rightarrow> ('e + ('a list \<times> ('t + 'r))) \<times> 's) \<Rightarrow> 't \<Rightarrow> 's \<Rightarrow> (('e + ('a list \<times> 'r)) \<times> 's) option" where
  [code]: "follow step t s =
     (case step t s of
        (Inl e, s') \<Rightarrow> Some (Inl e, s')
      | (Inr (xs, Inr r), s') \<Rightarrow> Some (Inr (xs, r), s')
      | (Inr (xs, Inl t'), s') \<Rightarrow>
        Option.bind (follow step t' s') (\<lambda>res. case res of
            (Inl e, s'') \<Rightarrow> Some (Inl e, s'')
          | (Inr (ys, r), s'') \<Rightarrow> Some (Inr (xs @ ys, r), s'')))"

lemma follow_stop: "step t s = (Inr (xs, Inr r), s') \<Longrightarrow> follow step t s = Some (Inr (xs, r), s')"
  by (subst follow.simps) simp

lemma follow_error: "step t s = (Inl e, s') \<Longrightarrow> follow step t s = Some (Inl e, s')"
  by (subst follow.simps) simp

lemma follow_on:
  "step t s = (Inr (xs, Inl t'), s') \<Longrightarrow> follow step t' s' = Some (Inr (ys, r), s'') \<Longrightarrow>
     follow step t s = Some (Inr (xs @ ys, r), s'')"
  by (subst follow.simps) simp

section \<open>A source of pages\<close>

text \<open>A position, a token for it and the state in which it can be asked for: every position answers its
  page, and leads to the next position or to the end.\<close>

locale paged_source =
  fixes step :: "'t \<Rightarrow> 's \<Rightarrow> ('e + ('a list \<times> ('t + 'r))) \<times> 's"
    and at :: "'k \<Rightarrow> 't \<Rightarrow> 's \<Rightarrow> bool"
    and page :: "'k \<Rightarrow> 'a list"
    and after_page :: "'k \<Rightarrow> 'k option"
    and ended :: "'k \<Rightarrow> 'r \<Rightarrow> 's \<Rightarrow> bool"
  assumes step_on: "at k t s \<Longrightarrow> after_page k = Some k' \<Longrightarrow>
      \<exists>t' s'. step t s = (Inr (page k, Inl t'), s') \<and> at k' t' s'"
    and step_end: "at k t s \<Longrightarrow> after_page k = None \<Longrightarrow>
      \<exists>r s'. step t s = (Inr (page k, Inr r), s') \<and> ended k r s'"
begin

fun chain :: "'k list \<Rightarrow> bool" where
  "chain [] = False"
| "chain [k] = (after_page k = None)"
| "chain (k # k' # ks) = (after_page k = Some k' \<and> chain (k' # ks))"

text \<open>Where the positions come to an end, so does the loop, with everything they hold.\<close>

lemma follow_chain:
  assumes "chain (k # ks)" "at k t s"
  shows "\<exists>r s'. follow step t s = Some (Inr (concat (map page (k # ks)), r), s') \<and> ended (last (k # ks)) r s'"
  using assms
proof (induction ks arbitrary: k t s)
  case Nil
  with step_end [of k t s] obtain r s' where "step t s = (Inr (page k, Inr r), s')" "ended k r s'" by auto
  then show ?case using follow_stop [of step t s] by auto
next
  case (Cons k' ks)
  then obtain t' s' where st: "step t s = (Inr (page k, Inl t'), s')" "at k' t' s'"
    using step_on [of k t s k'] by auto
  with Cons obtain r s'' where f: "follow step t' s' = Some (Inr (concat (map page (k' # ks)), r), s'')"
    and e: "ended (last (k' # ks)) r s''"
    by fastforce
  from e have "ended (last (k # k' # ks)) r s''" by simp
  with follow_on [of step t s, OF st(1) f] show ?case by auto
qed

end

section \<open>Listings\<close>

text \<open>The round of a list operation: its token is empty at the end.\<close>

definition list_step ::
    "(string \<Rightarrow> 's \<Rightarrow> ('e + ('a list \<times> string)) \<times> 's) \<Rightarrow> string \<Rightarrow> 's \<Rightarrow> ('e + ('a list \<times> (string + unit))) \<times> 's" where
  "list_step fetch t s =
     (case fetch t s of
        (Inl e, s') \<Rightarrow> (Inl e, s')
      | (Inr (xs, t'), s') \<Rightarrow> (Inr (xs, if t' = [] then Inr () else Inl t'), s'))"

definition sync_all ::
    "(string \<Rightarrow> 's \<Rightarrow> ('e + ('a list \<times> string)) \<times> 's) \<Rightarrow> 's \<Rightarrow> (('e + 'a list) \<times> 's) option" where
  "sync_all fetch s = map_option (map_prod (map_sum id fst) id) (follow (list_step fetch) [] s)"

text \<open>The pages a server has for one listing, each with the token that asks for it; each answer names
  the token of the next page.\<close>

fun next_token :: "(string \<times> 'i list) list \<Rightarrow> string" where
  "next_token [] = []"
| "next_token ((t, xs) # ps) = t"

fun served :: "(string \<Rightarrow> 'i list \<Rightarrow> string \<Rightarrow> bool) \<Rightarrow> (string \<times> 'i list) list \<Rightarrow> bool" where
  "served answers [] = True"
| "served answers ((t, xs) # ps) =
     (answers t xs (next_token ps) \<and> list_all (\<lambda>(t', _). t' \<noteq> []) ps \<and> served answers ps)"

locale listing =
  fixes fetch :: "string \<Rightarrow> 's \<Rightarrow> ('e + ('a list \<times> string)) \<times> 's"
    and answers :: "string \<Rightarrow> 'i list \<Rightarrow> string \<Rightarrow> bool"
    and out :: "'i list \<Rightarrow> 'a list"
    and ready :: "'s \<Rightarrow> bool"
    and holds :: "'i list \<Rightarrow> 's \<Rightarrow> bool"
  assumes fetch_first: "answers [] xs nx \<Longrightarrow> ready s \<Longrightarrow> \<exists>s'. fetch [] s = (Inr (out xs, nx), s') \<and> holds xs s'"
    and fetch_later: "answers t xs nx \<Longrightarrow> t \<noteq> [] \<Longrightarrow> holds old s \<Longrightarrow>
      \<exists>s'. fetch t s = (Inr (out xs, nx), s') \<and> holds (old @ xs) s'"
begin

text \<open>A position of a listing: the items it has given and the pages it still has.\<close>

definition listing_at :: "'i list \<times> (string \<times> 'i list) list \<Rightarrow> string \<Rightarrow> 's \<Rightarrow> bool" where
  "listing_at k t s = (case k of
      (old, []) \<Rightarrow> False
    | (old, (t', xs) # ps) \<Rightarrow> t' = t \<and> served answers ((t', xs) # ps)
        \<and> (if t = [] then old = [] \<and> ready s else holds old s))"

definition listing_page :: "'i list \<times> (string \<times> 'i list) list \<Rightarrow> 'a list" where
  "listing_page k = (case snd k of [] \<Rightarrow> [] | (t, xs) # ps \<Rightarrow> out xs)"

definition listing_after ::
    "'i list \<times> (string \<times> 'i list) list \<Rightarrow> ('i list \<times> (string \<times> 'i list) list) option" where
  "listing_after k = (case k of (old, (t, xs) # p # ps) \<Rightarrow> Some (old @ xs, p # ps) | _ \<Rightarrow> None)"

definition listing_ended :: "'i list \<times> (string \<times> 'i list) list \<Rightarrow> unit \<Rightarrow> 's \<Rightarrow> bool" where
  "listing_ended k r s = holds (fst k @ concat (map snd (snd k))) s"

lemma fetch_at:
  assumes "listing_at (old, (t', xs) # ps) t s"
  shows "\<exists>s'. fetch t s = (Inr (out xs, next_token ps), s') \<and> holds (old @ xs) s'"
proof -
  have a: "answers t xs (next_token ps)" and h: "if t = [] then old = [] \<and> ready s else holds old s"
    using assms by (auto simp: listing_at_def)
  show ?thesis
  proof (cases "t = []")
    case True
    with a h fetch_first show ?thesis by simp
  next
    case False
    with a h fetch_later show ?thesis by simp
  qed
qed

lemma listing_atE:
  assumes "listing_at k t s"
  obtains old xs ps where "k = (old, (t, xs) # ps)"
  using assms by (cases k; cases "snd k") (auto simp: listing_at_def)

lemma listing_after_simps [simp]:
  "listing_after (old, [p]) = None"
  "listing_after (old, (t, xs) # p # ps) = Some (old @ xs, p # ps)"
  by (auto simp: listing_after_def split: prod.split)

end

sublocale listing \<subseteq> src: paged_source "list_step fetch" listing_at listing_page listing_after listing_ended
proof
  fix k t s k' assume a: "listing_at k t s" and n: "listing_after k = Some k'"
  obtain old xs qs where "k = (old, (t, xs) # qs)" using a by (rule listing_atE)
  with n obtain t2 ys ps where k: "k = (old, (t, xs) # (t2, ys) # ps)" and k': "k' = (old @ xs, (t2, ys) # ps)"
    by (cases qs) auto
  have t2: "t2 \<noteq> []" "served answers ((t2, ys) # ps)" using a by (auto simp: k listing_at_def)
  obtain s' where "fetch t s = (Inr (out xs, t2), s')" "holds (old @ xs) s'"
    using fetch_at a unfolding k by fastforce
  with t2 show "\<exists>t' s'. list_step fetch t s = (Inr (listing_page k, Inl t'), s') \<and> listing_at k' t' s'"
    by (auto simp: list_step_def listing_page_def listing_at_def k k')
next
  fix k t s assume a: "listing_at k t s" and n: "listing_after k = None"
  obtain old xs qs where "k = (old, (t, xs) # qs)" using a by (rule listing_atE)
  with n have k: "k = (old, [(t, xs)])" by (cases qs) auto
  obtain s' where "fetch t s = (Inr (out xs, []), s')" "holds (old @ xs) s'"
    using fetch_at a unfolding k by fastforce
  then show "\<exists>r s'. list_step fetch t s = (Inr (listing_page k, Inr r), s') \<and> listing_ended k r s'"
    by (auto simp: list_step_def listing_page_def listing_ended_def k)
qed

context listing begin

fun positions :: "'i list \<Rightarrow> (string \<times> 'i list) list \<Rightarrow> ('i list \<times> (string \<times> 'i list) list) list" where
  "positions old [] = []"
| "positions old ((t, xs) # ps) = (old, (t, xs) # ps) # positions (old @ xs) ps"

lemma positions_chain: "src.chain (positions old (p # ps))"
proof (induction ps arbitrary: old p)
  case Nil
  then show ?case by (cases p) simp
next
  case (Cons q ps)
  obtain t xs where p: "p = (t, xs)" by fastforce
  obtain u ys where q: "q = (u, ys)" by fastforce
  show ?case using Cons [of "old @ xs" q] by (simp add: p q)
qed

lemma positions_pages: "concat (map listing_page (positions old ps)) = concat (map (out \<circ> snd) ps)"
  by (induction ps arbitrary: old) (auto simp: listing_page_def)

lemma positions_last: "listing_ended (last (positions old (p # ps))) r s = holds (old @ concat (map snd (p # ps))) s"
proof (induction ps arbitrary: old p)
  case Nil
  then show ?case by (cases p) (simp add: listing_ended_def)
next
  case (Cons q ps)
  obtain t xs where p: "p = (t, xs)" by fastforce
  obtain u ys where q: "q = (u, ys)" by fastforce
  show ?case using Cons [of "old @ xs" q] by (simp add: p q)
qed

text \<open>A listing whose pages the server has ends, with all of their items and nothing else.\<close>

lemma sync_served:
  assumes "served answers (([], xs) # ps)" "ready s"
  shows "\<exists>s'. sync_all fetch s = Some (Inr (concat (map (out \<circ> snd) (([], xs) # ps))), s')
    \<and> holds (concat (map snd (([], xs) # ps))) s'"
proof -
  have "listing_at ([], ([], xs) # ps) [] s" using assms by (simp add: listing_at_def)
  moreover have "src.chain (([], ([], xs) # ps) # positions xs ps)"
    using positions_chain [of "[]" "([], xs)" ps] by simp
  ultimately obtain r s' where
    "follow (list_step fetch) [] s = Some (Inr (concat (map listing_page (positions [] (([], xs) # ps))), r), s')"
    "listing_ended (last (positions [] (([], xs) # ps))) r s'"
    using src.follow_chain by fastforce
  then show ?thesis by (auto simp: sync_all_def positions_pages positions_last simp del: positions.simps)
qed

end

end
