(* ===== verification/Feed_Ends.thy ===== *)
theory Feed_Ends
  imports Feed_Calls Follow Site_Server
begin

text \<open>
  The caller's loop over whole calls of \<open>ListEvents\<close>, and when it ends: the early stop bounds it even
  against a server that names a next page for ever.
\<close>

section \<open>The caller's loop\<close>

text \<open>The caller of the feed asks again with the cursor it was handed while there is more, and stops at
  the first error.\<close>

definition feed_round ::
    "'w svc \<Rightarrow> 'w client \<Rightarrow> audit_feed \<Rightarrow> timestamp option \<Rightarrow> string \<Rightarrow> 'w conn
       \<Rightarrow> (gerror + (change_event list \<times> (string + string))) \<times> 'w conn" where
  "feed_round sv cl f earliest tok c =
     (case list_events sv cl f earliest tok c of
        ((Inl e, _), c') \<Rightarrow> (Inl e, c')
      | ((Inr (evs, st), _), c') \<Rightarrow>
          (Inr (evs, if ss_has_more st then Inl (ss_cursor st) else Inr (ss_cursor st)), c'))"

definition poll_feed ::
    "'w svc \<Rightarrow> 'w client \<Rightarrow> audit_feed \<Rightarrow> timestamp option \<Rightarrow> string \<Rightarrow> 'w conn
       \<Rightarrow> ((gerror + (change_event list \<times> string)) \<times> 'w conn) option" where
  "poll_feed sv cl f earliest = follow (feed_round sv cl f earliest)"

text \<open>One call on a page that can be processed, seen from the token to the next token.\<close>

lemma list_events_served:
  assumes d: "decode_event_page_token tok = Inr cur" and cur: "cursor_ok cur" and fl: "floor_ok earliest"
    and q: "list_audit_log_events sv cl audit_log_events_page_size (ec_next_page_token cur) c =
      ((Inr (map Some es, nx), rl), c')"
    and evs: "list_all event_ok es" and nx: "valid_utf8 nx"
    and p: "feed_page (fd_agreements_enabled f) earliest cur (map Some es) nx = Inr (evs, cur')"
  shows "\<exists>st. list_events sv cl f earliest tok c = ((Inr (evs, st), with_rate_limiting [] rl), c')
    \<and> decode_event_page_token (ss_cursor st) = Inr cur' \<and> cursor_ok cur'
    \<and> (ss_has_more st \<longleftrightarrow> ec_next_page_token cur' \<noteq> [])"
proof -
  have ok: "cursor_ok cur'" by (rule next_cursor_ok [OF cur fl evs nx p])
  obtain s where s: "encode_event_page_token (Some cur') = Inr s" "decode_event_page_token s = Inr cur'"
    using decode_encode_cursor [OF ok] by blast
  show ?thesis
    by (intro exI [of _ "\<lparr>ss_cursor = s, ss_has_more = ec_next_page_token cur' \<noteq> []\<rparr>"])
      (simp add: list_events_def d q p s ok)
qed

section \<open>An endless log\<close>

text \<open>A server that always names a next page: page \<open>n\<close> is asked with \<open>tokens n\<close>, and leads to page
  \<open>n + 1\<close>. Only the pages up to \<open>k\<close> matter.\<close>

definition serves_pages ::
    "'w svc \<Rightarrow> 'w client \<Rightarrow> (nat \<Rightarrow> audit_event list) \<Rightarrow> (nat \<Rightarrow> string) \<Rightarrow> nat \<Rightarrow> bool" where
  "serves_pages sv cl log tokens k =
     (\<forall>n \<le> k. tokens (Suc n) \<noteq> [] \<and> valid_utf8 (tokens (Suc n)) \<and> list_all event_ok (log n)
        \<and> (\<forall>c. \<exists>rl c'. list_audit_log_events sv cl audit_log_events_page_size (tokens n) c =
              ((Inr (map Some (log n), tokens (Suc n)), rl), c')))"

text \<open>A page that shows the end of what is new: in order, and all of it at or before the floor.\<close>

definition page_done :: "gotime \<Rightarrow> string set \<Rightarrow> audit_event list \<Rightarrow> bool" where
  "page_done floor ids es =
     (timed es \<noteq> [] \<and> descending_from None (timed es) \<and> list_all (\<lambda>ae. event_time ae \<noteq> None) es
      \<and> list_all (\<lambda>(ae, t). seen_or_before floor ids ae t) (timed es))"

lemma page_done_stops:
  assumes "feed_page enabled earliest cur (map Some es) nx = Inr (evs, cur')"
    and "feed_floor earliest cur = (floor, ids)" "\<not> is_zero floor" "nx \<noteq> []"
  shows "ec_next_page_token cur' = [] \<longleftrightarrow> page_done floor ids es"
proof -
  obtain acc where acc: "acc_after enabled floor ids es (initial_acc floor cur) acc" and c': "cur' = next_cursor floor ids nx acc"
    using feed_page_cases [OF assms(1,2)] by (metis inj_map_eq_map inj_Some)
  show ?thesis
    using acc assms(3,4) by (simp add: c' effective_next_def acc_after_def initial_acc_def page_done_def list_all_iff)
qed

text \<open>The calls of one poll: on page \<open>n\<close>, with the floor the poll began with.\<close>

definition feed_at ::
    "'w svc \<Rightarrow> 'w client \<Rightarrow> timestamp option \<Rightarrow> (nat \<Rightarrow> audit_event list) \<Rightarrow> (nat \<Rightarrow> string) \<Rightarrow> nat
       \<Rightarrow> gotime \<Rightarrow> string set \<Rightarrow> nat \<Rightarrow> string \<Rightarrow> 'w conn \<Rightarrow> bool" where
  "feed_at sv cl earliest log tokens k floor ids n tok c =
     (serves_pages sv cl log tokens k \<and> page_done floor ids (log k) \<and> n \<le> k
      \<and> floor_ok earliest \<and> earliest_valid earliest \<and> \<not> is_zero floor
      \<and> (\<exists>cur. decode_event_page_token tok = Inr cur \<and> cursor_ok cur
           \<and> ec_next_page_token cur = tokens n \<and> feed_floor earliest cur = (floor, ids)))"

definition after_feed_page :: "(nat \<Rightarrow> audit_event list) \<Rightarrow> gotime \<Rightarrow> string set \<Rightarrow> nat \<Rightarrow> nat option" where
  "after_feed_page log floor ids n = (if page_done floor ids (log n) then None else Some (Suc n))"

definition cursor_at_rest :: "string \<Rightarrow> bool" where
  "cursor_at_rest tok =
     (case decode_event_page_token tok of Inl e \<Rightarrow> False | Inr cur \<Rightarrow> cursor_ok cur \<and> ec_next_page_token cur = [])"

lemma after_feed_page_simps [simp]:
  "page_done floor ids (log n) \<Longrightarrow> after_feed_page log floor ids n = None"
  "\<not> page_done floor ids (log n) \<Longrightarrow> after_feed_page log floor ids n = Some (Suc n)"
  by (simp_all add: after_feed_page_def)

lemma feed_round_at:
  assumes "feed_at sv cl earliest log tokens k floor ids n tok c"
  shows "\<exists>t c'. feed_round sv cl f earliest tok c =
      (Inr (emitted (fd_agreements_enabled f) floor ids (log n),
         if page_done floor ids (log n) then Inr t else Inl t), c')
    \<and> (if page_done floor ids (log n) then cursor_at_rest t
       else feed_at sv cl earliest log tokens k floor ids (Suc n) t c')"
proof -
  obtain cur where d: "decode_event_page_token tok = Inr cur" and ok: "cursor_ok cur"
    and tk: "ec_next_page_token cur = tokens n" and fi: "feed_floor earliest cur = (floor, ids)"
    using assms by (auto simp: feed_at_def)
  have s: "serves_pages sv cl log tokens k" "page_done floor ids (log k)" "n \<le> k" "floor_ok earliest"
    "earliest_valid earliest" "\<not> is_zero floor"
    using assms by (simp_all add: feed_at_def)
  note pg = s(1) [unfolded serves_pages_def, rule_format, OF s(3)]
  obtain rl c' where q: "list_audit_log_events sv cl audit_log_events_page_size (ec_next_page_token cur) c =
      ((Inr (map Some (log n), tokens (Suc n)), rl), c')" using pg unfolding tk by blast
  obtain cur' where p: "feed_page (fd_agreements_enabled f) earliest cur (map Some (log n)) (tokens (Suc n)) =
      Inr (emitted (fd_agreements_enabled f) floor ids (log n), cur')"
    using feed_page_total [OF fi] by blast
  obtain st where call: "list_events sv cl f earliest tok c =
      ((Inr (emitted (fd_agreements_enabled f) floor ids (log n), st), with_rate_limiting [] rl), c')"
    and st: "decode_event_page_token (ss_cursor st) = Inr cur'" "cursor_ok cur'"
      "ss_has_more st \<longleftrightarrow> ec_next_page_token cur' \<noteq> []"
    using list_events_served [OF d ok s(4) q _ _ p] pg by blast
  have stop: "ec_next_page_token cur' = [] \<longleftrightarrow> page_done floor ids (log n)"
    by (rule page_done_stops [OF p fi s(6)]) (use pg in simp)
  show ?thesis
  proof (cases "page_done floor ids (log n)")
    case True
    with stop st call show ?thesis
      by (intro exI [of _ "ss_cursor st"] exI [of _ c']) (simp add: feed_round_def cursor_at_rest_def)
  next
    case False
    then have pend: "ec_next_page_token cur' \<noteq> []" using stop by simp
    have "ec_next_page_token cur' = tokens (Suc n)"
    proof -
      obtain acc where "cur' = next_cursor floor ids (tokens (Suc n)) acc" using feed_page_cases [OF p fi] by metis
      with pend show ?thesis by (auto simp: effective_next_def split: if_splits)
    qed
    moreover have "feed_floor earliest cur' = (floor, ids)"
      using floor_next [OF p pend fi s(5)] s(6) by (auto simp: same_floor_def)
    moreover have "Suc n \<le> k" using s(2,3) False by (cases "n = k") auto
    ultimately have "feed_at sv cl earliest log tokens k floor ids (Suc n) (ss_cursor st) c'"
      using s st by (auto simp: feed_at_def)
    with False pend st call show ?thesis
      by (intro exI [of _ "ss_cursor st"] exI [of _ c']) (simp add: feed_round_def)
  qed
qed

interpretation feed: paged_source
  "feed_round sv cl f earliest" "feed_at sv cl earliest log tokens k floor ids"
  "\<lambda>n. emitted (fd_agreements_enabled f) floor ids (log n)" "after_feed_page log floor ids"
  "\<lambda>_ t _. cursor_at_rest t"
  for sv cl f earliest log tokens k floor ids
proof
  fix n tok c n' assume a: "feed_at sv cl earliest log tokens k floor ids n tok c"
    and "after_feed_page log floor ids n = Some n'"
  then have "\<not> page_done floor ids (log n)" "n' = Suc n" by (simp_all add: after_feed_page_def split: if_splits)
  with feed_round_at [OF a, of f] show "\<exists>t' s'. feed_round sv cl f earliest tok c =
      (Inr (emitted (fd_agreements_enabled f) floor ids (log n), Inl t'), s')
    \<and> feed_at sv cl earliest log tokens k floor ids n' t' s'" by auto
next
  fix n tok c assume a: "feed_at sv cl earliest log tokens k floor ids n tok c"
    and "after_feed_page log floor ids n = None"
  then have "page_done floor ids (log n)" by (simp add: after_feed_page_def split: if_splits)
  with feed_round_at [OF a, of f] show "\<exists>r s'. feed_round sv cl f earliest tok c =
      (Inr (emitted (fd_agreements_enabled f) floor ids (log n), Inr r), s') \<and> cursor_at_rest r" by auto
qed

text \<open>The pages up to the first that is done.\<close>

lemma first_done:
  assumes "page_done floor ids (log k)"
  obtains n where "n \<le> k" "page_done floor ids (log n)" "list_all (\<lambda>i. \<not> page_done floor ids (log i)) [0..<n]"
proof -
  let ?n = "LEAST i. page_done floor ids (log i)"
  have "page_done floor ids (log ?n)" using assms by (rule LeastI)
  moreover have "?n \<le> k" using assms by (rule Least_le)
  moreover have "list_all (\<lambda>i. \<not> page_done floor ids (log i)) [0..<?n]"
    by (auto simp: list_all_iff dest: not_less_Least)
  ultimately show ?thesis using that by blast
qed

lemma feed_chain:
  assumes "j \<le> n" "list_all (\<lambda>i. \<not> page_done floor ids (log i)) [j..<n]" "page_done floor ids (log n)"
  shows "paged_source.chain (after_feed_page log floor ids) [j..<Suc n]"
  using assms
proof (induction rule: inc_induct)
  case base
  then show ?case by simp
next
  case (step i)
  have r: "[i..<Suc n] = i # Suc i # [Suc (Suc i)..<Suc n]" "[Suc i..<Suc n] = Suc i # [Suc (Suc i)..<Suc n]"
    "[i..<n] = i # [Suc i..<n]"
    using step.hyps by (simp_all add: upt_conv_Cons del: upt_Suc)
  have "paged_source.chain (after_feed_page log floor ids) (Suc i # [Suc (Suc i)..<Suc n])"
    using step.IH step.prems unfolding r by simp
  then show ?case using step.prems unfolding r by simp
qed

lemma poll_feed_ends:
  assumes "feed_at sv cl earliest log tokens k floor ids 0 tok c"
  shows "\<exists>n tok' c'. n \<le> k \<and> page_done floor ids (log n)
    \<and> list_all (\<lambda>i. \<not> page_done floor ids (log i)) [0..<n]
    \<and> poll_feed sv cl f earliest tok c =
        Some (Inr (emitted (fd_agreements_enabled f) floor ids (concat (map log [0..<Suc n])), tok'), c')
    \<and> cursor_at_rest tok'"
proof -
  have "page_done floor ids (log k)" using assms by (simp add: feed_at_def)
  then obtain n where n: "n \<le> k" "page_done floor ids (log n)" "list_all (\<lambda>i. \<not> page_done floor ids (log i)) [0..<n]"
    by (rule first_done)
  have zero: "[0..<Suc n] = 0 # [Suc 0..<Suc n]" by (simp add: upt_conv_Cons del: upt_Suc)
  have "paged_source.chain (after_feed_page log floor ids) (0 # [Suc 0..<Suc n])"
    using feed_chain [OF _ n(3,2)] zero by simp
  from feed.follow_chain [OF this assms, of f]
  obtain tok' c' where "follow (feed_round sv cl f earliest) tok c =
      Some (Inr (concat (map (\<lambda>n. emitted (fd_agreements_enabled f) floor ids (log n)) [0..<Suc n]), tok'), c')"
    "cursor_at_rest tok'" unfolding zero [symmetric] by blast
  moreover have "concat (map (\<lambda>n. emitted en floor ids (log n)) is) = emitted en floor ids (concat (map log is))" for en "is"
    by (induction "is") (simp_all add: emitted_append)
  ultimately show ?thesis using n unfolding poll_feed_def by metis
qed

section \<open>Properties\<close>

text \<open>C4: A poll of the event feed ends even against a server that names a next page for ever: once a page
  is in descending order, readable, and all of it at or before the floor, the poll stops at the first
  such page, having made one call per page up to it, and has delivered exactly the change events of those
  pages that are new at the floor; the cursor it ends with has no page pending.\<close>

theorem poll_ends:
  assumes "serves_pages sv cl log tokens k" "page_done floor ids (log k)"
    and "floor_ok earliest" "earliest_valid earliest" "\<not> is_zero floor"
    and "decode_event_page_token tok = Inr cur" "cursor_ok cur" "ec_next_page_token cur = tokens 0"
    and "feed_floor earliest cur = (floor, ids)"
  shows "\<exists>n tok' c'. n \<le> k \<and> page_done floor ids (log n)
    \<and> list_all (\<lambda>i. \<not> page_done floor ids (log i)) [0..<n]
    \<and> poll_feed sv cl f earliest tok c =
        Some (Inr (emitted (fd_agreements_enabled f) floor ids (concat (map log [0..<Suc n])), tok'), c')
    \<and> cursor_at_rest tok'"
  by (rule poll_feed_ends) (use assms in \<open>auto simp: feed_at_def\<close>)

text \<open>A server without an end: one new event, then for ever the same old one.\<close>

definition endless_pages :: "string \<Rightarrow> json list \<times> string" where
  "endless_pages s =
     (if s = [] then [event_json ''e3'' ''2025-01-02T03:00:03Z''] else [event_json ''e1'' ''2025-01-02T03:00:01Z''], CHR ''p'' # s)"

definition endless_log :: "nat \<Rightarrow> audit_event list" where
  "endless_log n =
     (if n = 0 then [sample_event ''e3'' ''2025-01-02T03:00:03Z''] else [sample_event ''e1'' ''2025-01-02T03:00:01Z''])"

definition endless_server :: "'w svc \<Rightarrow> 'w svc" where
  "endless_server = paged_server (\<lambda>_. endless_pages)"

definition between :: gotime where
  "between = the (parse_rfc3339 ''2025-01-02T03:00:02Z'')"

lemma endless_served:
  "serves_pages (endless_server sv) (static_client ''secret'') endless_log
     (\<lambda>n. page_link audit_log_events_path (replicate n CHR ''p'')) k"
  unfolding serves_pages_def
proof (intro allI impI conjI)
  fix n :: nat and c
  let ?j = "if n = 0 then event_json ''e3'' ''2025-01-02T03:00:03Z'' else event_json ''e1'' ''2025-01-02T03:00:01Z''"
  show "page_link audit_log_events_path (replicate (Suc n) CHR ''p'') \<noteq> []" by (simp add: page_link_empty)
  show "valid_utf8 (page_link audit_log_events_path (replicate (Suc n) CHR ''p''))"
    by (rule valid_utf8_ascii) (rule page_link_ascii [OF paths_plain(4)])
  show "list_all event_ok (endless_log n)"
    by (simp add: endless_log_def event_ok_def sample_event_def valid_utf8_ascii) code_simp
  have pages: "endless_pages (replicate n CHR ''p'') = ([?j], replicate (Suc n) CHR ''p'')"
    by (simp add: endless_pages_def)
  have ok: "page_items_ok [?j]" by (simp add: page_items_ok_def event_json_ok)
  have "flatten_audit_events [event_json i t] = Inr [Some (sample_event i t)]" for i t
    by (simp add: flatten_audit_events_def flatten_entry_def event_json_decoded)
      (simp add: event_json_def flatten_entry_def event_json_decoded [unfolded event_json_def])
  then have "flatten_audit_events [?j] = Inr (map Some (endless_log n))" by (simp add: endless_log_def)
  from list_audit_log_events_site [where pages = "\<lambda>_. endless_pages", OF _ pages ok this, of "''secret''" sv c]
  show "\<exists>rl c'. list_audit_log_events (endless_server sv) (static_client ''secret'') audit_log_events_page_size
      (page_link audit_log_events_path (replicate n CHR ''p'')) c =
      ((Inr (map Some (endless_log n), page_link audit_log_events_path (replicate (Suc n) CHR ''p'')), rl), c')"
    unfolding endless_server_def by blast
qed

lemma endless_floor:
  "feed_floor (Some (timestamp_of between)) zero_event_cursor = (between, {})" "\<not> is_zero between"
  "floor_ok (Some (timestamp_of between))" "earliest_valid (Some (timestamp_of between))"
  "page_done between {} (endless_log 1)" "\<not> page_done between {} (endless_log 0)"
  by code_simp+

theorem poll_ends_witness:
  "\<forall>(sv :: unit svc) c. \<exists>evs tok' c'.
     poll_feed (endless_server sv) (static_client ''secret'') sample_feed (Some (timestamp_of between)) [] c =
       Some (Inr (evs, tok'), c')
     \<and> map ev_id evs = [''e3''] \<and> cursor_at_rest tok'"
proof (intro allI)
  fix sv :: "unit svc" and c
  have d: "decode_event_page_token [] = Inr zero_event_cursor" by (simp add: decode_event_page_token_def)
  have ok: "cursor_ok zero_event_cursor" using zero_cursor_inv by (simp add: cursor_inv_def)
  have tk: "ec_next_page_token zero_event_cursor = page_link audit_log_events_path (replicate 0 CHR ''p'')"
    by (simp add: page_link_def zero_event_cursor_def)
  have en: "fd_agreements_enabled sample_feed = True" by (simp add: sample_feed_def)
  obtain n tok' c' where n: "n \<le> 1" "page_done between {} (endless_log n)"
    and run: "poll_feed (endless_server sv) (static_client ''secret'') sample_feed (Some (timestamp_of between)) [] c =
      Some (Inr (emitted True between {} (concat (map endless_log [0..<Suc n])), tok'), c')"
    and rest: "cursor_at_rest tok'"
    using poll_ends [OF endless_served endless_floor(5,3,4,2) d ok tk endless_floor(1), of sv sample_feed c]
    unfolding en by blast
  from n endless_floor(6) have "n = 1" by (cases n) auto
  moreover have "map ev_id (emitted True between {} (concat (map endless_log [0..<Suc 1]))) = [''e3'']" by code_simp
  ultimately have "map ev_id (emitted True between {} (concat (map endless_log [0..<Suc n]))) = [''e3'']" by simp
  with run rest show "\<exists>evs tok' c'.
     poll_feed (endless_server sv) (static_client ''secret'') sample_feed (Some (timestamp_of between)) [] c =
       Some (Inr (evs, tok'), c') \<and> map ev_id evs = [''e3''] \<and> cursor_at_rest tok'"
    by (intro exI conjI)
qed

end
