(* ===== verification/Feed_Limits.thy ===== *)
theory Feed_Limits
  imports Feed_Ends
begin

text \<open>
  Where the audit feed stops short of what its comments say: an unseen event with the time of the floor on a
  page that the early stop drops, a \<open>null\<close> among the events of a batch, and an event whose zone the parser
  takes and the printer of the cursor refuses.
\<close>

section \<open>A tie behind the stop\<close>

lemma done_emits_nothing:
  assumes "page_done floor ids es"
  shows "emitted enabled floor ids es = []" "\<not> is_zero floor"
proof -
  have s: "seen_or_before floor ids ae t" if "(ae, t) \<in> set (timed es)" for ae t
    using assms that by (auto simp: page_done_def list_all_iff)
  show "emitted enabled floor ids es = []"
  proof (rule emitted_none)
    fix ae t assume "ae \<in> set es" "event_time ae = Some t"
    then have "seen_or_before floor ids ae t" using s by (simp add: timed_event)
    then show "already_seen floor ids ae t" by (auto simp: seen_or_before_def already_seen_def after_def before_def time_eq_def equal_floor_unseen_def)
  qed
  obtain ae t where "(ae, t) \<in> set (timed es)" using assms by (cases "timed es") (auto simp: page_done_def)
  from s [OF this] show "\<not> is_zero floor" by (simp add: seen_or_before_def)
qed

lemma stopped_poll:
  assumes "feed_floor earliest cur = (floor, ids)" "page_done floor ids es" "nx \<noteq> []"
  obtains cur' where "feed_page enabled earliest cur (map Some es) nx = Inr ([], cur')" "ec_next_page_token cur' = []"
    "\<And>ps. poll_pages enabled earliest cur ((es, nx) # ps) = Inr ([], cur')"
proof -
  note d = done_emits_nothing [OF assms(2)]
  obtain cur' where p: "feed_page enabled earliest cur (map Some es) nx = Inr ([], cur')"
    using feed_page_total [OF assms(1), of enabled es nx] d(1) by auto
  moreover have "ec_next_page_token cur' = []" using page_done_stops [OF p assms(1) d(2) assms(3)] assms(2) by simp
  ultimately show ?thesis using that by simp
qed

lemma emitted_member: "ae \<in> set es \<Longrightarrow> emits enabled floor ids ae = Some ev \<Longrightarrow> ev \<in> set (emitted enabled floor ids es)"
  by (induction es) (auto split: option.splits)

lemma older_is_silent:
  assumes "feed_page enabled e2 cur (map Some es) [] = Inr (evs, cur2)" "(be, u) \<in> set (timed es)"
    and "event_time ae = Some t" "before t u" "0 < t_ns t" "feed_floor e3 cur2 = (f, i)"
  shows "emits enabled f i ae = None"
proof -
  obtain f2 i2 where fi: "feed_floor e2 cur = (f2, i2)" by fastforce
  obtain acc where c2: "cur2 = next_cursor f2 i2 [] acc" using feed_page_cases [OF assms(1) fi] by metis
  have "covers cur2 es" using covers_page(1) [OF assms(1), of "[]"] by simp
  then have "t_ns u \<le> t_ns (ec_last_event_time cur2)" using assms(2) by (auto simp: covers_def list_all_iff)
  then have "covers cur2 [ae]" using assms(3,4) by (simp add: covers_def before_def)
  moreover have "ec_next_page_token cur2 = []" by (simp add: c2 effective_next_def)
  ultimately have "already_seen f i ae t" by (rule covered_seen [OF _ _ assms(5,6) _ assms(3)]) simp
  with assms(3) show ?thesis by (rule emits_seen)
qed

section \<open>Null events\<close>

lemma decode_elems_null:
  "decode_elems (elem_pointer d z) None js old = Some bs \<Longrightarrow> JNull \<in> set js \<Longrightarrow> None \<in> set bs"
  by (induction js arbitrary: old bs) (auto simp: bind_eq_Some_conv elem_pointer_def)

lemma batch_null:
  assumes "flatten_audit_events raw = Inr aes" "JArr js \<in> set raw" "JNull \<in> set js"
  shows "None \<in> set aes"
proof -
  obtain evss where e: "map_res flatten_entry raw = Inr evss" "aes = concat evss"
    using assms(1) by (auto simp: flatten_audit_events_def split: sum.splits)
  then have "list_all2 (\<lambda>j evs. flatten_entry j = Inr evs) raw evss" by (simp add: map_res_Inr_iff)
  moreover obtain n where n: "n < length raw" "raw ! n = JArr js" using assms(2) by (auto simp: in_set_conv_nth)
  ultimately have evs: "evss ! n \<in> set evss" "flatten_entry (JArr js) = Inr (evss ! n)"
    by (auto simp: list_all2_conv_all_nth)
  then have "None \<in> set (evss ! n)" using decode_elems_null [OF _ assms(3)] by (auto simp: flatten_entry_def split: option.splits)
  with evs(1) e(2) show ?thesis by auto
qed

lemma readable_page: "None \<notin> set aes \<Longrightarrow> \<exists>evs cur'. feed_page enabled earliest cur aes nx = Inr (evs, cur')"
  using page_cases [of aes] feed_page_total [of earliest cur] by (metis prod.exhaust)

section \<open>Far zones\<close>

text \<open>A zone a day or more away.\<close>

definition far_zone :: "gotime \<Rightarrow> bool" where
  "far_zone t = (24 * 3600 \<le> \<bar>t_off t\<bar>)"

text \<open>The page has an event later than all the cursor knows, and those at the page's latest time have far zones.\<close>

definition latest_is_far :: "event_cursor \<Rightarrow> audit_event list \<Rightarrow> bool" where
  "latest_is_far cur es =
     (let z = latest (t_ns (ec_last_event_time cur)) es
      in t_ns (ec_last_event_time cur) < z \<and> list_all (\<lambda>(_, t). t_ns t = z \<longrightarrow> far_zone t) (timed es))"

lemma far_cursor:
  assumes "feed_page enabled earliest cur (map Some es) nx = Inr (evs, cur')" "latest_is_far cur es"
  shows "encode_event_page_token (Some cur') =
    Inl (Wrap [S ''baton-ramp: failed to encode event page token: ''] (Plain [S ''json'']) [])"
proof -
  obtain f i where fi: "feed_floor earliest cur = (f, i)" by fastforce
  obtain acc where acc: "acc_after enabled f i es (initial_acc f cur) acc" and c': "cur' = next_cursor f i nx acc"
    using feed_page_cases [OF assms(1) fi] by (metis inj_map_eq_map inj_Some)
  note z = next_cursor_last(1) [OF acc]
  from acc have "fa_max_time acc = ec_last_event_time cur \<or> (\<exists>ae. (ae, fa_max_time acc) \<in> set (timed es))"
    by (auto simp: acc_after_def initial_acc_def)
  moreover have "fa_max_time acc \<noteq> ec_last_event_time cur" using z assms(2) by (auto simp: latest_is_far_def Let_def)
  ultimately obtain ae where "(ae, fa_max_time acc) \<in> set (timed es)" by blast
  then have "far_zone (fa_max_time acc)" using assms(2) z by (auto simp: latest_is_far_def Let_def list_all_iff)
  then have "marshal_time (ec_last_event_time cur') = None"
    by (simp add: c' far_zone_def marshal_time_def time_printable_def)
  then show ?thesis by (simp add: encode_event_page_token_def json_of_cursor_def)
qed

section \<open>Properties\<close>


text \<open>Two events at one time, the second unseen and on the second page.\<close>

definition tie_time :: gotime where "tie_time = the (parse_rfc3339 ''2025-01-02T03:00:01Z'')"

definition tie_cursor :: event_cursor where
  "tie_cursor = zero_event_cursor\<lparr>ec_last_event_time := tie_time, ec_last_event_ids := [''a'']\<rparr>"


text \<open>A \<open>null\<close> anywhere in a batch of audit events makes the whole call panic, whatever else the page
  holds, and the token is not advanced: the loop reads the time of every event before the check for nil in
  \<open>shouldSkipAuditEvent\<close> is reached, which means to skip it; without its nulls the same page is read.\<close>

lemma null_event_panics:
  assumes "decode_event_page_token tok = Inr cur"
    and "list_audit_log_events sv cl audit_log_events_page_size (ec_next_page_token cur) c = ((Inr (aes, nx), rl), c')"
    and "flatten_audit_events raw = Inr aes" "JArr js \<in> set raw" "JNull \<in> set js"
  shows "list_events sv cl f earliest tok c = ((Inl nil_dereference, with_rate_limiting [] rl), c')
    \<and> should_skip_audit_event None
    \<and> (\<exists>evs cur'. feed_page (fd_agreements_enabled f) earliest cur (filter (\<lambda>x. x \<noteq> None) aes) nx = Inr (evs, cur'))"
proof -
  have "None \<in> set aes" by (rule batch_null [OF assms(3-5)])
  then have "feed_page (fd_agreements_enabled f) earliest cur aes nx = Inl nil_dereference"
    by (simp add: feed_page_def feed_loop_nil split: prod.splits)
  moreover have "should_skip_audit_event None" by (simp add: should_skip_audit_event_def)
  moreover have "None \<notin> set (filter (\<lambda>x. x \<noteq> None) aes)" by auto
  ultimately show ?thesis using readable_page assms(1,2) by (simp add: list_events_def Let_def)
qed

lemma first_page:
  assumes "flatten_audit_events js = Inr aes" "page_items_ok js"
  shows "list_audit_log_events (paged_server (\<lambda>_ _. (js, [])) sv) (static_client ''secret'') audit_log_events_page_size
      (ec_next_page_token zero_event_cursor) c = ((Inr (aes, []), Some no_limits), c\<lparr>cn_rate_limit := None\<rparr>)"
  using list_audit_log_events_site [OF _ _ assms(2,1), of "''secret''" "\<lambda>_ _. (js, [])" "[]" "[]" sv c]
  by (simp add: page_link_def zero_event_cursor_def)

definition null_batch :: "json list" where
  "null_batch = [JArr [event_json ''e1'' ''2025-01-02T03:00:01Z'', JNull]]"

lemma null_batch_facts:
  "page_items_ok null_batch"
  "flatten_audit_events null_batch = Inr [Some (sample_event ''e1'' ''2025-01-02T03:00:01Z''), None]"
proof -
  show "page_items_ok null_batch" by (simp add: null_batch_def page_items_ok_def event_json_ok)
  show "flatten_audit_events null_batch = Inr [Some (sample_event ''e1'' ''2025-01-02T03:00:01Z''), None]"
    by (simp add: null_batch_def flatten_audit_events_def flatten_entry_def elem_pointer_def event_json_decoded)
      (simp add: event_json_def)
qed

lemma null_event_panics_witness:
  "\<forall>(sv :: unit svc) c. \<exists>an c'. list_events (paged_server (\<lambda>_ _. (null_batch, [])) sv) (static_client ''secret'') sample_feed None [] c =
     ((Inl nil_dereference, an), c')"
proof (intro allI)
  fix sv :: "unit svc" and c
  have d: "decode_event_page_token [] = Inr zero_event_cursor" by (simp add: decode_event_page_token_def)
  have n: "JArr [event_json ''e1'' ''2025-01-02T03:00:01Z'', JNull] \<in> set null_batch"
    "JNull \<in> set [event_json ''e1'' ''2025-01-02T03:00:01Z'', JNull]" by (simp_all add: null_batch_def)
  from null_event_panics [OF d first_page [OF null_batch_facts(2,1)] null_batch_facts(2) n]
  show "\<exists>an c'. list_events (paged_server (\<lambda>_ _. (null_batch, [])) sv) (static_client ''secret'') sample_feed None [] c =
     ((Inl nil_dereference, an), c')" by blast
qed

text \<open>C38: An event dated with a zone a day away blocks the feed. The parser of event times takes such zones
  (\<open>+24:00\<close>), and any page of readable events is processed; but when the page has an event later than all the
  cursor knows and its latest events have such zones, the cursor that remembers the time cannot be encoded:
  the call fails, every event of the page is withheld with it, and the platform, left with its old token, fails
  again however often it asks while the page's latest events are these.\<close>

theorem far_zone_blocks_the_feed:
  assumes "decode_event_page_token tok = Inr cur"
    and "list_audit_log_events sv cl audit_log_events_page_size (ec_next_page_token cur) c = ((Inr (map Some es, nx), rl), c')"
    and "latest_is_far cur es"
  shows "list_events sv cl f earliest tok c =
      ((Inl (Wrap [S ''baton-ramp: failed to encode event page token: ''] (Plain [S ''json'']) []), with_rate_limiting [] rl), c')
    \<and> (case feed_floor earliest cur of (floor, ids) \<Rightarrow>
        \<exists>cur'. feed_page (fd_agreements_enabled f) earliest cur (map Some es) nx =
          Inr (emitted (fd_agreements_enabled f) floor ids es, cur'))"
proof -
  obtain floor ids where fi: "feed_floor earliest cur = (floor, ids)" by fastforce
  obtain cur' where p: "feed_page (fd_agreements_enabled f) earliest cur (map Some es) nx =
      Inr (emitted (fd_agreements_enabled f) floor ids es, cur')" using feed_page_total [OF fi] by blast
  from far_cursor [OF p assms(3)] p fi assms(1,2) show ?thesis by (simp add: list_events_def Let_def)
qed

definition far_page :: "json list" where
  "far_page = [event_json ''e2'' ''2025-01-03T03:00:01+24:00'', event_json ''e1'' ''2025-01-02T03:00:00Z'']"

lemma far_page_facts:
  "page_items_ok far_page"
  "flatten_audit_events far_page =
     Inr (map Some [sample_event ''e2'' ''2025-01-03T03:00:01+24:00'', sample_event ''e1'' ''2025-01-02T03:00:00Z''])"
proof -
  show "page_items_ok far_page" by (simp add: far_page_def page_items_ok_def event_json_ok)
  show "flatten_audit_events far_page =
     Inr (map Some [sample_event ''e2'' ''2025-01-03T03:00:01+24:00'', sample_event ''e1'' ''2025-01-02T03:00:00Z''])"
    by (simp add: far_page_def flatten_audit_events_def flatten_entry_def event_json_decoded)
      (simp add: event_json_def flatten_entry_def event_json_decoded [unfolded event_json_def])
qed

theorem far_zone_blocks_the_feed_witness:
  "\<forall>(sv :: unit svc) c. \<exists>e an c'. list_events (paged_server (\<lambda>_ _. (far_page, [])) sv) (static_client ''secret'') sample_feed None [] c =
     ((Inl e, an), c')"
proof (intro allI)
  fix sv :: "unit svc" and c
  have d: "decode_event_page_token [] = Inr zero_event_cursor" by (simp add: decode_event_page_token_def)
  have far: "latest_is_far zero_event_cursor [sample_event ''e2'' ''2025-01-03T03:00:01+24:00'', sample_event ''e1'' ''2025-01-02T03:00:00Z'']"
    by code_simp
  from far_zone_blocks_the_feed [OF d first_page [OF far_page_facts(2,1)] far]
  show "\<exists>e an c'. list_events (paged_server (\<lambda>_ _. (far_page, [])) sv) (static_client ''secret'') sample_feed None [] c =
     ((Inl e, an), c')" by blast
qed

end
