(* ===== verification/Full_Sync.thy ===== *)
theory Full_Sync
  imports Agreement_Claims Vendor_Claims User_Claims Follow Site_Server
begin

text \<open>
  Whole listings: each syncer's \<open>List\<close> called page after page until there is no next token, as the SDK's
  syncer does, over whatever pages the server has. The interface \<open>listing\<close> is interpreted on the list
  operation of each resource type and on the grants of a role.
\<close>

section \<open>Vendors\<close>

definition vendor_fetch ::
    "'w svc \<Rightarrow> 'w client \<Rightarrow> string \<Rightarrow> vendor_owners \<times> 'w conn
       \<Rightarrow> (gerror + (resource list \<times> string)) \<times> vendor_owners \<times> 'w conn" where
  "vendor_fetch sv cl t s = (case vendor_list sv cl t (fst s) (snd s) of ((r, _), s') \<Rightarrow> (r, s'))"

text \<open>The server answers a token with a page of usable vendors and a next token, each time it is asked.\<close>

definition vendors_answer :: "'w svc \<Rightarrow> 'w client \<Rightarrow> string \<Rightarrow> vendor list \<Rightarrow> string \<Rightarrow> bool" where
  "vendors_answer sv cl t vs nx =
     (list_all vendor_ok vs
      \<and> (\<forall>c. \<exists>rl c'. list_vendors sv cl t c = ((Inr \<lparr>vr_vendors = map Some vs, vr_pagination = nx\<rparr>, rl), c')))"

definition owners_of :: "(string \<times> 'v) list \<Rightarrow> 'v owners \<Rightarrow> bool" where
  "owners_of entries m = (\<forall>k. owners_find m k = map_of (rev entries) k)"

lemma vendor_page_total:
  "list_all vendor_ok vs \<Longrightarrow>
     vendor_page sv (map Some vs) m = (Inr (map (vendor_resource_of sv) vs), ow.put_page (map vendor_entry vs) m)"
  by (induction vs arbitrary: m) (simp_all add: ow.put_page_def vendor_entry_def vendor_resource_ok)

lemma owners_first: "owners_of xs (ow.put_page xs (owners_begin [] m))"
  using ow.find_fresh [of m] ow.ready_start [of "[]" m]
  by (simp add: owners_of_def ow.find_put_page split: option.split)

lemma owners_later: "t \<noteq> [] \<Longrightarrow> owners_of old m \<Longrightarrow> owners_of (old @ xs) (ow.put_page xs (owners_begin t m))"
  using ow.find_later [of t m] ow.ready_start [of t m]
  by (simp add: owners_of_def ow.find_put_page map_add_def split: option.split)

interpretation vendor_sync: listing "vendor_fetch sv cl" "vendors_answer sv cl" "map (vendor_resource_of sv)"
  "\<lambda>_. True" "\<lambda>vs s. owners_of (map vendor_entry vs) (fst s)" for sv :: "'w svc" and cl :: "'w client"
proof
  fix xs nx and s :: "vendor_owners \<times> 'w conn"
  assume a: "vendors_answer sv cl [] xs nx"
  obtain rl c' where "list_vendors sv cl [] (snd s) = ((Inr \<lparr>vr_vendors = map Some xs, vr_pagination = nx\<rparr>, rl), c')"
    using a unfolding vendors_answer_def by blast
  with a show "\<exists>s'. vendor_fetch sv cl [] s = (Inr (map (vendor_resource_of sv) xs, nx), s')
      \<and> owners_of (map vendor_entry xs) (fst s')"
    by (simp add: vendor_fetch_def vendor_list_def vendor_page_total vendors_answer_def owners_first)
next
  fix t xs nx old and s :: "vendor_owners \<times> 'w conn"
  assume a: "vendors_answer sv cl t xs nx" and t: "t \<noteq> []" and h: "owners_of (map vendor_entry old) (fst s)"
  obtain rl c' where "list_vendors sv cl t (snd s) = ((Inr \<lparr>vr_vendors = map Some xs, vr_pagination = nx\<rparr>, rl), c')"
    using a unfolding vendors_answer_def by blast
  with a owners_later [OF t h] show "\<exists>s'. vendor_fetch sv cl t s = (Inr (map (vendor_resource_of sv) xs, nx), s')
      \<and> owners_of (map vendor_entry (old @ xs)) (fst s')"
    by (simp add: vendor_fetch_def vendor_list_def vendor_page_total vendors_answer_def)
qed

section \<open>Agreements\<close>

definition agreement_fetch ::
    "'w svc \<Rightarrow> 'w client \<Rightarrow> string \<Rightarrow> agreement_owners \<times> 'w conn
       \<Rightarrow> (gerror + (resource list \<times> string)) \<times> agreement_owners \<times> 'w conn" where
  "agreement_fetch sv cl t s = (case agreement_list sv cl t (fst s) (snd s) of ((r, _), s') \<Rightarrow> (r, s'))"

definition agreements_answer :: "'w svc \<Rightarrow> 'w client \<Rightarrow> string \<Rightarrow> agreement_item list \<Rightarrow> string \<Rightarrow> bool" where
  "agreements_answer sv cl t as nx =
     (list_all agreement_ok as
      \<and> (\<forall>c. \<exists>rl c'. list_vendor_agreements sv cl (Some empty_agreements_request) t c =
            ((Inr \<lparr>gs_agreements = map Some as, gs_pagination = nx\<rparr>, rl), c')))"

definition agreement_resources :: "'w svc \<Rightarrow> agreement_item list \<Rightarrow> resource list" where
  "agreement_resources sv as =
     concat (map (\<lambda>a. case build_agreement_resource sv a of Inl e \<Rightarrow> [] | Inr r \<Rightarrow> [r]) as)"

lemma agreement_page_total:
  "list_all agreement_ok as \<Longrightarrow>
     agreement_page sv (map Some as) m = (Inr (agreement_resources sv as), ow.put_page (map agreement_entry as) m)"
proof (induction as arbitrary: m)
  case (Cons a as)
  then obtain r where "build_agreement_resource sv a = Inr r" using build_agreement_iff [of sv a] by auto
  with Cons show ?case by (simp add: agreement_resources_def ow.put_page_def agreement_entry_def Let_def)
qed (simp add: agreement_resources_def ow.put_page_def)

interpretation agreement_sync: listing "agreement_fetch sv cl" "agreements_answer sv cl" "agreement_resources sv"
  "\<lambda>_. True" "\<lambda>as s. owners_of (map agreement_entry as) (fst s)" for sv :: "'w svc" and cl :: "'w client"
proof
  fix xs nx and s :: "agreement_owners \<times> 'w conn"
  assume a: "agreements_answer sv cl [] xs nx"
  obtain rl c' where "list_vendor_agreements sv cl (Some empty_agreements_request) [] (snd s) =
      ((Inr \<lparr>gs_agreements = map Some xs, gs_pagination = nx\<rparr>, rl), c')"
    using a unfolding agreements_answer_def by blast
  with a show "\<exists>s'. agreement_fetch sv cl [] s = (Inr (agreement_resources sv xs, nx), s')
      \<and> owners_of (map agreement_entry xs) (fst s')"
    by (simp add: agreement_fetch_def agreement_list_def agreement_page_total agreements_answer_def owners_first)
next
  fix t xs nx old and s :: "agreement_owners \<times> 'w conn"
  assume a: "agreements_answer sv cl t xs nx" and t: "t \<noteq> []" and h: "owners_of (map agreement_entry old) (fst s)"
  obtain rl c' where "list_vendor_agreements sv cl (Some empty_agreements_request) t (snd s) =
      ((Inr \<lparr>gs_agreements = map Some xs, gs_pagination = nx\<rparr>, rl), c')"
    using a unfolding agreements_answer_def by blast
  with a owners_later [OF t h] show "\<exists>s'. agreement_fetch sv cl t s = (Inr (agreement_resources sv xs, nx), s')
      \<and> owners_of (map agreement_entry (old @ xs)) (fst s')"
    by (simp add: agreement_fetch_def agreement_list_def agreement_page_total agreements_answer_def)
qed

section \<open>Users and roles\<close>

definition user_fetch ::
    "'w svc \<Rightarrow> 'w client \<Rightarrow> string \<Rightarrow> 'w conn \<Rightarrow> (gerror + (resource list \<times> string)) \<times> 'w conn" where
  "user_fetch sv cl t c = (case user_list sv cl t c of (((r, _), _), c') \<Rightarrow> (r, c'))"

definition users_answer :: "'w svc \<Rightarrow> 'w client \<Rightarrow> string \<Rightarrow> string \<Rightarrow> user list \<Rightarrow> string \<Rightarrow> bool" where
  "users_answer sv cl role t us nx =
     (\<forall>c. \<exists>rl c'. list_users_role sv cl t role c = ((Inr \<lparr>ur_users = map Some us, ur_pagination = nx\<rparr>, rl), c'))"

lemma user_fetch_page:
  assumes "users_answer sv cl [] t us nx"
  shows "\<exists>c'. user_fetch sv cl t c = (Inr (map resource_of_user us, nx), c')"
proof -
  obtain rl c' where "list_users sv cl t c = ((Inr \<lparr>ur_users = map Some us, ur_pagination = nx\<rparr>, rl), c')"
    using assms unfolding users_answer_def list_users_def by blast
  then show ?thesis by (simp add: user_fetch_def user_list_def user_page_loop_spec Let_def)
qed

interpretation user_sync: listing "user_fetch sv cl" "users_answer sv cl []" "map resource_of_user" "\<lambda>_. True" "\<lambda>_ _. True"
  for sv cl
  by unfold_locales (simp_all add: user_fetch_page)

definition role_fetch ::
    "'w svc \<Rightarrow> 'w client \<Rightarrow> resource \<Rightarrow> string \<Rightarrow> 'w conn \<Rightarrow> (gerror + (grant list \<times> string)) \<times> 'w conn" where
  "role_fetch sv cl r t c = (case role_grants sv cl r t c of ((q, _), c') \<Rightarrow> (q, c'))"

definition role_parameter :: "role \<Rightarrow> string" where
  "role_parameter k = (if has_prefix (ro_id k) ''UNBUNDLED_'' then [] else ro_id k)"

definition memberships :: "unicode_tables \<Rightarrow> role \<Rightarrow> resource \<Rightarrow> user list \<Rightarrow> grant list" where
  "memberships U k r us = map (\<lambda>u. new_grant r member_entitlement (new_resource_id user_resource_type (us_id u)))
     (filter (\<lambda>u. normalize_ramp_role U (us_role u) = ro_id k) us)"

text \<open>The resource of a role of the table.\<close>

definition role_named :: "role \<Rightarrow> resource \<Rightarrow> bool" where
  "role_named k r = (k \<in> set roles \<and> ri_resource (res_id r) = role_prefix @ ro_id k)"

lemma role_fetch_page:
  assumes "role_named k r" "users_answer sv cl (role_parameter k) t us nx"
  shows "\<exists>c'. role_fetch sv cl r t c = (Inr (memberships (sv_unicode sv) k r us, nx), c')"
proof -
  let ?U = "sv_unicode sv"
  have k: "k \<in> set roles" and ri: "ri_resource (res_id r) = role_prefix @ ro_id k"
    using assms(1) by (simp_all add: role_named_def)
  have n: "normalize_ramp_role ?U (ro_id k) = ro_id k" using k by (rule role_ids_normal)
  have f: "can_filter_users_by_role ?U (ro_id k) \<longleftrightarrow> \<not> has_prefix (ro_id k) ''UNBUNDLED_''"
    unfolding can_filter_users_by_role_def n using k by (auto simp: roles_def has_prefix_def)
  obtain rl c' where "list_users_role sv cl t (role_parameter k) c =
      ((Inr \<lparr>ur_users = map Some us, ur_pagination = nx\<rparr>, rl), c')"
    using assms(2) unfolding users_answer_def by blast
  then show ?thesis
    by (simp add: role_fetch_def role_grants_def ri n f role_parameter_def list_users_def list_users_by_role_def
        role_page_grants_spec memberships_def Let_def split: if_splits)
qed

definition role_answer :: "'w svc \<Rightarrow> 'w client \<Rightarrow> role \<Rightarrow> resource \<Rightarrow> string \<Rightarrow> user list \<Rightarrow> string \<Rightarrow> bool" where
  "role_answer sv cl k r t us nx = (role_named k r \<and> users_answer sv cl (role_parameter k) t us nx)"

interpretation role_sync: listing "role_fetch sv cl r" "role_answer sv cl k r" "memberships (sv_unicode sv) k r"
  "\<lambda>_. True" "\<lambda>_ _. True"
  for sv cl k r
  by unfold_locales (simp_all add: role_answer_def role_fetch_page)

end
