(* ===== verification/Sync_Claims.thy ===== *)
theory Sync_Claims
  imports Full_Sync
begin

text \<open>
  Properties of whole listings: a complete sync of each resource type ends with exactly what the server
  has, and the grants asked for afterwards.
\<close>

section \<open>After a whole listing\<close>

lemma sync_items: "concat (map (map f \<circ> snd) ps) = map f (concat (map snd ps))"
  by (induction ps) simp_all

lemma map_of_listed:
  assumes "x \<in> set xs" "distinct (map f xs)" "\<And>x. e x = (f x, g x)"
  shows "map_of (rev (map e xs)) (f x) = Some (g x)"
proof -
  have "distinct (map fst (rev (map e xs)))" using assms(2) by (simp add: rev_map [symmetric] assms(3) o_def)
  moreover have "(f x, g x) \<in> set (rev (map e xs))" using assms(1,3) by force
  ultimately show ?thesis by simp
qed

lemma served_vendors_ok:
  "served (vendors_answer sv cl) ps \<Longrightarrow> list_all vendor_ok (concat (map snd ps))"
  by (induction ps) (auto simp: vendors_answer_def)

lemma served_agreements_ok:
  "served (agreements_answer sv cl) ps \<Longrightarrow> list_all agreement_ok (concat (map snd ps))"
  by (induction ps) (auto simp: agreements_answer_def)

lemma agreement_resources_concat:
  "concat (map (agreement_resources sv \<circ> snd) ps) = agreement_resources sv (concat (map snd ps))"
  by (induction ps) (simp_all add: agreement_resources_def)

lemma agreement_resources_built:
  "list_all agreement_ok as \<Longrightarrow> list_all2 (\<lambda>a r. build_agreement_resource sv a = Inr r) as (agreement_resources sv as)"
proof (induction as)
  case (Cons a as)
  then obtain r where "build_agreement_resource sv a = Inr r" using build_agreement_iff [of sv a] by auto
  with Cons show ?case by (simp add: agreement_resources_def)
qed (simp add: agreement_resources_def)

lemma built_id:
  assumes "build_agreement_resource sv a = Inr r"
  shows "ri_resource (res_id r) = ai_id a"
proof -
  have "agreement_ok a" using assms build_agreement_iff by blast
  then obtain d where d: "agreement_dates a = Inr d" by (auto simp: agreement_ok_def split: sum.splits)
  from build_agreement_ok [OF d \<open>agreement_ok a\<close>, of sv] assms show ?thesis
    by (cases d) (auto simp: agreement_resource_of_def)
qed

section \<open>The sync of every role\<close>

text \<open>One sync after another; the first error ends it.\<close>

fun sync_each ::
    "('r \<Rightarrow> 's \<Rightarrow> (('e + 'g) \<times> 's) option) \<Rightarrow> 'r list \<Rightarrow> 's \<Rightarrow> (('e + 'g list) \<times> 's) option" where
  "sync_each f [] s = Some (Inr [], s)"
| "sync_each f (r # rs) s =
     (case f r s of
        None \<Rightarrow> None
      | Some (Inl e, s') \<Rightarrow> Some (Inl e, s')
      | Some (Inr g, s') \<Rightarrow>
        (case sync_each f rs s' of
           None \<Rightarrow> None
         | Some (Inl e, s'') \<Rightarrow> Some (Inl e, s'')
         | Some (Inr gs, s'') \<Rightarrow> Some (Inr (g # gs), s'')))"

lemma sync_each_all:
  "list_all2 (\<lambda>r g. \<forall>s. \<exists>s'. f r s = Some (Inr g, s')) rs gs \<Longrightarrow> \<exists>s'. sync_each f rs s = Some (Inr gs, s')"
proof (induction arbitrary: s rule: list_all2_induct)
  case (Cons r rs g gs)
  obtain s' where "f r s = Some (Inr g, s')" using Cons.hyps by blast
  moreover obtain s'' where "sync_each f rs s' = Some (Inr gs, s'')" using Cons.IH by blast
  ultimately show ?case by simp
qed simp

text \<open>For every role the server has pages that show every user of that role as often as the list of users
  does; users of other roles may be among them.\<close>

definition serves_roles ::
    "'w svc \<Rightarrow> 'w client \<Rightarrow> user list \<Rightarrow> (role \<Rightarrow> user list \<times> (string \<times> user list) list) \<Rightarrow> bool" where
  "serves_roles sv cl us pages =
     list_all (\<lambda>k. case pages k of (xs, ps) \<Rightarrow>
         served (users_answer sv cl (role_parameter k)) (([], xs) # ps)
         \<and> filter (\<lambda>u. normalize_ramp_role (sv_unicode sv) (us_role u) = ro_id k) (xs @ concat (map snd ps)) =
           filter (\<lambda>u. normalize_ramp_role (sv_unicode sv) (us_role u) = ro_id k) us) roles"

lemma served_role:
  "served (users_answer sv cl (role_parameter k)) ps \<Longrightarrow> role_named k r \<Longrightarrow> served (role_answer sv cl k r) ps"
  by (induction ps) (auto simp: role_answer_def)

lemma memberships_concat: "concat (map (memberships U k r \<circ> snd) ps) = memberships U k r (concat (map snd ps))"
  by (induction ps) (simp_all add: memberships_def)

lemma role_synced:
  assumes "serves_roles sv cl us pages" "role_named k r"
  shows "\<exists>c'. sync_all (role_fetch sv cl r) c = Some (Inr (memberships (sv_unicode sv) k r us), c')"
proof -
  obtain xs ps where p: "pages k = (xs, ps)" by fastforce
  have k: "k \<in> set roles" using assms(2) by (simp add: role_named_def)
  note q = bspec [OF assms(1) [unfolded serves_roles_def list_all_iff] k, unfolded p prod.case]
  then have s: "served (users_answer sv cl (role_parameter k)) (([], xs) # ps)"
    and f: "filter (\<lambda>u. normalize_ramp_role (sv_unicode sv) (us_role u) = ro_id k) (xs @ concat (map snd ps)) =
      filter (\<lambda>u. normalize_ramp_role (sv_unicode sv) (us_role u) = ro_id k) us"
    by (rule conjunct1, rule conjunct2)
  have "concat (map (memberships (sv_unicode sv) k r \<circ> snd) (([], xs) # ps)) = memberships (sv_unicode sv) k r us"
    unfolding memberships_concat using f by (simp add: memberships_def)
  with role_sync.sync_served [OF served_role [OF s assms(2)], of c] show ?thesis by fastforce
qed

text \<open>The resources that the list of roles gives, one for each role of the table.\<close>

lemma role_list_named: "\<exists>rs. role_list = (Inr (rs, []), []) \<and> list_all2 role_named roles rs"
proof -
  obtain rs where rs: "role_list = (Inr (rs, []), [])"
    and ids: "map (ri_resource \<circ> res_id) rs = map (\<lambda>k. role_prefix @ ro_id k) roles"
    using role_list_ok by blast
  have "length rs = length roles" using ids by (metis length_map)
  moreover have "ri_resource (res_id (rs ! i)) = role_prefix @ ro_id (roles ! i)" if "i < length roles" for i
    using that calculation arg_cong [OF ids, of "\<lambda>l. l ! i"] by simp
  ultimately have "list_all2 role_named roles rs" by (simp add: list_all2_conv_all_nth role_named_def)
  with rs show ?thesis by blast
qed

definition user_principal :: "user \<Rightarrow> resource_id" where
  "user_principal u = new_resource_id user_resource_type (us_id u)"

lemma memberships_of_user:
  assumes "u \<in> set us" "distinct (map us_id us)"
  shows "length (filter (\<lambda>g. gr_principal g = user_principal u) (memberships U k r us)) =
    (if normalize_ramp_role U (us_role u) = ro_id k then 1 else 0)"
  using assms
proof (induction us)
  case (Cons x us)
  have same: "user_principal x = user_principal y \<longleftrightarrow> us_id x = us_id y" for x y
    by (simp add: user_principal_def new_resource_id_def)
  have others: "length (filter (\<lambda>g. gr_principal g = user_principal y) (memberships U k r us)) = 0"
    if "us_id y \<notin> us_id ` set us" for y
    using that same by (auto simp: memberships_def new_grant_def user_principal_def [symmetric] filter_empty_conv image_iff)
  show ?case
  proof (cases "u = x")
    case True
    with others [of x] Cons.prems show ?thesis by (auto simp: memberships_def new_grant_def user_principal_def)
  next
    case False
    with Cons.prems have u: "u \<in> set us" by simp
    then have "us_id u \<in> us_id ` set us" by simp
    with Cons.prems(2) have "us_id u \<noteq> us_id x" by auto
    with u Cons same [of x u] show ?thesis
      by (auto simp: memberships_def new_grant_def user_principal_def new_resource_id_def)
  qed
qed simp

lemma count_roles: "sum_list (map (\<lambda>k. if n = ro_id k then 1 else 0) ks) = length (filter (\<lambda>k. ro_id k = n) ks)"
  by (induction ks) auto

lemma one_with_key: "distinct (map f xs) \<Longrightarrow> x \<in> set xs \<Longrightarrow> length (filter (\<lambda>y. f y = f x) xs) = 1"
proof (induction xs)
  case (Cons y ys)
  have none: "filter (\<lambda>z. f z = f y) ys = []" using Cons.prems(1) by (auto simp: filter_empty_conv image_iff)
  show ?case
  proof (cases "x = y")
    case False
    with Cons.prems have "x \<in> set ys" "f y \<noteq> f x" by auto
    with Cons show ?thesis by simp
  qed (use none in simp)
qed simp

lemma one_known_role:
  "length (filter (\<lambda>k. ro_id k = normalize_ramp_role U s) roles) = (if is_known_ramp_role U s then 1 else 0)"
proof (cases "is_known_ramp_role U s")
  case True
  then obtain k where "k \<in> set roles" "ro_id k = normalize_ramp_role U s" by (auto simp: known_role_iff)
  with True one_with_key [OF role_ids_distinct, of k] show ?thesis by simp
next
  case False
  then have "ro_id k \<noteq> normalize_ramp_role U s" if "k \<in> set roles" for k using that unfolding known_role_iff by (metis imageI)
  then have "filter (\<lambda>k. ro_id k = normalize_ramp_role U s) roles = []" by (auto simp: filter_empty_conv)
  with False show ?thesis by simp
qed

lemma memberships_over_roles:
  assumes "u \<in> set us" "distinct (map us_id us)"
  shows "length (filter (\<lambda>g. gr_principal g = user_principal u)
      (concat (map2 (\<lambda>k r. memberships U k r us) ks rs))) =
    sum_list (map (\<lambda>(k, r). if normalize_ramp_role U (us_role u) = ro_id k then 1 else 0) (zip ks rs))"
  by (induction ks rs rule: list_induct2') (simp_all add: memberships_of_user [OF assms])

section \<open>Two pages\<close>

text \<open>For the witnesses: a server with one item on each of two pages.\<close>

definition two_pages :: "json \<Rightarrow> json \<Rightarrow> string \<Rightarrow> json list \<times> string" where
  "two_pages a b s = (if s = [] then ([a], ''p2'') else ([b], []))"

lemma served_two:
  "answers [] xs (page_link p ''p2'') \<Longrightarrow> answers (page_link p ''p2'') ys [] \<Longrightarrow>
     served answers (([], xs) # [(page_link p ''p2'', ys)])"
  by (simp add: page_link_empty)

lemma first_link: "page_link p [] = []"
  by (simp add: page_link_def)

text \<open>Agreements and users with an identifier of their own.\<close>

definition contract_json :: "string \<Rightarrow> string \<Rightarrow> json" where
  "contract_json i o' = JObj
     [(''id'', JStr i), (''name'', JStr ''Contract''), (''payee_id'', JStr ''v1''), (''contract_owners'', JArr [JObj [(''id'', JStr o')]])]"

definition contract_named :: "string \<Rightarrow> string \<Rightarrow> agreement_item" where
  "contract_named i o' = zero_agreement_item
     \<lparr>ai_id := i, ai_name := ''Contract'', ai_payee_id := ''v1'', ai_contract_owners := [zero_contract_owner\<lparr>co_id := o'\<rparr>]\<rparr>"

definition member_json :: "string \<Rightarrow> string \<Rightarrow> json" where
  "member_json i r = JObj [(''id'', JStr i), (''email'', JStr ''ada''), (''role'', JStr r)]"

definition member_named :: "string \<Rightarrow> string \<Rightarrow> user" where
  "member_named i r = zero_user\<lparr>us_id := i, us_email := ''ada'', us_role := r\<rparr>"

text \<open>The server: two vendors, two agreements and two users, one on each page.\<close>

definition two_site :: "string \<Rightarrow> string \<Rightarrow> json list \<times> string" where
  "two_site p =
     (if p = vendors_path then two_pages (vendor_json ''v1'' ''alice'') (vendor_json ''v2'' [])
      else if p = vendor_agreements_path then two_pages (contract_json ''a1'' ''u1'') (contract_json ''a2'' ''u2'')
      else two_pages (member_json ''u1'' '' auditor'') (member_json ''u2'' ''CEO''))"

definition two_server :: "'w svc \<Rightarrow> 'w svc" where
  "two_server = paged_server two_site"

lemma two_site_pages:
  "two_site vendors_path = two_pages (vendor_json ''v1'' ''alice'') (vendor_json ''v2'' [])"
  "two_site vendor_agreements_path = two_pages (contract_json ''a1'' ''u1'') (contract_json ''a2'' ''u2'')"
  "two_site users_endpoint = two_pages (member_json ''u1'' '' auditor'') (member_json ''u2'' ''CEO'')"
  by (simp_all add: two_site_def vendors_path_def vendor_agreements_path_def users_endpoint_def)

lemma two_vendor_pages:
  "two_site vendors_path [] = ([vendor_json ''v1'' ''alice''], ''p2'')" "two_site vendors_path ''p2'' = ([vendor_json ''v2'' []], [])"
  by (simp_all add: two_site_pages two_pages_def)

lemma two_contract_pages:
  "two_site vendor_agreements_path [] = ([contract_json ''a1'' ''u1''], ''p2'')"
  "two_site vendor_agreements_path ''p2'' = ([contract_json ''a2'' ''u2''], [])"
  by (simp_all add: two_site_pages two_pages_def)

lemma two_member_site:
  "two_site users_endpoint [] = ([member_json ''u1'' '' auditor''], ''p2'')"
  "two_site users_endpoint ''p2'' = ([member_json ''u2'' ''CEO''], [])"
  by (simp_all add: two_site_pages two_pages_def)

lemma one_vendor:
  assumes "valid_utf8 v" "valid_utf8 o'"
  shows "page_items_ok [vendor_json v o']"
    "decode_elems (elem_pointer decode_vendor zero_vendor) None [vendor_json v o'] [] = Some [Some (vendor_named v o')]"
  using vendor_json_ok [OF assms] by (simp_all add: page_items_ok_def elem_pointer_def) (simp_all add: vendor_json_def)

lemma two_vendors_served:
  "served (vendors_answer (two_server sv) (static_client ''secret''))
     (([], [vendor_named ''v1'' ''alice'']) # [(page_link vendors_path ''p2'', [vendor_named ''v2'' []])])"
proof (rule served_two)
  have ok: "valid_utf8 ''v1''" "valid_utf8 ''alice''" "valid_utf8 ''v2''" "valid_utf8 []" by (rule valid_utf8_ascii, simp)+
  note a = one_vendor [OF ok(1,2)] and b = one_vendor [OF ok(3,4)]
  have vok: "vendor_ok (vendor_named v o')" if "v \<noteq> []" for v o' using that by (simp add: vendor_ok_def vendor_named_def)
  have "list_vendors (two_server sv) (static_client ''secret'') [] c =
      ((Inr \<lparr>vr_vendors = [Some (vendor_named ''v1'' ''alice'')], vr_pagination = page_link vendors_path ''p2''\<rparr>, Some no_limits),
       c\<lparr>cn_rate_limit := None\<rparr>)" for c
    unfolding two_server_def by (rule list_vendors_site [where pages = two_site, OF _ two_vendor_pages(1) a, unfolded first_link]) simp
  then show "vendors_answer (two_server sv) (static_client ''secret'') [] [vendor_named ''v1'' ''alice'']
      (page_link vendors_path ''p2'')"
    by (simp add: vendors_answer_def vok)
  have "list_vendors (two_server sv) (static_client ''secret'') (page_link vendors_path ''p2'') c =
      ((Inr \<lparr>vr_vendors = [Some (vendor_named ''v2'' [])], vr_pagination = []\<rparr>, Some no_limits),
       c\<lparr>cn_rate_limit := None\<rparr>)" for c
    unfolding two_server_def by (rule list_vendors_site [where pages = two_site, OF _ two_vendor_pages(2) b, unfolded first_link]) simp
  then show "vendors_answer (two_server sv) (static_client ''secret'') (page_link vendors_path ''p2'') [vendor_named ''v2'' []] []"
    by (simp add: vendors_answer_def vok)
qed

lemma one_contract:
  assumes "valid_utf8 i" "valid_utf8 o'"
  shows "page_items_ok [contract_json i o']"
    "decode_elems (elem_pointer decode_agreement_item zero_agreement_item) None [contract_json i o'] [] =
       Some [Some (contract_named i o')]"
    "agreement_ok (contract_named i o')"
proof -
  have k: "valid_utf8 ''id''" "valid_utf8 ''name''" "valid_utf8 ''payee_id''" "valid_utf8 ''contract_owners''"
    "valid_utf8 ''Contract''" "valid_utf8 ''v1''"
    by (rule valid_utf8_ascii, simp)+
  show "page_items_ok [contract_json i o']" using k assms by (simp add: page_items_ok_def contract_json_def)
  have d: "decode_agreement_item (contract_json i o') zero_agreement_item = Some (contract_named i o')"
    by (simp add: contract_json_def decode_agreement_item_def key_matches_ascii fold_rune_def dec_list_def
        decode_contract_owner_def contract_named_def zero_agreement_item_def zero_contract_owner_def)
  show "decode_elems (elem_pointer decode_agreement_item zero_agreement_item) None [contract_json i o'] [] =
       Some [Some (contract_named i o')]"
    by (simp add: elem_pointer_def d) (simp add: contract_json_def)
  have "parse_ramp_date [] = Inr zero_time" by (simp add: parse_ramp_date_def)
  then have "agreement_dates (contract_named i o') = Inr (zero_time, zero_time, zero_time)"
    by (simp add: agreement_dates_def contract_named_def zero_agreement_item_def)
  then show "agreement_ok (contract_named i o')"
    by (simp add: agreement_ok_def) (simp add: contract_named_def zero_agreement_item_def is_zero_def zero_time_def)
qed

lemma two_contracts_served:
  "served (agreements_answer (two_server sv) (static_client ''secret''))
     (([], [contract_named ''a1'' ''u1'']) # [(page_link vendor_agreements_path ''p2'', [contract_named ''a2'' ''u2''])])"
proof (rule served_two)
  have ok: "valid_utf8 ''a1''" "valid_utf8 ''u1''" "valid_utf8 ''a2''" "valid_utf8 ''u2''" by (rule valid_utf8_ascii, simp)+
  note a = one_contract [OF ok(1,2)] and b = one_contract [OF ok(3,4)]
  note site = list_vendor_agreements_site [where pages = two_site]
  have "list_vendor_agreements (two_server sv) (static_client ''secret'') rq [] c =
      ((Inr \<lparr>gs_agreements = [Some (contract_named ''a1'' ''u1'')], gs_pagination = page_link vendor_agreements_path ''p2''\<rparr>,
        Some no_limits), c\<lparr>cn_rate_limit := None\<rparr>)" for rq c
    unfolding two_server_def by (rule site [OF _ two_contract_pages(1) a(1,2), unfolded first_link]) simp
  then show "agreements_answer (two_server sv) (static_client ''secret'') [] [contract_named ''a1'' ''u1'']
      (page_link vendor_agreements_path ''p2'')"
    by (simp add: agreements_answer_def a(3))
  have "list_vendor_agreements (two_server sv) (static_client ''secret'') rq (page_link vendor_agreements_path ''p2'') c =
      ((Inr \<lparr>gs_agreements = [Some (contract_named ''a2'' ''u2'')], gs_pagination = []\<rparr>, Some no_limits),
       c\<lparr>cn_rate_limit := None\<rparr>)" for rq c
    unfolding two_server_def by (rule site [OF _ two_contract_pages(2) b(1,2), unfolded first_link]) simp
  then show "agreements_answer (two_server sv) (static_client ''secret'') (page_link vendor_agreements_path ''p2'')
      [contract_named ''a2'' ''u2''] []"
    by (simp add: agreements_answer_def b(3))
qed

lemma one_member:
  assumes "valid_utf8 i" "valid_utf8 r"
  shows "page_items_ok [member_json i r]"
    "decode_elems (elem_pointer decode_user zero_user) None [member_json i r] [] = Some [Some (member_named i r)]"
proof -
  have k: "valid_utf8 ''id''" "valid_utf8 ''email''" "valid_utf8 ''role''" "valid_utf8 ''ada''"
    by (rule valid_utf8_ascii, simp)+
  show "page_items_ok [member_json i r]" using k assms by (simp add: page_items_ok_def member_json_def)
  show "decode_elems (elem_pointer decode_user zero_user) None [member_json i r] [] = Some [Some (member_named i r)]"
    by (simp add: member_json_def elem_pointer_def decode_user_def key_matches_ascii fold_rune_def member_named_def zero_user_def)
qed

definition two_member_pages :: "user list \<times> (string \<times> user list) list" where
  "two_member_pages = ([member_named ''u1'' '' auditor''], [(page_link users_endpoint ''p2'', [member_named ''u2'' ''CEO''])])"

lemma two_members_served:
  "served (users_answer (two_server sv) (static_client ''secret'') role) (([], fst two_member_pages) # snd two_member_pages)"
  unfolding two_member_pages_def fst_conv snd_conv
proof (rule served_two)
  have ok: "valid_utf8 ''u1''" "valid_utf8 '' auditor''" "valid_utf8 ''u2''" "valid_utf8 ''CEO''" by (rule valid_utf8_ascii, simp)+
  note a = one_member [OF ok(1,2)] and b = one_member [OF ok(3,4)]
  note site = list_users_site [where pages = two_site]
  have "list_users_role (two_server sv) (static_client ''secret'') [] role c =
      ((Inr \<lparr>ur_users = [Some (member_named ''u1'' '' auditor'')], ur_pagination = page_link users_endpoint ''p2''\<rparr>,
        Some no_limits), c\<lparr>cn_rate_limit := None\<rparr>)" for c
    unfolding two_server_def by (rule site [OF _ two_member_site(1) a, unfolded first_link]) simp
  then show "users_answer (two_server sv) (static_client ''secret'') role [] [member_named ''u1'' '' auditor'']
      (page_link users_endpoint ''p2'')"
    by (simp add: users_answer_def)
  have "list_users_role (two_server sv) (static_client ''secret'') (page_link users_endpoint ''p2'') role c =
      ((Inr \<lparr>ur_users = [Some (member_named ''u2'' ''CEO'')], ur_pagination = []\<rparr>, Some no_limits),
       c\<lparr>cn_rate_limit := None\<rparr>)" for c
    unfolding two_server_def by (rule site [OF _ two_member_site(2) b, unfolded first_link]) simp
  then show "users_answer (two_server sv) (static_client ''secret'') role (page_link users_endpoint ''p2'')
      [member_named ''u2'' ''CEO''] []"
    by (simp add: users_answer_def)
qed

lemma two_members_all:
  "fst two_member_pages @ concat (map snd (snd two_member_pages)) = [member_named ''u1'' '' auditor'', member_named ''u2'' ''CEO'']"
  by (simp add: two_member_pages_def)

lemma two_members_roles:
  "serves_roles (two_server sv) (static_client ''secret'') [member_named ''u1'' '' auditor'', member_named ''u2'' ''CEO'']
     (\<lambda>_. two_member_pages)"
  unfolding two_members_all [symmetric]
  by (simp add: serves_roles_def list_all_iff case_prod_beta two_members_served del: served.simps)

section \<open>Properties\<close>

text \<open>C15: A complete sync of users and roles: the users' resources are exactly the users the server has;
  then every role of the table is asked for its members, each to the end of its pages, and over all the
  roles together every listed user is a member exactly once when its role is known, in any spelling of
  case and surrounding space, and never otherwise.\<close>

theorem role_sync_complete:
  assumes "served (users_answer sv cl []) (([], xs) # ps)" "us = xs @ concat (map snd ps)"
    and "serves_roles sv cl us pages" "distinct (map us_id us)"
  shows "\<exists>rs gss c' c''.
      sync_all (user_fetch sv cl) c = Some (Inr (map resource_of_user us), c')
    \<and> role_list = (Inr (rs, []), [])
    \<and> sync_each (\<lambda>r. sync_all (role_fetch sv cl r)) rs c' = Some (Inr gss, c'')
    \<and> gss = map2 (\<lambda>k r. memberships (sv_unicode sv) k r us) roles rs
    \<and> list_all (\<lambda>u. length (filter (\<lambda>g. gr_principal g = user_principal u) (concat gss)) =
          (if is_known_ramp_role (sv_unicode sv) (us_role u) then 1 else 0)) us"
proof -
  let ?U = "sv_unicode sv"
  have us: "concat (map snd (([], xs) # ps)) = us" using assms(2) by simp
  obtain c' where users: "sync_all (user_fetch sv cl) c = Some (Inr (map resource_of_user us), c')"
    using user_sync.sync_served [OF assms(1), of c] unfolding sync_items us by blast
  obtain rs where rs: "role_list = (Inr (rs, []), [])" "list_all2 role_named roles rs" using role_list_named by blast
  let ?gss = "map2 (\<lambda>k r. memberships ?U k r us) roles rs"
  have len: "length rs = length roles" using rs(2) by (simp add: list_all2_lengthD)
  have "list_all2 (\<lambda>r g. \<forall>s. \<exists>s'. sync_all (role_fetch sv cl r) s = Some (Inr g, s')) rs'
      (map2 (\<lambda>k r. memberships ?U k r us) ks rs')" if "list_all2 role_named ks rs'" for ks rs'
    using that by (induction rule: list_all2_induct) (simp_all add: role_synced [OF assms(3)])
  from sync_each_all [OF this [OF rs(2)], of c'] obtain c'' where each: "sync_each (\<lambda>r. sync_all (role_fetch sv cl r)) rs c' = Some (Inr ?gss, c'')" ..
  have once: "length (filter (\<lambda>g. gr_principal g = user_principal u) (concat ?gss)) =
      (if is_known_ramp_role ?U (us_role u) then 1 else 0)" if "u \<in> set us" for u
  proof -
    have "map (\<lambda>(k, r). if normalize_ramp_role ?U (us_role u) = ro_id k then 1 else 0 :: nat) (zip roles rs) =
        map (\<lambda>k. if normalize_ramp_role ?U (us_role u) = ro_id k then 1 else 0) (map fst (zip roles rs))"
      by (simp add: case_prod_beta')
    then show ?thesis
      unfolding memberships_over_roles [OF that assms(4)] using len by (simp only: map_fst_zip count_roles one_known_role)
  qed
  have "list_all (\<lambda>u. length (filter (\<lambda>g. gr_principal g = user_principal u) (concat ?gss)) =
      (if is_known_ramp_role ?U (us_role u) then 1 else 0)) us"
    unfolding list_all_iff by (intro ballI once)
  with users rs(1) each show ?thesis by (intro exI [of _ rs] exI [of _ ?gss] exI [of _ c'] exI [of _ c''] conjI refl)
qed

theorem role_sync_complete_witness:
  "\<forall>(sv :: unit svc) c. \<exists>rs gss c' c''.
     sync_all (user_fetch (two_server sv) (static_client ''secret'')) c =
       Some (Inr (map resource_of_user [member_named ''u1'' '' auditor'', member_named ''u2'' ''CEO'']), c')
     \<and> role_list = (Inr (rs, []), [])
     \<and> sync_each (\<lambda>r. sync_all (role_fetch (two_server sv) (static_client ''secret'') r)) rs c' = Some (Inr gss, c'')
     \<and> gss = map2 (\<lambda>k r. memberships (sv_unicode (two_server sv)) k r
         [member_named ''u1'' '' auditor'', member_named ''u2'' ''CEO'']) roles rs
     \<and> list_all (\<lambda>u. length (filter (\<lambda>g. gr_principal g = user_principal u) (concat gss)) =
          (if is_known_ramp_role (sv_unicode (two_server sv)) (us_role u) then 1 else 0))
         [member_named ''u1'' '' auditor'', member_named ''u2'' ''CEO'']"
  by (intro allI, rule role_sync_complete [OF two_members_served two_members_all [symmetric] two_members_roles])
    (simp add: member_named_def)

end
