(* ===== verification/Whole_Sync.thy ===== *)
theory Whole_Sync
  imports Connector_Claims Sync_Claims
begin

text \<open>
  A full sync of a connector, as the SDK's syncer drives it: every syncer on offer lists its resources to
  the end, with its own cache of owners; then every resource is asked for its grants, each to the end.
\<close>

section \<open>The operations of a syncer\<close>

text \<open>\<open>List\<close> and \<open>Grants\<close> of the four syncers; a syncer made without a client panics when it calls it.\<close>

definition syncer_list ::
    "'w svc \<Rightarrow> string \<Rightarrow> 'w syncer \<times> 'w conn \<Rightarrow> (gerror + (resource list \<times> string)) \<times> 'w syncer \<times> 'w conn" where
  "syncer_list sv t s =
     (case s of
        (UserSyncer (Some cl), c) \<Rightarrow> (case user_fetch sv cl t c of (r, c') \<Rightarrow> (r, UserSyncer (Some cl), c'))
      | (RoleSyncer cl, c) \<Rightarrow> (fst role_list, RoleSyncer cl, c)
      | (VendorSyncer (Some cl) m, c) \<Rightarrow>
          (case vendor_fetch sv cl t (m, c) of (r, m', c') \<Rightarrow> (r, VendorSyncer (Some cl) m', c'))
      | (VendorAgreementSyncer (Some cl) m, c) \<Rightarrow>
          (case agreement_fetch sv cl t (m, c) of (r, m', c') \<Rightarrow> (r, VendorAgreementSyncer (Some cl) m', c'))
      | _ \<Rightarrow> (Inl nil_dereference, s))"

definition syncer_grants ::
    "'w svc \<Rightarrow> 'w syncer \<Rightarrow> resource \<Rightarrow> string \<Rightarrow> 'w conn \<Rightarrow> (gerror + (grant list \<times> string)) \<times> 'w conn" where
  "syncer_grants sv s r t c =
     (case s of
        UserSyncer _ \<Rightarrow> (fst (user_grants r), c)
      | RoleSyncer (Some cl) \<Rightarrow> role_fetch sv cl r t c
      | VendorSyncer (Some cl) m \<Rightarrow> (case vendor_grants sv cl r m c of ((q, _), c') \<Rightarrow> (q, c'))
      | VendorAgreementSyncer (Some cl) m \<Rightarrow> (case agreement_grants sv cl r m c of ((q, _), c') \<Rightarrow> (q, c'))
      | _ \<Rightarrow> (Inl nil_dereference, c))"

text \<open>Each syncer to its end, then each resource of each syncer.\<close>

definition sync_resources ::
    "'w svc \<Rightarrow> 'w syncer \<Rightarrow> 'w conn \<Rightarrow> ((gerror + ('w syncer \<times> resource list)) \<times> 'w conn) option" where
  "sync_resources sv s c =
     (case sync_all (syncer_list sv) (s, c) of
        None \<Rightarrow> None
      | Some (Inl e, (s', c')) \<Rightarrow> Some (Inl e, c')
      | Some (Inr rs, (s', c')) \<Rightarrow> Some (Inr (s', rs), c'))"

definition sync_grants ::
    "'w svc \<Rightarrow> 'w syncer \<times> resource list \<Rightarrow> 'w conn \<Rightarrow> ((gerror + grant list list) \<times> 'w conn) option" where
  "sync_grants sv sr = sync_each (\<lambda>r. sync_all (syncer_grants sv (fst sr) r)) (snd sr)"

definition connector_sync ::
    "'w svc \<Rightarrow> 'w connector \<Rightarrow> 'w conn \<Rightarrow> ((gerror + (resource list \<times> grant list)) \<times> 'w conn) option" where
  "connector_sync sv d c =
     (case sync_each (sync_resources sv) (resource_syncers d) c of
        None \<Rightarrow> None
      | Some (Inl e, c') \<Rightarrow> Some (Inl e, c')
      | Some (Inr srs, c') \<Rightarrow>
        (case sync_each (sync_grants sv) srs c' of
           None \<Rightarrow> None
         | Some (Inl e, c'') \<Rightarrow> Some (Inl e, c'')
         | Some (Inr gss, c'') \<Rightarrow> Some (Inr (concat (map snd srs), concat (map concat gss)), c'')))"

section \<open>The listings of the syncers\<close>

lemma sync_all_single: "fetch [] s = (Inr (xs, []), s') \<Longrightarrow> sync_all fetch s = Some (Inr xs, s')"
  by (simp add: sync_all_def follow_stop list_step_def)

interpretation users_of: listing "syncer_list sv" "users_answer sv cl []" "map resource_of_user"
  "\<lambda>s. fst s = UserSyncer (Some cl)" "\<lambda>_ s. fst s = UserSyncer (Some cl)" for sv cl
proof -
  have page: "\<exists>s'. syncer_list sv t s = (Inr (map resource_of_user us, nx), s') \<and> fst s' = UserSyncer (Some cl)"
    if "users_answer sv cl [] t us nx" "fst s = UserSyncer (Some cl)" for t us nx s
    using user_fetch_page [OF that(1), of "snd s"] that(2) by (cases s) (auto simp: syncer_list_def)
  show "listing (syncer_list sv) (users_answer sv cl []) (map resource_of_user)
    (\<lambda>s. fst s = UserSyncer (Some cl)) (\<lambda>_ s. fst s = UserSyncer (Some cl))"
    by unfold_locales (rule page, assumption+)+
qed

interpretation vendors_of: listing "syncer_list sv" "vendors_answer sv cl" "map (vendor_resource_of sv)"
  "\<lambda>s. \<exists>m. fst s = VendorSyncer (Some cl) m"
  "\<lambda>vs s. \<exists>m. fst s = VendorSyncer (Some cl) m \<and> owners_of (map vendor_entry vs) m" for sv cl
proof (unfold_locales, goal_cases)
  case (1 xs nx s)
  then obtain m c where s: "s = (VendorSyncer (Some cl) m, c)" by (cases s) auto
  from vendor_sync.fetch_first [OF 1(1), of "(m, c)"] show ?case by (auto simp: s syncer_list_def)
next
  case (2 t xs nx old s)
  then obtain m c where s: "s = (VendorSyncer (Some cl) m, c)" "owners_of (map vendor_entry old) m" by (cases s) auto
  with vendor_sync.fetch_later [OF 2(1,2), of old "(m, c)"] show ?case by (auto simp: syncer_list_def)
qed

interpretation agreements_of: listing "syncer_list sv" "agreements_answer sv cl" "agreement_resources sv"
  "\<lambda>s. \<exists>m. fst s = VendorAgreementSyncer (Some cl) m"
  "\<lambda>as s. \<exists>m. fst s = VendorAgreementSyncer (Some cl) m \<and> owners_of (map agreement_entry as) m" for sv cl
proof (unfold_locales, goal_cases)
  case (1 xs nx s)
  then obtain m c where s: "s = (VendorAgreementSyncer (Some cl) m, c)" by (cases s) auto
  from agreement_sync.fetch_first [OF 1(1), of "(m, c)"] show ?case by (auto simp: s syncer_list_def)
next
  case (2 t xs nx old s)
  then obtain m c where s: "s = (VendorAgreementSyncer (Some cl) m, c)" "owners_of (map agreement_entry old) m" by (cases s) auto
  with agreement_sync.fetch_later [OF 2(1,2), of old "(m, c)"] show ?case by (auto simp: syncer_list_def)
qed

section \<open>What each syncer gives\<close>

text \<open>What the server has: users, and for every role its members, vendors and agreements, each on any
  number of pages; no agreements are asked for when they are disabled.\<close>

definition server_has ::
    "'w svc \<Rightarrow> 'w client \<Rightarrow> bool \<Rightarrow> user list \<Rightarrow> vendor list \<Rightarrow> agreement_item list \<Rightarrow> bool" where
  "server_has sv cl disabled us vs as =
     ((\<exists>xs ps. served (users_answer sv cl []) (([], xs) # ps) \<and> us = xs @ concat (map snd ps))
      \<and> (\<exists>pages. serves_roles sv cl us pages)
      \<and> (\<exists>xs ps. served (vendors_answer sv cl) (([], xs) # ps) \<and> vs = xs @ concat (map snd ps))
      \<and> (if disabled then as = []
         else \<exists>xs ps. served (agreements_answer sv cl) (([], xs) # ps) \<and> as = xs @ concat (map snd ps)))"

definition vendor_owner_grants :: "'w svc \<Rightarrow> vendor \<Rightarrow> grant list" where
  "vendor_owner_grants sv v =
     (if ve_vendor_owner_id v = [] then [] else [owner_grant (vendor_resource_of sv v) (ve_vendor_owner_id v)])"

lemma user_resources:
  assumes "served (users_answer sv cl []) (([], xs) # ps)" "us = xs @ concat (map snd ps)"
  shows "\<exists>c'. sync_resources sv (UserSyncer (Some cl)) c = Some (Inr (UserSyncer (Some cl), map resource_of_user us), c')"
proof -
  have us: "concat (map snd (([], xs) # ps)) = us" using assms(2) by simp
  obtain s' where "sync_all (syncer_list sv) (UserSyncer (Some cl), c) = Some (Inr (map resource_of_user us), s')"
    "fst s' = UserSyncer (Some cl)"
    using users_of.sync_served [OF assms(1), of "(UserSyncer (Some cl), c)"] unfolding sync_items us by auto
  then show ?thesis by (cases s') (simp add: sync_resources_def)
qed

lemma role_resources:
  assumes "role_list = (Inr (rs, []), [])"
  shows "sync_resources sv (RoleSyncer cl) c = Some (Inr (RoleSyncer cl, rs), c)"
proof -
  have "syncer_list sv [] (RoleSyncer cl, c) = (Inr (rs, []), (RoleSyncer cl, c))"
    unfolding syncer_list_def prod.case syncer.case assms fst_conv ..
  from sync_all_single [of "syncer_list sv", OF this] show ?thesis by (simp add: sync_resources_def)
qed

lemma vendor_resources:
  assumes "served (vendors_answer sv cl) (([], xs) # ps)" "vs = xs @ concat (map snd ps)"
  shows "\<exists>m' c'. sync_resources sv (VendorSyncer (Some cl) m) c =
      Some (Inr (VendorSyncer (Some cl) m', map (vendor_resource_of sv) vs), c')
    \<and> owners_of (map vendor_entry vs) m'"
proof -
  have vs: "concat (map snd (([], xs) # ps)) = vs" using assms(2) by simp
  obtain s' m' where "sync_all (syncer_list sv) (VendorSyncer (Some cl) m, c) = Some (Inr (map (vendor_resource_of sv) vs), s')"
    "fst s' = VendorSyncer (Some cl) m'" "owners_of (map vendor_entry vs) m'"
    using vendors_of.sync_served [OF assms(1), of "(VendorSyncer (Some cl) m, c)"] unfolding sync_items vs by auto
  then show ?thesis by (cases s') (simp add: sync_resources_def)
qed

lemma agreement_resources_synced:
  assumes "served (agreements_answer sv cl) (([], xs) # ps)" "as = xs @ concat (map snd ps)"
  shows "\<exists>m' c'. sync_resources sv (VendorAgreementSyncer (Some cl) m) c =
      Some (Inr (VendorAgreementSyncer (Some cl) m', agreement_resources sv as), c')
    \<and> owners_of (map agreement_entry as) m'"
proof -
  have as: "concat (map snd (([], xs) # ps)) = as" using assms(2) by simp
  obtain s' m' where "sync_all (syncer_list sv) (VendorAgreementSyncer (Some cl) m, c) = Some (Inr (agreement_resources sv as), s')"
    "fst s' = VendorAgreementSyncer (Some cl) m'" "owners_of (map agreement_entry as) m'"
    using agreements_of.sync_served [OF assms(1), of "(VendorAgreementSyncer (Some cl) m, c)"]
    unfolding agreement_resources_concat as by auto
  then show ?thesis by (cases s') (simp add: sync_resources_def)
qed

text \<open>The grants of the listed resources.\<close>

lemma user_grants_synced:
  "\<exists>c'. sync_grants sv (UserSyncer cl, rs) c = Some (Inr (map (\<lambda>_. []) rs), c')"
  unfolding sync_grants_def fst_conv snd_conv
proof (rule sync_each_all)
  have "sync_all (syncer_grants sv (UserSyncer cl) r) s = Some (Inr [], s)" for r s
    by (rule sync_all_single) (simp add: syncer_grants_def user_grants_def)
  then show "list_all2 (\<lambda>r g. \<forall>s. \<exists>s'. sync_all (syncer_grants sv (UserSyncer cl) r) s = Some (Inr g, s')) rs (map (\<lambda>_. []) rs)"
    by (simp add: list_all2_map2 list_all2_same)
qed

lemma role_grants_synced:
  assumes "serves_roles sv cl us pages" "list_all2 role_named roles rs"
  shows "\<exists>c'. sync_grants sv (RoleSyncer (Some cl), rs) c =
    Some (Inr (map2 (\<lambda>k r. memberships (sv_unicode sv) k r us) roles rs), c')"
  unfolding sync_grants_def fst_conv snd_conv
proof (rule sync_each_all)
  have same: "syncer_grants sv (RoleSyncer (Some cl)) r = role_fetch sv cl r" for r
    by (intro ext) (simp add: syncer_grants_def)
  have "list_all2 (\<lambda>r g. \<forall>s. \<exists>s'. sync_all (role_fetch sv cl r) s = Some (Inr g, s')) rs'
      (map2 (\<lambda>k r. memberships (sv_unicode sv) k r us) ks rs')" if "list_all2 role_named ks rs'" for ks rs'
    using that by (induction rule: list_all2_induct) (simp_all add: role_synced [OF assms(1)])
  from this [OF assms(2)]
  show "list_all2 (\<lambda>r g. \<forall>s. \<exists>s'. sync_all (syncer_grants sv (RoleSyncer (Some cl)) r) s = Some (Inr g, s')) rs
      (map2 (\<lambda>k r. memberships (sv_unicode sv) k r us) roles rs)" unfolding same .
qed

lemma vendor_grants_synced:
  assumes "owners_of (map vendor_entry vs) m" "distinct (map ve_id vs)"
  shows "\<exists>c'. sync_grants sv (VendorSyncer (Some cl) m, map (vendor_resource_of sv) vs) c =
    Some (Inr (map (vendor_owner_grants sv) vs), c')"
  unfolding sync_grants_def fst_conv snd_conv
proof (rule sync_each_all)
  have "sync_all (syncer_grants sv (VendorSyncer (Some cl) m) (vendor_resource_of sv v)) s =
      Some (Inr (vendor_owner_grants sv v), s)" if "v \<in> set vs" for v s
  proof (rule sync_all_single)
    have "owners_find m (ve_id v) = Some (ve_vendor_owner_id v)"
      using assms(1) map_of_listed [OF that assms(2), of vendor_entry ve_vendor_owner_id]
      by (simp add: owners_of_def vendor_entry_def)
    then have "vendor_grants sv cl (vendor_resource_of sv v) m s = ((Inr (vendor_owner_grants sv v, []), []), s)"
      by (simp add: vendor_grants_def vendor_resource_of_def vendor_owner_grants_def Let_def)
    then show "syncer_grants sv (VendorSyncer (Some cl) m) (vendor_resource_of sv v) [] s =
        (Inr (vendor_owner_grants sv v, []), s)" by (simp add: syncer_grants_def)
  qed
  then show "list_all2 (\<lambda>r g. \<forall>s. \<exists>s'. sync_all (syncer_grants sv (VendorSyncer (Some cl) m) r) s = Some (Inr g, s'))
      (map (vendor_resource_of sv) vs) (map (vendor_owner_grants sv) vs)"
    by (simp add: list_all2_map1 list_all2_map2 list_all2_same)
qed

lemma agreement_grants_synced:
  assumes "owners_of (map agreement_entry as) m" "distinct (map ai_id as)"
    and "list_all2 (\<lambda>a r. build_agreement_resource sv a = Inr r) as rs"
  shows "\<exists>c'. sync_grants sv (VendorAgreementSyncer (Some cl) m, rs) c =
    Some (Inr (map2 (\<lambda>a r. owner_grants r (ai_contract_owners a)) as rs), c')"
  unfolding sync_grants_def fst_conv snd_conv
proof (rule sync_each_all)
  have one: "\<exists>s'. sync_all (syncer_grants sv (VendorAgreementSyncer (Some cl) m) r) s =
      Some (Inr (owner_grants r (ai_contract_owners a)), s')"
    if "a \<in> set as" "build_agreement_resource sv a = Inr r" for a r s
  proof (intro exI, rule sync_all_single)
    have "owners_find m (ri_resource (res_id r)) = Some (ai_contract_owners a)"
      using assms(1) map_of_entry [OF that(1) assms(2)] built_id [OF that(2)] by (simp add: owners_of_def)
    then show "syncer_grants sv (VendorAgreementSyncer (Some cl) m) r [] s =
        (Inr (owner_grants r (ai_contract_owners a), []), s)"
      by (simp add: syncer_grants_def agreement_grants_def Let_def)
  qed
  have "list_all2 (\<lambda>r g. \<forall>s. \<exists>s'. sync_all (syncer_grants sv (VendorAgreementSyncer (Some cl) m) r) s = Some (Inr g, s')) rs'
      (map2 (\<lambda>a r. owner_grants r (ai_contract_owners a)) as' rs')"
    if "list_all2 (\<lambda>a r. build_agreement_resource sv a = Inr r) as' rs'" "set as' \<subseteq> set as" for as' rs'
    using that by (induction rule: list_all2_induct) (simp_all add: one)
  from this [OF assms(3) subset_refl]
  show "list_all2 (\<lambda>r g. \<forall>s. \<exists>s'. sync_all (syncer_grants sv (VendorAgreementSyncer (Some cl) m) r) s = Some (Inr g, s')) rs
      (map2 (\<lambda>a r. owner_grants r (ai_contract_owners a)) as rs)" .
qed

text \<open>One after the other.\<close>

lemma sync_each_append:
  "sync_each f xs s = Some (Inr as, s') \<Longrightarrow> sync_each f ys s' = Some (Inr bs, s'') \<Longrightarrow>
     sync_each f (xs @ ys) s = Some (Inr (as @ bs), s'')"
  by (induction xs arbitrary: s as) (auto split: option.splits sum.splits)

lemma sync_each_one: "f x s = Some (Inr a, s') \<Longrightarrow> sync_each f [x] s = Some (Inr [a], s')"
  by simp

text \<open>The three syncers that every connector has.\<close>

definition core_syncers :: "'w client \<Rightarrow> vendor_owners \<Rightarrow> 'w syncer list" where
  "core_syncers cl m = [UserSyncer (Some cl), RoleSyncer (Some cl), VendorSyncer (Some cl) m]"

definition core_resources :: "'w svc \<Rightarrow> user list \<Rightarrow> resource list \<Rightarrow> vendor list \<Rightarrow> resource list list" where
  "core_resources sv us rrs vs = [map resource_of_user us, rrs, map (vendor_resource_of sv) vs]"

definition core_grants :: "'w svc \<Rightarrow> user list \<Rightarrow> resource list \<Rightarrow> vendor list \<Rightarrow> grant list list list" where
  "core_grants sv us rrs vs =
     [map (\<lambda>_. []) (map resource_of_user us), map2 (\<lambda>k r. memberships (sv_unicode sv) k r us) roles rrs,
      map (vendor_owner_grants sv) vs]"

lemma core_resources_synced:
  assumes "served (users_answer sv cl []) (([], xs) # ps)" "us = xs @ concat (map snd ps)"
    and "served (vendors_answer sv cl) (([], ys) # qs)" "vs = ys @ concat (map snd qs)"
    and "role_list = (Inr (rrs, []), [])"
  shows "\<exists>m c'. sync_each (sync_resources sv) (core_syncers cl no_owners) c =
      Some (Inr (zip (core_syncers cl m) (core_resources sv us rrs vs)), c') \<and> owners_of (map vendor_entry vs) m"
proof -
  obtain c1 where u: "sync_resources sv (UserSyncer (Some cl)) c = Some (Inr (UserSyncer (Some cl), map resource_of_user us), c1)"
    using user_resources [OF assms(1,2)] by blast
  obtain m c2 where v: "sync_resources sv (VendorSyncer (Some cl) no_owners) c1 =
      Some (Inr (VendorSyncer (Some cl) m, map (vendor_resource_of sv) vs), c2)" "owners_of (map vendor_entry vs) m"
    using vendor_resources [OF assms(3,4)] by blast
  then show ?thesis
    by (intro exI [of _ m] exI [of _ c2])
      (simp add: core_syncers_def core_resources_def u role_resources [OF assms(5)])
qed

lemma core_grants_synced:
  assumes "serves_roles sv cl us pages" "list_all2 role_named roles rrs"
    and "owners_of (map vendor_entry vs) m" "distinct (map ve_id vs)"
  shows "\<exists>c'. sync_each (sync_grants sv) (zip (core_syncers cl m) (core_resources sv us rrs vs)) c =
      Some (Inr (core_grants sv us rrs vs), c')"
proof -
  obtain d1 where "sync_grants sv (UserSyncer (Some cl), map resource_of_user us) c =
      Some (Inr (map (\<lambda>_. []) (map resource_of_user us)), d1)"
    using user_grants_synced by blast
  moreover obtain d2 where "sync_grants sv (RoleSyncer (Some cl), rrs) d1 =
      Some (Inr (map2 (\<lambda>k r. memberships (sv_unicode sv) k r us) roles rrs), d2)"
    using role_grants_synced [OF assms(1,2)] by blast
  moreover obtain d3 where "sync_grants sv (VendorSyncer (Some cl) m, map (vendor_resource_of sv) vs) d2 =
      Some (Inr (map (vendor_owner_grants sv) vs), d3)"
    using vendor_grants_synced [OF assms(3,4)] by blast
  ultimately show ?thesis by (simp add: core_syncers_def core_resources_def core_grants_def)
qed

lemma connector_sync_phases:
  "sync_each (sync_resources sv) (resource_syncers d) c = Some (Inr srs, c') \<Longrightarrow>
     sync_each (sync_grants sv) srs c' = Some (Inr gss, c'') \<Longrightarrow>
     connector_sync sv d c = Some (Inr (concat (map snd srs), concat (map concat gss)), c'')"
  by (simp add: connector_sync_def)

lemma core_concat:
  "concat (map snd (zip (core_syncers cl m) (core_resources sv us rrs vs))) =
     map resource_of_user us @ rrs @ map (vendor_resource_of sv) vs"
  "concat (map concat (core_grants sv us rrs vs)) =
     concat (map2 (\<lambda>k r. memberships (sv_unicode sv) k r us) roles rrs) @ concat (map (vendor_owner_grants sv) vs)"
proof -
  have "concat (map (\<lambda>_. []) xs) = []" for xs :: "resource list" by (induction xs) simp_all
  then show "concat (map snd (zip (core_syncers cl m) (core_resources sv us rrs vs))) =
     map resource_of_user us @ rrs @ map (vendor_resource_of sv) vs"
    "concat (map concat (core_grants sv us rrs vs)) =
     concat (map2 (\<lambda>k r. memberships (sv_unicode sv) k r us) roles rrs) @ concat (map (vendor_owner_grants sv) vs)"
    by (simp_all add: core_syncers_def core_resources_def core_grants_def)
qed

lemma connector_syncers:
  assumes "con_client d = Some cl"
  shows "resource_syncers d = core_syncers cl no_owners
    @ (if con_disable_vendor_agreements d then [] else [VendorAgreementSyncer (Some cl) no_owners])"
  using assms by (simp add: resource_syncers_def builder_defs core_syncers_def)

section \<open>Properties\<close>

text \<open>C2: A full sync of a connector, against a server that has users, role members, usable vendors and -
  unless they are disabled - usable agreements on any number of pages: it ends without an error; its
  resources are the users, the roles of the table, the vendors and the agreements, each exactly once and
  in order; its grants are the memberships of each role, the owner of each vendor that has one and the
  contract owners of each agreement.\<close>

theorem full_sync_complete:
  assumes "con_client d = Some cl" "server_has sv cl (con_disable_vendor_agreements d) us vs as"
    and "distinct (map ve_id vs)" "distinct (map ai_id as)"
  shows "\<exists>rrs ars c'. role_list = (Inr (rrs, []), [])
    \<and> list_all2 (\<lambda>a r. build_agreement_resource sv a = Inr r) as ars
    \<and> connector_sync sv d c =
        Some (Inr (map resource_of_user us @ rrs @ map (vendor_resource_of sv) vs @ ars,
          concat (map2 (\<lambda>k r. memberships (sv_unicode sv) k r us) roles rrs)
          @ concat (map (vendor_owner_grants sv) vs)
          @ concat (map2 (\<lambda>a r. owner_grants r (ai_contract_owners a)) as ars)), c')"
proof -
  obtain xs ps pages ys qs where us: "served (users_answer sv cl []) (([], xs) # ps)" "us = xs @ concat (map snd ps)"
    and roles: "serves_roles sv cl us pages"
    and vs: "served (vendors_answer sv cl) (([], ys) # qs)" "vs = ys @ concat (map snd qs)"
    and as: "if con_disable_vendor_agreements d then as = []
      else \<exists>zs rs. served (agreements_answer sv cl) (([], zs) # rs) \<and> as = zs @ concat (map snd rs)"
    using assms(2) unfolding server_has_def by blast
  obtain rrs where rrs: "role_list = (Inr (rrs, []), [])" "list_all2 role_named roles rrs" using role_list_named by blast
  obtain m c1 where res: "sync_each (sync_resources sv) (core_syncers cl no_owners) c =
      Some (Inr (zip (core_syncers cl m) (core_resources sv us rrs vs)), c1)" and m: "owners_of (map vendor_entry vs) m"
    using core_resources_synced [OF us vs rrs(1)] by blast
  note grants = core_grants_synced [OF roles rrs(2) m assms(3)]
  show ?thesis
  proof (cases "con_disable_vendor_agreements d")
    case True
    obtain c2 where "sync_each (sync_grants sv) (zip (core_syncers cl m) (core_resources sv us rrs vs)) c1 =
        Some (Inr (core_grants sv us rrs vs), c2)" using grants by blast
    from connector_sync_phases [of sv d, OF _ this, of c] res True as rrs(1) show ?thesis
      by (intro exI [of _ rrs] exI [of _ "[]"] exI [of _ c2]) (simp add: connector_syncers [OF assms(1)] core_concat)
  next
    case False
    then obtain zs rs where ag: "served (agreements_answer sv cl) (([], zs) # rs)" "as = zs @ concat (map snd rs)"
      using as by auto
    have "list_all agreement_ok as" using served_agreements_ok [OF ag(1)] ag(2) by simp
    note built = agreement_resources_built [OF this, of sv]
    obtain ma c2 where a: "sync_resources sv (VendorAgreementSyncer (Some cl) no_owners) c1 =
        Some (Inr (VendorAgreementSyncer (Some cl) ma, agreement_resources sv as), c2)"
      and ma: "owners_of (map agreement_entry as) ma" using agreement_resources_synced [OF ag] by blast
    obtain c3 where g: "sync_each (sync_grants sv) (zip (core_syncers cl m) (core_resources sv us rrs vs)) c2 =
        Some (Inr (core_grants sv us rrs vs), c3)" using grants by blast
    obtain c4 where ga: "sync_grants sv (VendorAgreementSyncer (Some cl) ma, agreement_resources sv as) c3 =
        Some (Inr (map2 (\<lambda>a r. owner_grants r (ai_contract_owners a)) as (agreement_resources sv as)), c4)"
      using agreement_grants_synced [OF ma assms(4) built] by blast
    from sync_each_append [OF res sync_each_one [of "sync_resources sv", OF a]] False
    have "sync_each (sync_resources sv) (resource_syncers d) c =
        Some (Inr (zip (core_syncers cl m) (core_resources sv us rrs vs) @ [(VendorAgreementSyncer (Some cl) ma, agreement_resources sv as)]), c2)"
      by (simp add: connector_syncers [OF assms(1)])
    from connector_sync_phases [OF this sync_each_append [OF g sync_each_one [of "sync_grants sv", OF ga]]] built rrs(1)
    show ?thesis
      by (intro exI [of _ rrs] exI [of _ "agreement_resources sv as"] exI [of _ c4]) (simp add: core_concat)
  qed
qed

definition two_users :: "user list" where
  "two_users = [member_named ''u1'' '' auditor'', member_named ''u2'' ''CEO'']"

definition two_vendor_list :: "vendor list" where
  "two_vendor_list = [vendor_named ''v1'' ''alice'', vendor_named ''v2'' []]"

definition two_contract_list :: "agreement_item list" where
  "two_contract_list = [contract_named ''a1'' ''u1'', contract_named ''a2'' ''u2'']"

lemma two_server_has:
  "server_has (two_server sv) (static_client ''secret'') False two_users two_vendor_list two_contract_list"
  unfolding server_has_def if_False two_users_def two_vendor_list_def two_contract_list_def
  by (intro conjI exI, rule two_members_served, rule two_members_all [symmetric], rule two_members_roles,
      rule two_vendors_served, simp, rule two_contracts_served, simp)

definition syncing_connector :: "'w connector" where
  "syncing_connector = zero_connector\<lparr>con_client := Some (static_client ''secret'')\<rparr>"

theorem full_sync_complete_witness:
  "\<forall>(sv :: unit svc) c. \<exists>rrs ars c'. list_all2 (\<lambda>a r. build_agreement_resource (two_server sv) a = Inr r) two_contract_list ars
    \<and> connector_sync (two_server sv) syncing_connector c =
        Some (Inr (map resource_of_user two_users @ rrs @ map (vendor_resource_of (two_server sv)) two_vendor_list @ ars,
          concat (map2 (\<lambda>k r. memberships (sv_unicode (two_server sv)) k r two_users) roles rrs)
          @ concat (map (vendor_owner_grants (two_server sv)) two_vendor_list)
          @ concat (map2 (\<lambda>a r. owner_grants r (ai_contract_owners a)) two_contract_list ars)), c')"
proof (intro allI)
  fix sv :: "unit svc" and c
  have d: "con_client syncing_connector = Some (static_client ''secret'')"
    "con_disable_vendor_agreements syncing_connector = False"
    by (simp_all add: syncing_connector_def zero_connector_def)
  have has: "server_has (two_server sv) (static_client ''secret'') (con_disable_vendor_agreements syncing_connector)
      two_users two_vendor_list two_contract_list"
    unfolding d(2) by (rule two_server_has)
  have ids: "distinct (map ve_id two_vendor_list)" "distinct (map ai_id two_contract_list)"
    by (simp_all add: two_vendor_list_def two_contract_list_def vendor_named_def contract_named_def)
  from full_sync_complete [OF d(1) has ids, of c]
  show "\<exists>rrs ars c'. list_all2 (\<lambda>a r. build_agreement_resource (two_server sv) a = Inr r) two_contract_list ars
    \<and> connector_sync (two_server sv) syncing_connector c =
        Some (Inr (map resource_of_user two_users @ rrs @ map (vendor_resource_of (two_server sv)) two_vendor_list @ ars,
          concat (map2 (\<lambda>k r. memberships (sv_unicode (two_server sv)) k r two_users) roles rrs)
          @ concat (map (vendor_owner_grants (two_server sv)) two_vendor_list)
          @ concat (map2 (\<lambda>a r. owner_grants r (ai_contract_owners a)) two_contract_list ars)), c')" by blast
qed

end
