(* ===== verification/Main_Program.thy ===== *)
theory Main_Program
  imports Connector_Claims
begin

text \<open>
  \<open>src/cmd/baton-ramp/main.go\<close>, \<open>main\<close>, with \<open>src/pkg/config/authselect.go\<close> and what the SDK's main command
  does between the command line and \<open>getConnector\<close>: where a value of the configuration comes from, the
  hook that picks an authentication method, the validation, the connector and its runner.
\<close>

section \<open>Values of the configuration\<close>

text \<open>The store of the viper library: values set by the program, the flags of the command line once they
  are bound to it, and the environment with the configuration file: an empty variable is none, an empty
  value of the file is one. A bound flag also gives its default. The keys here have no dots.\<close>

record viper =
  vp_override :: "string \<Rightarrow> string option"
  vp_flags :: "(string \<Rightarrow> string option) option"
  vp_settings :: "string \<Rightarrow> string option"

definition new_viper :: "(string \<Rightarrow> string option) \<Rightarrow> viper" where
  "new_viper settings = \<lparr>vp_override = Map.empty, vp_flags = None, vp_settings = settings\<rparr>"

definition declared_field :: "string \<Rightarrow> config_field option" where
  "declared_field k = find (\<lambda>f. cf_name f = k) (cg_fields ramp_configuration)"

definition bool_text :: "bool \<Rightarrow> string" where
  "bool_text b = (if b then ''true'' else ''false'')"

definition flag_default :: "string \<Rightarrow> string" where
  "flag_default k =
     (case declared_field k of
        None \<Rightarrow> []
      | Some f \<Rightarrow> (case cf_default f of DefaultString s \<Rightarrow> s | DefaultBool b \<Rightarrow> bool_text b))"

definition viper_find :: "viper \<Rightarrow> string \<Rightarrow> string option" where
  "viper_find v k =
     (case vp_override v k of
        Some s \<Rightarrow> Some s
      | None \<Rightarrow>
        (case Option.bind (vp_flags v) (\<lambda>flags. flags k) of
           Some s \<Rightarrow> Some s
         | None \<Rightarrow> vp_settings v k))"

definition viper_get :: "viper \<Rightarrow> string \<Rightarrow> string" where
  "viper_get v k =
     (case viper_find v k of
        Some s \<Rightarrow> s
      | None \<Rightarrow> if vp_flags v \<noteq> None then flag_default k else [])"

definition viper_set :: "string \<Rightarrow> string \<Rightarrow> viper \<Rightarrow> viper" where
  "viper_set k s v = v\<lparr>vp_override := (vp_override v)(k \<mapsto> s)\<rparr>"

definition bind_pflags :: "(string \<Rightarrow> string option) \<Rightarrow> viper \<Rightarrow> viper" where
  "bind_pflags flags v = v\<lparr>vp_flags := Some flags\<rparr>"

section \<open>Flags\<close>

text \<open>\<open>strconv.ParseBool\<close>.\<close>

definition parse_bool :: "string \<Rightarrow> bool option" where
  "parse_bool s =
     (if s \<in> {''1'', ''t'', ''T'', ''TRUE'', ''true'', ''True''} then Some True
      else if s \<in> {''0'', ''f'', ''F'', ''FALSE'', ''false'', ''False''} then Some False
      else None)"

definition parse_bool_text :: "string \<Rightarrow> msg" where
  "parse_bool_text s = [S ''strconv.ParseBool: parsing '', Q s, S '': invalid syntax'']"

text \<open>What setting a flag to a text makes of it, or that there is no such flag: a boolean refuses other texts.
  Of the flags of the SDK the connector reads only the text \<open>auth-method\<close>; what the others are is \<open>sdk\<close>.\<close>

type_synonym flag_setters = "string \<Rightarrow> (string \<Rightarrow> gerror + string) option"

definition set_declared :: "config_field \<Rightarrow> string \<Rightarrow> gerror + string" where
  "set_declared f s =
     (if cf_variant f = BoolVariant
      then (case parse_bool s of None \<Rightarrow> Inl (Plain (parse_bool_text s)) | Some b \<Rightarrow> Inr (bool_text b))
      else Inr s)"

definition flag_setter :: "flag_setters \<Rightarrow> flag_setters" where
  "flag_setter sdk k =
     (case declared_field k of
        Some f \<Rightarrow> Some (set_declared f)
      | None \<Rightarrow> if k = ''auth-method'' then Some Inr else sdk k)"

text \<open>When the command is defined, every flag that has a value in the store is set to it, and the error of a
  flag that refuses it is dropped. The command line is parsed later, and the last of its values counts.\<close>

definition visit_flags :: "flag_setters \<Rightarrow> viper \<Rightarrow> string \<Rightarrow> string option" where
  "visit_flags sdk v k =
     (case (flag_setter sdk k, viper_find v k) of
        (Some put, Some s) \<Rightarrow> (case put s of Inl _ \<Rightarrow> None | Inr t \<Rightarrow> Some t)
      | _ \<Rightarrow> None)"

definition unknown_flag_error :: "string \<Rightarrow> gerror" where
  "unknown_flag_error k = Plain [S ''unknown flag: --'', S k]"

definition invalid_value_error :: "string \<Rightarrow> string \<Rightarrow> gerror \<Rightarrow> gerror" where
  "invalid_value_error k s e = Wrap [S ''invalid argument '', Q s, S '' for '', Q (''--'' @ k), S '' flag: ''] e []"

fun parse_flags :: "flag_setters \<Rightarrow> (string \<times> string) list \<Rightarrow> (string \<Rightarrow> string option) \<Rightarrow> gerror + (string \<Rightarrow> string option)" where
  "parse_flags sdk [] flags = Inr flags"
| "parse_flags sdk ((k, s) # args) flags =
     (case flag_setter sdk k of
        None \<Rightarrow> Inl (unknown_flag_error k)
      | Some put \<Rightarrow>
        (case put s of
           Inl e \<Rightarrow> Inl (invalid_value_error k s e)
         | Inr t \<Rightarrow> parse_flags sdk args (flags(k \<mapsto> t))))"

section \<open>The authentication method\<close>

text \<open>The hook that runs before the command: \<open>prior\<close> is the hook it replaces, \<open>changed\<close> whether the
  command line names a method.\<close>

definition auto_select_auth_method ::
    "(viper \<Rightarrow> gerror option \<times> viper) option \<Rightarrow> bool \<Rightarrow> viper \<Rightarrow> gerror option \<times> viper" where
  "auto_select_auth_method prior changed v0 =
     (case (case prior of None \<Rightarrow> (None, v0) | Some p \<Rightarrow> p v0) of
        (Some e, v) \<Rightarrow> (Some e, v)
      | (None, v) \<Rightarrow>
        if changed \<or> viper_get v ''auth-method'' \<noteq> [] then (None, v)
        else if viper_get v ''ramp-client-id'' \<noteq> [] \<or> viper_get v ''ramp-client-secret'' \<noteq> []
        then (None, viper_set ''auth-method'' client_credentials_group v)
        else (None, v))"

section \<open>The main command\<close>

text \<open>The configuration struct is decoded from the store; a boolean from its text, the empty one included.\<close>

definition decode_bool :: "string \<Rightarrow> gerror + bool" where
  "decode_bool s =
     (case parse_bool s of
        Some b \<Rightarrow> Inr b
      | None \<Rightarrow>
        if s = [] then Inr False
        else Inl (Plain ([S ''1 error(s) decoding:\<newline>\<newline>* cannot parse 'audit-log-events' as bool: ''] @ parse_bool_text s)))"

definition make_configuration :: "(string \<Rightarrow> string) \<Rightarrow> gerror + ramp_config" where
  "make_configuration get =
     (case decode_bool (get ''audit-log-events'') of
        Inl e \<Rightarrow> Inl (Wrap [S ''failed to unmarshal config: ''] e [])
      | Inr b \<Rightarrow> Inr \<lparr>rc_token = get ''token'', rc_client_id = get ''ramp-client-id'',
          rc_client_secret = get ''ramp-client-secret'', rc_base_url = get ''ramp-base-url'',
          rc_audit_log_events = b\<rparr>)"

text \<open>The command the SDK defines. It binds the flags, reads the configuration and validates it for the
  method that is set; then it makes the connector, and the runner of it. \<open>serve\<close> is that runner, \<open>types\<close> the
  resource types to sync.\<close>

definition validated_configuration :: "viper \<Rightarrow> gerror + ramp_config" where
  "validated_configuration v =
     (case make_configuration (viper_get v) of
        Inl e \<Rightarrow> Inl (Wrap [S ''failed to make configuration: ''] e [])
      | Inr cc \<Rightarrow>
        (case validate_config cc (viper_get v ''auth-method'') of
           Inl e \<Rightarrow> Inl e
         | Inr _ \<Rightarrow> Inr cc))"

definition run_connector ::
    "(client_credentials \<Rightarrow> 'w token_source) \<Rightarrow> gerror option \<Rightarrow> ('w connector \<Rightarrow> gerror + 's) \<Rightarrow> ('s \<Rightarrow> gerror + unit)
       \<Rightarrow> string list \<Rightarrow> viper \<Rightarrow> ramp_config \<Rightarrow> gerror + unit" where
  "run_connector flow http build serve types v cc =
     (case get_connector flow http build cc
             \<lparr>ro_selected_auth_method = viper_get v ''auth-method'', ro_sync_resource_type_ids = types\<rparr> of
        Inl e \<Rightarrow> Inl e
      | Inr s \<Rightarrow> serve s)"

definition main_command ::
    "(client_credentials \<Rightarrow> 'w token_source) \<Rightarrow> gerror option \<Rightarrow> ('w connector \<Rightarrow> gerror + 's) \<Rightarrow> ('s \<Rightarrow> gerror + unit)
       \<Rightarrow> string list \<Rightarrow> (string \<Rightarrow> string option) \<Rightarrow> viper \<Rightarrow> gerror + unit" where
  "main_command flow http build serve types flags v0 =
     (let v = bind_pflags flags v0 in
      case validated_configuration v of
        Inl e \<Rightarrow> Inl e
      | Inr cc \<Rightarrow> run_connector flow http build serve types v cc)"

text \<open>Cobra parses the command line into the flags, runs the hook, checks which flags are set (\<open>groups\<close>: those
  that are required, and groups of flags that go together or exclude each other), then runs the command.\<close>

definition execute_command ::
    "flag_setters \<Rightarrow> ((string \<Rightarrow> string option) \<Rightarrow> gerror option) \<Rightarrow> (string \<times> string) list
       \<Rightarrow> ((string \<Rightarrow> string option) \<Rightarrow> viper \<Rightarrow> gerror option \<times> viper)
       \<Rightarrow> ((string \<Rightarrow> string option) \<Rightarrow> viper \<Rightarrow> gerror + unit) \<Rightarrow> viper \<Rightarrow> gerror + unit" where
  "execute_command sdk groups args hook run v0 =
     (case parse_flags sdk args (visit_flags sdk v0) of
        Inl e \<Rightarrow> Inl e
      | Inr flags \<Rightarrow>
        (case hook flags v0 of
           (Some e, _) \<Rightarrow> Inl e
         | (None, v) \<Rightarrow> (case groups flags of Some e \<Rightarrow> Inl e | None \<Rightarrow> run flags v)))"

section \<open>main\<close>

text \<open>The exit code and what is printed to the standard error. \<open>args\<close> are the flags of the
  command line with their values, \<open>defined\<close> is the SDK's answer to the definition of the command: an error, or the store and the hook already there.\<close>

definition program_exit :: "gerror + unit \<Rightarrow> nat \<times> gerror option" where
  "program_exit r = (case r of Inl e \<Rightarrow> (1, Some e) | Inr _ \<Rightarrow> (0, None))"

definition ramp_main ::
    "(client_credentials \<Rightarrow> 'w token_source) \<Rightarrow> gerror option \<Rightarrow> ('w connector \<Rightarrow> gerror + 's) \<Rightarrow> ('s \<Rightarrow> gerror + unit)
       \<Rightarrow> string list \<Rightarrow> flag_setters \<Rightarrow> ((string \<Rightarrow> string option) \<Rightarrow> gerror option) \<Rightarrow> (string \<times> string) list
       \<Rightarrow> gerror + (viper \<times> (viper \<Rightarrow> gerror option \<times> viper) option) \<Rightarrow> nat \<times> gerror option" where
  "ramp_main flow http build serve types sdk groups args defined =
     (case defined of
        Inl e \<Rightarrow> program_exit (Inl e)
      | Inr (v, prior) \<Rightarrow>
        program_exit (execute_command sdk groups args (\<lambda>flags. auto_select_auth_method prior (flags ''auth-method'' \<noteq> None))
          (main_command flow http build serve types) v))"

end
