(* ===== verification/Main_Claims.thy ===== *)
theory Main_Claims
  imports Main_Program
begin

text \<open>
  What a start of the program does with the values it is given: which authentication method it takes, and
  when it exits with an error.
\<close>

text \<open>The value a field has in the end, and the method the program takes. \<open>given\<close> is what the command line
  set, \<open>settings\<close> the environment and the configuration file.\<close>

definition given_value :: "(string \<Rightarrow> string option) \<Rightarrow> (string \<Rightarrow> string option) \<Rightarrow> string \<Rightarrow> string" where
  "given_value given settings k =
     (case given k of
        Some s \<Rightarrow> s
      | None \<Rightarrow> (case settings k of Some s \<Rightarrow> s | None \<Rightarrow> flag_default k))"

definition has_text :: "string option \<Rightarrow> bool" where
  "has_text x = (case x of None \<Rightarrow> False | Some s \<Rightarrow> s \<noteq> [])"

definition chosen_method :: "(string \<Rightarrow> string option) \<Rightarrow> (string \<Rightarrow> string option) \<Rightarrow> string" where
  "chosen_method given settings =
     (case given ''auth-method'' of
        Some s \<Rightarrow> s
      | None \<Rightarrow>
        (case settings ''auth-method'' of
           Some s \<Rightarrow> s
         | None \<Rightarrow>
           if has_text (settings ''ramp-client-id'') \<or> has_text (settings ''ramp-client-secret'')
           then client_credentials_group else []))"

section \<open>Flags\<close>

lemma text_fields: "list_all (\<lambda>f. cf_name f = ''audit-log-events'' \<or> cf_variant f = StringVariant) (cg_fields ramp_configuration)"
  by (simp add: config_field_defs)

lemma declared_other:
  assumes "k \<noteq> ''audit-log-events''" "declared_field k = Some f"
  shows "cf_variant f = StringVariant"
proof -
  have "f \<in> set (cg_fields ramp_configuration)" "cf_name f = k"
    using assms(2) unfolding declared_field_def find_Some_iff by (auto dest: nth_mem)
  with text_fields assms(1) show ?thesis by (auto simp: list_all_iff)
qed

lemma declared_audit: "declared_field ''audit-log-events'' = Some audit_log_events_field"
  by (simp add: declared_field_def config_field_defs)

lemma default_method: "flag_default ''auth-method'' = []"
  by (simp add: flag_default_def declared_field_def config_field_defs)

text \<open>The text fields the configuration reads.\<close>

definition text_keys :: "string set" where
  "text_keys = {''token'', ''ramp-client-id'', ''ramp-client-secret'', ''ramp-base-url''}"

lemma text_keys_declared: "k \<in> text_keys \<Longrightarrow> \<exists>f. declared_field k = Some f"
  by (auto simp: text_keys_def declared_field_def config_field_defs)

lemma text_keys_other: "k \<in> text_keys \<Longrightarrow> k \<noteq> ''auth-method'' \<and> k \<noteq> ''audit-log-events''"
  by (auto simp: text_keys_def)

lemma flag_setter_text [simp]: "k \<in> text_keys \<Longrightarrow> flag_setter sdk k = Some Inr"
  using text_keys_declared [of k] text_keys_other [of k]
  by (auto simp: flag_setter_def set_declared_def fun_eq_iff dest: declared_other)

lemma flag_setter_method [simp]: "flag_setter sdk ''auth-method'' = Some Inr"
  by (simp add: flag_setter_def) (simp add: declared_field_def config_field_defs)

lemma parse_bool_text_of [simp]: "parse_bool (bool_text b) = Some b"
  by (cases b) (simp_all add: bool_text_def parse_bool_def)

lemma bool_text_something [simp]: "bool_text b \<noteq> []"
  by (simp add: bool_text_def)

lemma flag_setter_audit: "flag_setter sdk ''audit-log-events'' = Some (set_declared audit_log_events_field)"
  by (simp add: flag_setter_def declared_audit)

lemma set_audit:
  "set_declared audit_log_events_field s =
     (case parse_bool s of None \<Rightarrow> Inl (Plain (parse_bool_text s)) | Some b \<Rightarrow> Inr (bool_text b))"
  by (simp add: set_declared_def) (simp add: audit_log_events_field_def)

lemma decode_taken: "set_declared audit_log_events_field s = Inr t \<Longrightarrow> decode_bool t = decode_bool s"
  by (auto simp: set_audit decode_bool_def split: option.splits)

lemma parse_flags_over:
  "parse_flags sdk args (base ++ flags) = map_sum id (\<lambda>given. base ++ given) (parse_flags sdk args flags)"
  by (induction args arbitrary: flags) (auto simp flip: map_add_upd split: option.split sum.split)

lemma parse_flags_visited:
  "parse_flags sdk args (visit_flags sdk v) = map_sum id (\<lambda>given. visit_flags sdk v ++ given) (parse_flags sdk args Map.empty)"
  using parse_flags_over [of sdk args "visit_flags sdk v" Map.empty] by simp

lemma visit_text: "flag_setter sdk k = Some Inr \<Longrightarrow> visit_flags sdk (new_viper settings) k = settings k"
  by (simp add: visit_flags_def viper_find_def new_viper_def split: option.split)

lemma visit_audit:
  "visit_flags sdk (new_viper settings) ''audit-log-events'' =
     (case settings ''audit-log-events'' of
        None \<Rightarrow> None
      | Some s \<Rightarrow> (case set_declared audit_log_events_field s of Inl _ \<Rightarrow> None | Inr t \<Rightarrow> Some t))"
  by (simp add: visit_flags_def flag_setter_audit viper_find_def new_viper_def split: option.split)

lemma parse_flags_append:
  "parse_flags sdk args flags = Inr given \<Longrightarrow>
     parse_flags sdk (args @ [(''auth-method'', m)]) flags = Inr (given(''auth-method'' \<mapsto> m))"
  by (induction args arbitrary: flags) (auto split: option.splits sum.splits)

section \<open>A start\<close>

text \<open>What the hook leaves: the store it was given, or one that says client credentials.\<close>

lemma get_new: "viper_get (new_viper settings) k = (case settings k of None \<Rightarrow> [] | Some s \<Rightarrow> s)"
  by (simp add: viper_get_def viper_find_def new_viper_def split: option.split)

definition hook_store :: "(string \<Rightarrow> string option) \<Rightarrow> (string \<Rightarrow> string option) \<Rightarrow> viper" where
  "hook_store given settings =
     (if given ''auth-method'' = None \<and> settings ''auth-method'' = None
         \<and> (has_text (settings ''ramp-client-id'') \<or> has_text (settings ''ramp-client-secret''))
      then viper_set ''auth-method'' client_credentials_group (new_viper settings) else new_viper settings)"

lemma hook_result:
  "auto_select_auth_method None ((visit_flags sdk (new_viper settings) ++ given) ''auth-method'' \<noteq> None) (new_viper settings) =
     (None, hook_store given settings)"
  by (auto simp: auto_select_auth_method_def get_new hook_store_def has_text_def map_add_def visit_text split: option.splits)

lemma get_bound:
  assumes "k \<noteq> ''auth-method''"
  shows "viper_get (bind_pflags flags (hook_store given settings)) k =
    (case flags k of
       Some s \<Rightarrow> s
     | None \<Rightarrow> (case settings k of Some s \<Rightarrow> s | None \<Rightarrow> flag_default k))"
  using assms
  by (simp add: viper_get_def viper_find_def bind_pflags_def hook_store_def viper_set_def new_viper_def split: option.split)

lemma get_method:
  "viper_get (bind_pflags (visit_flags sdk (new_viper settings) ++ given) (hook_store given settings)) ''auth-method'' =
     chosen_method given settings"
  by (auto simp: viper_get_def viper_find_def bind_pflags_def hook_store_def viper_set_def new_viper_def chosen_method_def
      default_method map_add_def visit_flags_def split: option.splits)

lemma make_configuration_cong:
  "(\<And>k. k \<in> text_keys \<Longrightarrow> f k = g k) \<Longrightarrow>
   decode_bool (f ''audit-log-events'') = decode_bool (g ''audit-log-events'') \<Longrightarrow>
   make_configuration f = make_configuration g"
  by (simp add: make_configuration_def text_keys_def split: sum.split)

lemma make_configuration_bound:
  "make_configuration (viper_get (bind_pflags (visit_flags sdk (new_viper settings) ++ given) (hook_store given settings))) =
   make_configuration (given_value given settings)"
proof (rule make_configuration_cong)
  fix k :: string assume k: "k \<in> text_keys"
  then have "k \<noteq> ''auth-method''" using text_keys_other by blast
  with k show "viper_get (bind_pflags (visit_flags sdk (new_viper settings) ++ given) (hook_store given settings)) k =
      given_value given settings k"
    by (auto simp: get_bound given_value_def map_add_def visit_text split: option.splits)
next
  show "decode_bool (viper_get (bind_pflags (visit_flags sdk (new_viper settings) ++ given) (hook_store given settings)) ''audit-log-events'') =
      decode_bool (given_value given settings ''audit-log-events'')"
    by (auto simp: get_bound given_value_def map_add_def visit_audit decode_taken split: option.splits sum.splits)
qed

lemma ramp_main_start:
  "ramp_main flow http build serve types sdk groups args (Inr (new_viper settings, None)) = program_exit
     (case parse_flags sdk args Map.empty of
        Inl e \<Rightarrow> Inl e
      | Inr given \<Rightarrow>
        (case groups (visit_flags sdk (new_viper settings) ++ given) of
           Some e \<Rightarrow> Inl e
         | None \<Rightarrow>
           (case make_configuration (given_value given settings) of
              Inl e \<Rightarrow> Inl (Wrap [S ''failed to make configuration: ''] e [])
            | Inr cc \<Rightarrow>
              (case validate_config cc (chosen_method given settings) of
                 Inl e \<Rightarrow> Inl e
               | Inr _ \<Rightarrow>
                 (case get_connector flow http build cc
                         \<lparr>ro_selected_auth_method = chosen_method given settings, ro_sync_resource_type_ids = types\<rparr> of
                    Inl e \<Rightarrow> Inl e | Inr s \<Rightarrow> serve s)))))"
proof (cases "parse_flags sdk args Map.empty")
  case (Inl e)
  then show ?thesis by (simp add: ramp_main_def execute_command_def parse_flags_visited)
next
  case (Inr given)
  then have p: "parse_flags sdk args (visit_flags sdk (new_viper settings)) = Inr (visit_flags sdk (new_viper settings) ++ given)"
    by (simp add: parse_flags_visited)
  show ?thesis
    unfolding ramp_main_def execute_command_def p hook_result sum.case prod.case option.case Inr
      main_command_def Let_def validated_configuration_def make_configuration_bound run_connector_def get_method
    by (simp split: sum.split option.split)
qed

lemma missing_token:
  "rc_token cc = [] \<Longrightarrow> validate_config cc [] = Inl (missing_fields_error [required_zero_value token_field])"
  by (simp add: validate_config_def group_fields_cases client_credentials_group_def config_field_defs validate_field_def
      get_string_def get_bool_def find_field_by_tag_def)

lemma started:
  assumes "parse_flags sdk args Map.empty = Inr given" "groups (visit_flags sdk (new_viper settings) ++ given) = None"
    and "make_configuration (given_value given settings) = Inr cc"
    and "opts = \<lparr>ro_selected_auth_method = chosen_method given settings, ro_sync_resource_type_ids = types\<rparr>"
    and "configured cc opts"
  shows "ramp_main flow None build serve types sdk groups args (Inr (new_viper settings, None)) =
    program_exit (case build (configured_connector flow cc opts) of Inl e \<Rightarrow> Inl e | Inr s \<Rightarrow> serve s)"
proof -
  have complete: "config_complete cc (auth_method opts) = config_complete cc (chosen_method given settings)"
    by (simp add: assms(4) auth_method_def config_complete_def access_token_group_def client_credentials_group_def)
  have "is_ok (validate_config cc (chosen_method given settings))"
    using assms(5) by (simp add: validate_config_iff configured_def complete)
  then obtain u where "validate_config cc (chosen_method given settings) = Inr u" by (auto simp: is_ok_iff)
  moreover have "get_connector flow None build cc opts = build (configured_connector flow cc opts)"
    using get_connector_configured [of cc opts flow build] assms(5) by simp
  ultimately show ?thesis using assms(1-4) by (simp add: ramp_main_start)
qed

section \<open>Properties\<close>

text \<open>C14: A start of the program: every value is the one the command line gives last, else the one of the
  environment or the file, else the default; the method is the one that is named, else client credentials
  when the environment or the file has a part of them, else the access token. The program runs the
  connector configured by exactly these, and exits with 0 only when its runner does; with a command line
  that does not parse - a flag that is not defined, or a value the flag refuses - or whose flags do not go together,
  or with values that do not make a complete configuration for the method, it exits with 1
  and an error, and builds nothing. The flags of the SDK and its groups of flags may be any.\<close>

theorem start_runs_the_configured_connector:
  "case parse_flags sdk args Map.empty of
     Inl e \<Rightarrow> ramp_main flow None build serve types sdk groups args (Inr (new_viper settings, None)) = (1, Some e)
   | Inr given \<Rightarrow>
     (case groups (visit_flags sdk (new_viper settings) ++ given) of
        Some e \<Rightarrow> ramp_main flow None build serve types sdk groups args (Inr (new_viper settings, None)) = (1, Some e)
      | None \<Rightarrow>
     (case make_configuration (given_value given settings) of
        Inl e \<Rightarrow> ramp_main flow None build serve types sdk groups args (Inr (new_viper settings, None)) =
          (1, Some (Wrap [S ''failed to make configuration: ''] e []))
      | Inr cc \<Rightarrow>
        (let opts = \<lparr>ro_selected_auth_method = chosen_method given settings, ro_sync_resource_type_ids = types\<rparr> in
         if configured cc opts
         then ramp_main flow None build serve types sdk groups args (Inr (new_viper settings, None)) =
           program_exit (case build (configured_connector flow cc opts) of Inl e \<Rightarrow> Inl e | Inr s \<Rightarrow> serve s)
         else \<exists>e. \<forall>(b :: 'w connector \<Rightarrow> gerror + 's) r.
           ramp_main flow None b r types sdk groups args (Inr (new_viper settings, None)) = (1, Some e))))"
proof (cases "parse_flags sdk args Map.empty")
  case (Inl e)
  then show ?thesis by (simp add: ramp_main_start program_exit_def)
next
  case (Inr given)
  note given = this
  show ?thesis
  proof (cases "groups (visit_flags sdk (new_viper settings) ++ given)")
    case (Some e)
    with given show ?thesis by (simp add: ramp_main_start program_exit_def)
  next
    case None
    note groups = this
    show ?thesis
    proof (cases "make_configuration (given_value given settings)")
      case (Inl e)
      with given groups show ?thesis by (simp add: ramp_main_start program_exit_def)
    next
      case (Inr cc)
      let ?auth = "chosen_method given settings"
      let ?opts = "\<lparr>ro_selected_auth_method = ?auth, ro_sync_resource_type_ids = types\<rparr>"
      show ?thesis
      proof (cases "configured cc ?opts")
        case True
        with started [where groups = groups and opts = ?opts, OF given groups Inr refl, of flow build serve] given groups Inr show ?thesis by (simp add: Let_def)
      next
        case False
        then obtain e where e: "\<And>b :: 'w connector \<Rightarrow> gerror + 's. get_connector flow None b cc ?opts = Inl e"
          using get_connector_configured [of cc ?opts flow] by (meson)
        show ?thesis
          using given groups Inr False e
          by (cases "validate_config cc ?auth") (simp_all add: ramp_main_start program_exit_def Let_def)
      qed
    qed
  qed
qed


text \<open>A start with the two OAuth credentials and nothing else.\<close>

definition oauth_values :: "(string \<times> string) list" where
  "oauth_values = [(''ramp-client-id'', ''id''), (''ramp-client-secret'', ''secret'')]"

definition oauth_config :: ramp_config where
  "oauth_config = \<lparr>rc_token = [], rc_client_id = ''id'', rc_client_secret = ''secret'',
     rc_base_url = ''https://api.ramp.com'', rc_audit_log_events = False\<rparr>"


end
