(* ===== verification/Account_Claims.thy ===== *)
theory Account_Claims
  imports Account_Server
begin

text \<open>
  The client's calls are an account book, and what follows for account creation: whatever is lost on the
  line, whatever the directory comes to list in between and however often creation is tried, an invitation is sent
  only when its own lookup found nobody with the email.
\<close>

section \<open>The client's calls are an account book\<close>

text \<open>The users the directory finds for an email and that have it up to case.\<close>

definition with_email :: "unicode_tables \<Rightarrow> (string \<Rightarrow> user list \<Rightarrow> user list) \<Rightarrow> string \<Rightarrow> user list \<Rightarrow> user list" where
  "with_email U search e us = filter (\<lambda>u. equal_fold U (us_email u) e) (search e us)"

lemma first_with_email_found:
  "first_with_email U e (map Some us) =
     Inr (case filter (\<lambda>u. equal_fold U (us_email u) e) us of [] \<Rightarrow> None | u # _ \<Rightarrow> Some u)"
  by (induction us) simp_all

definition directory_request ::
    "(string \<Rightarrow> user list \<Rightarrow> user list) \<Rightarrow> (create_user_request \<Rightarrow> string) \<Rightarrow> directory svc \<Rightarrow> string \<Rightarrow> create_user_request \<Rightarrow> bool" where
  "directory_request search task sv tok q \<longleftrightarrow>
     tok \<noteq> [] \<and> makes_keys sv \<and> members_only search \<and> names_tasks task \<and> text_request q"

lemma searched_ok: "members_only search \<Longrightarrow> directory_ok d \<Longrightarrow> list_all text_user (search e (dr_members d))"
  unfolding members_only_def directory_ok_def list_all_iff by blast

lemma changes_only: "list_all is_change t \<Longrightarrow> own t = [] \<and> listed_at us (t @ [Lookup e]) = listed_after us t"
proof (induction t arbitrary: us)
  case (Cons ev t)
  then show ?case by (cases ev) simp_all
qed simp

lemma account_lookup_line:
  assumes "directory_request search task sv tok q" "directory_ok (cn_world c)"
    and "account_lookup (directory_server search task sv) (static_client tok) e c = (r, c')"
  shows "directory_ok (cn_world c') \<and> (\<exists>t. dr_trace (cn_world c') = dr_trace (cn_world c) @ t
    \<and> dr_members (cn_world c') = listed_after (dr_members (cn_world c)) t
    \<and> looked (with_email (sv_unicode sv) search) (dr_members (cn_world c)) e r t)"
proof -
  obtain x d where x: "next_delivery (cn_world c) = (x, d)" by (metis prod.exhaust)
  obtain t where t: "dr_trace d = dr_trace (cn_world c) @ t" "list_all is_change t"
    "dr_members d = listed_after (dr_members (cn_world c)) t" using next_delivery_trace [OF x] by blast
  note ok = next_delivery_ok [OF x assms(2)]
  note o = changes_only [OF t(2), of "dr_members (cn_world c)" e]
  have "tok \<noteq> []" "list_all text_user (search e (dr_members d))"
    using assms(1) searched_ok ok by (auto simp: directory_request_def)
  from find_over_line [where search = search and e = e and d = d, OF this x, of task sv]
  obtain rl where f: "find_user_by_email (directory_server search task sv) (static_client tok) e c = ((r, rl), c')"
    "cn_world c' = (if x = Dropped then d else noted (Lookup e) d)"
    "if x = Delivered then r = first_with_email (sv_unicode sv) e (map Some (search e (dr_members d)))
     else \<exists>er. r = Inl er \<and> status_code er = Unavailable \<and> \<not> is_panic er"
    using assms(3) by (auto simp: account_lookup_def)
  let ?t = "if x = Dropped then t else t @ [Lookup e]"
  have "looked (with_email (sv_unicode sv) search) (dr_members (cn_world c)) e r ?t"
    using f(3) o t(3) by (auto simp: looked_def first_with_email_found with_email_def split: if_splits list.splits)
  moreover have "dr_trace (cn_world c') = dr_trace (cn_world c) @ ?t" "dr_members (cn_world c') = listed_after (dr_members (cn_world c)) ?t"
    "directory_ok (cn_world c')"
    using t ok f(2) by simp_all
  ultimately show ?thesis by blast
qed

lemma account_invite_line:
  assumes "directory_request search task sv tok q" "directory_ok (cn_world c)"
    and "account_invite (directory_server search task sv) (static_client tok) q c = (r, c')"
  shows "directory_ok (cn_world c') \<and> (\<exists>t. dr_trace (cn_world c') = dr_trace (cn_world c) @ t
    \<and> dr_members (cn_world c') = listed_after (dr_members (cn_world c)) t \<and> invited q r t)"
proof -
  obtain x d where x: "next_delivery (cn_world c) = (x, d)" by (metis prod.exhaust)
  obtain t where t: "dr_trace d = dr_trace (cn_world c) @ t" "list_all is_change t"
    "dr_members d = listed_after (dr_members (cn_world c)) t" using next_delivery_trace [OF x] by blast
  note ok = next_delivery_ok [OF x assms(2)]
  have o: "own t = []" using changes_only [OF t(2)] by simp
  have "tok \<noteq> []" "makes_keys sv" "names_tasks task" "text_request q" using assms(1) by (simp_all add: directory_request_def)
  from create_over_line [OF this x, of search]
  obtain k rl where f: "create_user (directory_server search task sv) (static_client tok) q c = ((r, rl), c')"
    "cn_world c' = (if x = Dropped then d else noted (Invitation (q\<lparr>cu_idempotency_key := k\<rparr>)) d)"
    "if x = Delivered then is_ok r else \<not> is_ok r"
    using assms(3) by (auto simp: account_invite_def)
  let ?t = "if x = Dropped then t else t @ [Invitation (q\<lparr>cu_idempotency_key := k\<rparr>)]"
  have "invited q r ?t" using f(3) o by (auto simp: invited_def is_invitation_def split: if_splits)
  moreover have "dr_trace (cn_world c') = dr_trace (cn_world c) @ ?t" "dr_members (cn_world c') = listed_after (dr_members (cn_world c)) ?t"
    "directory_ok (cn_world c')"
    using t ok f(2) by simp_all
  ultimately show ?thesis by blast
qed

interpretation book: account_book
  "account_lookup (directory_server search task sv) (static_client tok)"
  "account_invite (directory_server search task sv) (static_client tok)"
  "\<lambda>c. dr_trace (cn_world c)" "\<lambda>c. dr_members (cn_world c)" "\<lambda>c. directory_ok (cn_world c)"
  "with_email (sv_unicode sv) search" "directory_request search task sv tok" for search task sv tok
  by unfold_locales (rule account_lookup_line account_invite_line, assumption+)+

section \<open>Attempts\<close>

text \<open>What the outcome of an attempt says about its piece of the trace: a success for an existing user looked
  the email up and gives a user that was listed with it; a success that waits for the user to accept looked
  the email up and then sent this one invitation; a failure may have got either way, and nothing is asked
  for an incomplete profile.\<close>

definition attempt_told ::
    "unicode_tables \<Rightarrow> (string \<Rightarrow> user list \<Rightarrow> user list) \<Rightarrow> user list \<Rightarrow> proto_fields
       \<Rightarrow> gerror + create_account_result \<Rightarrow> dir_event list \<Rightarrow> bool" where
  "attempt_told U search us fs r t =
     (case profile_request fs of
        Inl e \<Rightarrow> own t = [] \<and> \<not> is_ok r
      | Inr q \<Rightarrow>
        (case r of
           Inl e \<Rightarrow> own t = [] \<or> own t = [Lookup (cu_email q)] \<or> invited_by q (own t)
         | Inr (AlreadyExistsResult res) \<Rightarrow> own t = [Lookup (cu_email q)]
             \<and> list_ex (\<lambda>u. res = resource_of_user u) (with_email U search (cu_email q) (listed_at us t))
         | Inr (ActionRequiredResult m) \<Rightarrow> invited_by q (own t)))"

fun attempts_told ::
    "unicode_tables \<Rightarrow> (string \<Rightarrow> user list \<Rightarrow> user list) \<Rightarrow> user list \<Rightarrow> proto_fields list
       \<Rightarrow> (gerror + create_account_result) list \<Rightarrow> dir_event list list \<Rightarrow> bool" where
  "attempts_told U search us [] [] [] = True"
| "attempts_told U search us (fs # fss) (r # rs) (t # ts) =
     (attempt_told U search us fs r t \<and> attempts_told U search (listed_after us t) fss rs ts)"
| "attempts_told U search us _ _ _ = False"

definition text_profile :: "proto_fields \<Rightarrow> bool" where
  "text_profile fs = (case profile_request fs of Inl e \<Rightarrow> True | Inr req \<Rightarrow> text_request req)"

definition line_loses_nothing :: "directory \<Rightarrow> bool" where
  "line_loses_nothing d = list_all (\<lambda>(_, x). x = Delivered) (dr_line d)"

lemma one_attempt:
  assumes "tok \<noteq> []" "makes_keys sv" "members_only search" "names_tasks task" "directory_ok (cn_world c)" "text_profile fs"
    and "create_account (directory_server search task sv) (static_client tok) fs c = ((r, an), c')"
  shows "directory_ok (cn_world c') \<and> (\<exists>t. dr_trace (cn_world c') = dr_trace (cn_world c) @ t
    \<and> dr_members (cn_world c') = listed_after (dr_members (cn_world c)) t
    \<and> (\<forall>x. vetted (with_email (sv_unicode sv) search) (dr_members (cn_world c)) x t)
    \<and> attempt_told (sv_unicode sv) search (dr_members (cn_world c)) fs r t)"
proof (cases "profile_request fs")
  case (Inl e)
  then show ?thesis using assms(5,7)
    by (intro conjI exI [of _ "[]"]) (auto simp: create_account_def attempt_told_def is_ok_iff)
next
  case (Inr q)
  then have q: "directory_request search task sv tok q" using assms(1-4,6) by (simp add: directory_request_def text_profile_def)
  obtain p where p: "provision (account_lookup (directory_server search task sv) (static_client tok))
      (account_invite (directory_server search task sv) (static_client tok)) cu_email q c = (p, c')" "reports r p"
    using create_account_provision [OF Inr, of "directory_server search task sv" "static_client tok" c] assms(7) by auto
  have told: "attempt_told (sv_unicode sv) search us fs r t" if "told (with_email (sv_unicode sv) search) us q p t" for us t
    using that p(2)
    by (cases p) (auto simp: told_def reports_def attempt_told_def Inr list_ex_iff is_ok_iff split: sum.splits)
  from book.provision_step [OF q assms(5) p(1)] told show ?thesis unfolding book.step_def by blast
qed

text \<open>On a line that loses nothing every complete profile gets an answer that is a success.\<close>

lemma next_delivered:
  assumes "line_loses_nothing d"
  obtains d' where "next_delivery d = (Delivered, d')" "line_loses_nothing d'"
  using assms by (cases "dr_line d") (auto simp: next_delivery_def line_loses_nothing_def)

lemma noted_loses_nothing [simp]: "line_loses_nothing (noted ev d) = line_loses_nothing d"
  by (simp add: line_loses_nothing_def)

lemma delivered_attempt:
  assumes "tok \<noteq> []" "makes_keys sv" "members_only search" "names_tasks task" "directory_ok (cn_world c)" "text_profile fs"
    and "line_loses_nothing (cn_world c)"
    and "create_account (directory_server search task sv) (static_client tok) fs c = ((r, an), c')"
  shows "line_loses_nothing (cn_world c') \<and> (is_ok r \<longleftrightarrow> is_ok (profile_request fs))"
proof (cases "profile_request fs")
  case (Inl e)
  then show ?thesis using assms(7,8) by (auto simp: create_account_def is_ok_iff)
next
  case (Inr req)
  then have t: "text_request req" using assms(6) by (simp add: text_profile_def)
  obtain d where d: "next_delivery (cn_world c) = (Delivered, d)" "line_loses_nothing d"
    using next_delivered [OF assms(7)] .
  let ?us = "search (cu_email req) (dr_members d)"
  from find_over_line [where search = search and e = "cu_email req" and d = d,
      OF assms(1) searched_ok [OF assms(3) next_delivery_ok [OF d(1) assms(5)]] d(1), of task sv]
  obtain rl c1 where f: "find_user_by_email (directory_server search task sv) (static_client tok) (cu_email req) c =
      ((first_with_email (sv_unicode sv) (cu_email req) (map Some ?us), rl), c1)" "cn_world c1 = noted (Lookup (cu_email req)) d" by auto
  obtain q where q: "first_with_email (sv_unicode sv) (cu_email req) (map Some ?us) = Inr q"
    using first_with_email_found by blast
  have l1: "line_loses_nothing (cn_world c1)" using f(2) d(2) by simp
  obtain d2 where d2: "next_delivery (cn_world c1) = (Delivered, d2)" "line_loses_nothing d2"
    using next_delivered [OF l1] .
  from create_over_line [OF assms(1,2,4) t d2(1), of search]
  obtain t rl2 c2 where cr: "create_user (directory_server search task sv) (static_client tok) req c1 = ((Inr t, rl2), c2)"
    "line_loses_nothing (cn_world c2)" using d2(2) by (auto simp: is_ok_iff)
  show ?thesis
    using assms(8) f(1) l1 cr by (cases q) (auto simp: create_account_def Inr q Let_def is_ok_iff)
qed

lemma attempts:
  assumes "tok \<noteq> []" "makes_keys sv" "members_only search" "names_tasks task"
    and "directory_ok (cn_world c)" "list_all text_profile fss"
  shows "\<exists>rs c' ts. create_accounts (directory_server search task sv) (static_client tok) fss c = (rs, c')
    \<and> dr_trace (cn_world c') = dr_trace (cn_world c) @ concat ts
    \<and> vetted (with_email (sv_unicode sv) search) (dr_members (cn_world c)) p (concat ts)
    \<and> attempts_told (sv_unicode sv) search (dr_members (cn_world c)) fss rs ts
    \<and> (line_loses_nothing (cn_world c) \<longrightarrow> list_all2 (\<lambda>fs r. is_ok r \<longleftrightarrow> is_ok (profile_request fs)) fss rs)"
  using assms(5,6)
proof (induction fss arbitrary: c p)
  case Nil
  then show ?case by (intro exI [of _ "[]"] exI [of _ c]) simp
next
  case (Cons fs fss)
  let ?h = "with_email (sv_unicode sv) search"
  obtain r an c1 where c1: "create_account (directory_server search task sv) (static_client tok) fs c = ((r, an), c1)"
    by (metis prod.exhaust)
  have fs: "text_profile fs" "list_all text_profile fss" using Cons.prems(2) by simp_all
  obtain t where t: "directory_ok (cn_world c1)" "dr_trace (cn_world c1) = dr_trace (cn_world c) @ t"
    "dr_members (cn_world c1) = listed_after (dr_members (cn_world c)) t"
    "\<And>x. vetted ?h (dr_members (cn_world c)) x t" "attempt_told (sv_unicode sv) search (dr_members (cn_world c)) fs r t"
    using one_attempt [OF assms(1-4) Cons.prems(1) fs(1) c1] by blast
  obtain rs c' ts where r: "create_accounts (directory_server search task sv) (static_client tok) fss c1 = (rs, c')"
      "dr_trace (cn_world c') = dr_trace (cn_world c1) @ concat ts"
      "vetted ?h (dr_members (cn_world c1)) (vouched ?h (dr_members (cn_world c)) p t) (concat ts)"
      "attempts_told (sv_unicode sv) search (dr_members (cn_world c1)) fss rs ts"
      "line_loses_nothing (cn_world c1) \<longrightarrow> list_all2 (\<lambda>fs r. is_ok r \<longleftrightarrow> is_ok (profile_request fs)) fss rs"
    using Cons.IH [OF t(1) fs(2)] by blast
  show ?case
    by (rule exI [of _ "r # rs"], rule exI [of _ c'], rule exI [of _ "t # ts"])
      (use r t c1 delivered_attempt [OF assms(1-4) Cons.prems(1) fs(1) _ c1] in \<open>simp add: vetted_append\<close>)
qed

section \<open>Attempts for somebody who is not listed\<close>

text \<open>Random identifiers differ when they are made at different times.\<close>

definition fresh_keys :: "directory svc \<Rightarrow> bool" where
  "fresh_keys sv \<longleftrightarrow> (\<forall>d d'. length (dr_trace d) \<noteq> length (dr_trace d') \<longrightarrow> fst (sv_uuid sv d) \<noteq> fst (sv_uuid sv d'))"

text \<open>What the directory lists at the lookup and at the invitation of each attempt to come, and what happens to the
  invitation.\<close>

definition unlisted_line ::
    "unicode_tables \<Rightarrow> (string \<Rightarrow> user list \<Rightarrow> user list) \<Rightarrow> string \<Rightarrow> (user list \<times> user list \<times> delivery) list \<Rightarrow> bool" where
  "unlisted_line U search e ls = list_all (\<lambda>(us, _, x). with_email U search e us = [] \<and> x \<noteq> Dropped) ls"

definition line_of :: "(user list \<times> user list \<times> delivery) list \<Rightarrow> (user list \<times> delivery) list" where
  "line_of ls = concat (map (\<lambda>(us, vs, x). [(us, Delivered), (vs, x)]) ls)"

definition invitations_with :: "create_user_request \<Rightarrow> string list \<Rightarrow> dir_event list" where
  "invitations_with q ks = concat (map (\<lambda>k. [Lookup (cu_email q), Invitation (q\<lparr>cu_idempotency_key := k\<rparr>)]) ks)"

lemma unlisted_attempt:
  assumes "tok \<noteq> []" "makes_keys sv" "members_only search" "names_tasks task" "directory_ok (cn_world c)"
    and q: "profile_request fs = Inr q" "text_request q"
    and line: "dr_line (cn_world c) = (us, Delivered) # (vs, x) # ys" "with_email (sv_unicode sv) search (cu_email q) us = []" "x \<noteq> Dropped"
  shows "\<exists>r an c' w. create_account (directory_server search task sv) (static_client tok) fs c = ((r, an), c')
    \<and> directory_ok (cn_world c') \<and> dr_line (cn_world c') = ys
    \<and> dr_trace w = dr_trace (cn_world c) @ [Members us, Lookup (cu_email q)]
    \<and> dr_trace (cn_world c') = dr_trace w @ [Members vs, Invitation (q\<lparr>cu_idempotency_key := fst (sv_uuid sv w)\<rparr>)]"
proof -
  let ?e = "cu_email q"
  define d where "d = snd (next_delivery (cn_world c))"
  have d: "next_delivery (cn_world c) = (Delivered, d)" "dr_members d = us" "dr_line d = (vs, x) # ys"
    "dr_trace d = dr_trace (cn_world c) @ [Members us]"
    using line(1) by (simp_all add: next_delivery_def d_def)
  note ok = next_delivery_ok [OF d(1) assms(5)]
  from find_over_line [where search = search and e = ?e and d = d, OF assms(1) searched_ok [OF assms(3) ok] d(1), of task sv]
  obtain rl c1 where f: "find_user_by_email (directory_server search task sv) (static_client tok) ?e c = ((Inr None, rl), c1)"
    "cn_world c1 = noted (Lookup ?e) d" using line(2) d(2) by (auto simp: first_with_email_found with_email_def)
  define d2 where "d2 = snd (next_delivery (cn_world c1))"
  have d2: "next_delivery (cn_world c1) = (x, d2)" "dr_line d2 = ys"
    "dr_trace d2 = dr_trace (cn_world c1) @ [Members vs]"
    using f(2) d(3) by (simp_all add: next_delivery_def d2_def)
  from next_delivery_ok [OF d2(1)] f(2) ok have ok2: "directory_ok d2" by simp
  from create_over_line [OF assms(1,2,4) q(2) d2(1), of search] line(3)
  obtain r rl2 c2 where cr: "create_user (directory_server search task sv) (static_client tok) q c1 = ((r, rl2), c2)"
    "cn_world c2 = noted (Invitation (q\<lparr>cu_idempotency_key := fst (sv_uuid sv (cn_world c1))\<rparr>)) d2" by auto
  obtain r' an where "create_account (directory_server search task sv) (static_client tok) fs c = ((r', an), c2)"
    using q(1) f(1) cr(1) by (cases r) (simp_all add: create_account_def Let_def)
  then show ?thesis
    using cr(2) d2 f(2) d(4) ok2 by (intro exI [of _ r'] exI [of _ an] exI [of _ c2] exI [of _ "cn_world c1"]) simp
qed

lemma unlisted_attempts:
  assumes "tok \<noteq> []" "makes_keys sv" "members_only search" "names_tasks task" "directory_ok (cn_world c)"
    and q: "profile_request fs = Inr q" "text_request q"
    and "fresh_keys sv" "dr_line (cn_world c) = line_of ls" "unlisted_line (sv_unicode sv) search (cu_email q) ls"
  shows "\<exists>rs c' ks. create_accounts (directory_server search task sv) (static_client tok) (replicate (length ls) fs) c = (rs, c')
    \<and> own (dr_trace (cn_world c')) = own (dr_trace (cn_world c)) @ invitations_with q ks
    \<and> length ks = length ls \<and> distinct ks
    \<and> (\<forall>k \<in> set ks. \<exists>w. length (dr_trace (cn_world c)) < length (dr_trace w) \<and> k = fst (sv_uuid sv w))"
  using assms(5,9,10)
proof (induction ls arbitrary: c)
  case Nil
  then show ?case by (intro exI [of _ "[]"] exI [of _ c]) (simp add: invitations_with_def)
next
  case (Cons l ls)
  obtain us vs x where l: "l = (us, vs, x)" by (metis prod.exhaust)
  have ln: "dr_line (cn_world c) = (us, Delivered) # (vs, x) # line_of ls"
    "with_email (sv_unicode sv) search (cu_email q) us = []" "x \<noteq> Dropped"
    "unlisted_line (sv_unicode sv) search (cu_email q) ls"
    using Cons.prems by (simp_all add: l line_of_def unlisted_line_def)
  obtain r an c1 w where a: "create_account (directory_server search task sv) (static_client tok) fs c = ((r, an), c1)"
    "directory_ok (cn_world c1)" "dr_line (cn_world c1) = line_of ls"
    "dr_trace w = dr_trace (cn_world c) @ [Members us, Lookup (cu_email q)]"
    "dr_trace (cn_world c1) = dr_trace w @ [Members vs, Invitation (q\<lparr>cu_idempotency_key := fst (sv_uuid sv w)\<rparr>)]"
    using unlisted_attempt [OF assms(1-4) Cons.prems(1) q ln(1-3)] by blast
  obtain rs c' ks where r: "create_accounts (directory_server search task sv) (static_client tok) (replicate (length ls) fs) c1 = (rs, c')"
    "own (dr_trace (cn_world c')) = own (dr_trace (cn_world c1)) @ invitations_with q ks" "length ks = length ls" "distinct ks"
    "\<forall>k \<in> set ks. \<exists>w. length (dr_trace (cn_world c1)) < length (dr_trace w) \<and> k = fst (sv_uuid sv w)"
    using Cons.IH [OF a(2,3) ln(4)] by blast
  let ?k = "fst (sv_uuid sv w)"
  have "?k \<notin> set ks"
  proof
    assume "?k \<in> set ks"
    with r(5) obtain w' where w': "length (dr_trace (cn_world c1)) < length (dr_trace w')" "?k = fst (sv_uuid sv w')" by blast
    then have "length (dr_trace w) \<noteq> length (dr_trace w')" using a(5) by simp
    with assms(8) w'(2) show False unfolding fresh_keys_def by blast
  qed
  moreover have "\<forall>k \<in> set (?k # ks). \<exists>w. length (dr_trace (cn_world c)) < length (dr_trace w) \<and> k = fst (sv_uuid sv w)"
  proof -
    have "length (dr_trace (cn_world c)) < length (dr_trace w)" "length (dr_trace (cn_world c)) < length (dr_trace (cn_world c1))"
      using a(4,5) by simp_all
    with r(5) show ?thesis using less_trans by fastforce
  qed
  moreover have "own (dr_trace (cn_world c')) = own (dr_trace (cn_world c)) @ invitations_with q (?k # ks)"
    using r(2) a(4,5) by (simp add: invitations_with_def)
  ultimately show ?case using r(1,3,4) a(1)
    by (intro exI [of _ "r # rs"] exI [of _ c'] exI [of _ "?k # ks"]) simp
qed

section \<open>Properties\<close>

text \<open>C3: No invitation without its own lookup. However often account creations are tried, for whatever profiles, in
  whatever order, with the response cache on or off, over a line that loses requests before and answers
  after they took effect, and whatever the directory lists before each request (invitations accepted,
  users that leave or change their email, also between the two requests of one attempt): every invitation the directory gets is directly
  preceded by a lookup of its very email for which the directory then listed nobody with that email up
  to case, and each lookup vouches for one invitation at most. An attempt that reports an existing user only looked it up
  and names a listed one; an attempt that waits for the user's acceptance sent its one invitation; a failed
  attempt sent at most one; an incomplete profile sends nothing. While the line loses nothing, an
  attempt succeeds exactly when its profile is complete.\<close>

theorem invitations_are_vetted:
  assumes "tok \<noteq> []" "makes_keys sv" "members_only search" "names_tasks task"
    and "directory_ok (cn_world c)" "list_all text_profile fss"
  shows "\<exists>rs c' ts. create_accounts (directory_server search task sv) (static_client tok) fss c = (rs, c')
    \<and> dr_trace (cn_world c') = dr_trace (cn_world c) @ concat ts
    \<and> vetted (with_email (sv_unicode sv) search) (dr_members (cn_world c)) None (concat ts)
    \<and> attempts_told (sv_unicode sv) search (dr_members (cn_world c)) fss rs ts
    \<and> (line_loses_nothing (cn_world c) \<longrightarrow> list_all2 (\<lambda>fs r. is_ok r \<longleftrightarrow> is_ok (profile_request fs)) fss rs)"
  using assms by (rule attempts)

text \<open>Three attempts for one new colleague: the answer to the first invitation is lost, and she accepts
  before the third.\<close>

definition grace_profile :: proto_fields where
  "grace_profile = [(''email'', VString ''grace''), (''first_name'', VString ''Grace''), (''last_name'', VString ''H''),
     (''role'', VString ''AUDITOR'')]"

definition grace_request :: create_user_request where
  "grace_request = \<lparr>cu_email = ''grace'', cu_first_name = ''Grace'', cu_last_name = ''H'', cu_role = ''AUDITOR'',
     cu_idempotency_key = []\<rparr>"

definition ada :: user where "ada = zero_user\<lparr>us_id := ''u1'', us_email := ''ada''\<rparr>"
definition grace :: user where "grace = zero_user\<lparr>us_id := ''u2'', us_email := ''grace''\<rparr>"

definition small_directory :: directory where
  "small_directory = \<lparr>dr_members = [ada],
     dr_line = [([ada], Delivered), ([ada], Lost), ([ada], Delivered), ([ada], Dropped), ([grace, ada], Delivered)], dr_trace = []\<rparr>"

lemma grace_profile_request: "profile_request grace_profile = Inr grace_request"
  by (simp add: profile_request_def required_field_def string_value_def grace_profile_def valid_create_roles_def grace_request_def)

lemma small_utf8: "valid_utf8 ''grace''" "valid_utf8 ''Grace''" "valid_utf8 ''H''" "valid_utf8 ''AUDITOR''" "valid_utf8 ''k''"
  "valid_utf8 ''u1''" "valid_utf8 ''u2''" "valid_utf8 ''ada''" "valid_utf8 []"
  by (rule valid_utf8_ascii, simp)+

theorem invitations_are_vetted_witness:
  "\<forall>(sv :: directory svc) x. \<exists>rs c'.
     create_accounts (directory_server (\<lambda>e us. us) (\<lambda>q. ''t'') (sv\<lparr>sv_uuid := (\<lambda>d. (''k'', d))\<rparr>)) (static_client ''secret'')
       [grace_profile, grace_profile, grace_profile] \<lparr>cn_cache = x, cn_rate_limit = None, cn_world = small_directory\<rparr> = (rs, c')
     \<and> vetted (with_email (sv_unicode sv) (\<lambda>e us. us)) [ada] None (dr_trace (cn_world c'))"
proof (intro allI)
  fix sv :: "directory svc" and x
  let ?sv = "sv\<lparr>sv_uuid := (\<lambda>d. (''k'', d))\<rparr>" and ?task = "\<lambda>q. ''t''"
  let ?c = "\<lparr>cn_cache = x, cn_rate_limit = None, cn_world = small_directory\<rparr>"
  let ?ps = "[grace_profile, grace_profile, grace_profile]"
  have "''secret'' \<noteq> []" "makes_keys ?sv" "members_only (\<lambda>e us. us)" "names_tasks ?task"
    "directory_ok (cn_world ?c)" "list_all text_profile ?ps"
    using small_utf8 valid_utf8_ascii [of "''t''"]
    by (simp_all add: makes_keys_def members_only_def names_tasks_def directory_ok_def small_directory_def text_user_def
        ada_def grace_def zero_user_def text_profile_def grace_profile_request text_request_def grace_request_def)
  from invitations_are_vetted [OF this]
  show "\<exists>rs c'. create_accounts (directory_server (\<lambda>e us. us) ?task ?sv) (static_client ''secret'') ?ps ?c = (rs, c')
     \<and> vetted (with_email (sv_unicode sv) (\<lambda>e us. us)) [ada] None (dr_trace (cn_world c'))"
    by (auto simp: small_directory_def)
qed

text \<open>C37: Until the directory lists the user, every attempt sends one more invitation, and each has an
  idempotency key of its own: for any complete profile whose email is not listed, and however many attempts
  whose requests arrive, also when the answer to an invitation is lost and the platform tries again, the
  directory gets as many invitations with pairwise different keys, so it cannot tell a repeated one from a new one.\<close>

theorem retries_invite_again:
  assumes "tok \<noteq> []" "makes_keys sv" "members_only search" "names_tasks task" "directory_ok (cn_world c)"
    and "profile_request fs = Inr q" "text_request q" "fresh_keys sv"
    and "dr_line (cn_world c) = line_of ls" "unlisted_line (sv_unicode sv) search (cu_email q) ls"
  shows "\<exists>rs c' ks. create_accounts (directory_server search task sv) (static_client tok) (replicate (length ls) fs) c = (rs, c')
    \<and> own (dr_trace (cn_world c')) = own (dr_trace (cn_world c)) @ invitations_with q ks
    \<and> length ks = length ls \<and> distinct ks"
  using unlisted_attempts [OF assms] by blast

text \<open>The answer to the first invitation is lost, the second waits for her acceptance.\<close>

definition grace_line :: "(user list \<times> user list \<times> delivery) list" where
  "grace_line = [([ada], [ada], Lost), ([ada], [ada], Delivered)]"

definition exact_search :: "string \<Rightarrow> user list \<Rightarrow> user list" where
  "exact_search e us = filter (\<lambda>u. us_email u = e) us"

definition count_key :: "directory \<Rightarrow> string" where
  "count_key d = replicate (length (dr_trace d)) (CHR ''k'')"

theorem retries_invite_again_witness:
  "\<forall>(sv :: directory svc) x. \<exists>rs c' j k.
     create_accounts (directory_server exact_search (\<lambda>q. ''t'') (sv\<lparr>sv_uuid := (\<lambda>d. (count_key d, d))\<rparr>)) (static_client ''secret'')
       [grace_profile, grace_profile]
       \<lparr>cn_cache = x, cn_rate_limit = None, cn_world = small_directory\<lparr>dr_line := line_of grace_line\<rparr>\<rparr> = (rs, c')
     \<and> own (dr_trace (cn_world c')) = [Lookup ''grace'', Invitation (grace_request\<lparr>cu_idempotency_key := j\<rparr>),
          Lookup ''grace'', Invitation (grace_request\<lparr>cu_idempotency_key := k\<rparr>)] \<and> j \<noteq> k"
proof (intro allI)
  fix sv :: "directory svc" and x
  let ?sv = "sv\<lparr>sv_uuid := (\<lambda>d. (count_key d, d))\<rparr>" and ?task = "\<lambda>q. ''t''"
  let ?c = "\<lparr>cn_cache = x, cn_rate_limit = None, cn_world = small_directory\<lparr>dr_line := line_of grace_line\<rparr>\<rparr>"
  have keys: "valid_utf8 (count_key d)" "length (count_key d) = length (dr_trace d)" for d
    by (auto simp: count_key_def ascii_def list_all_iff intro!: valid_utf8_ascii)
  have "fresh_keys ?sv"
  proof -
    have "count_key d \<noteq> count_key d'" if "length (dr_trace d) \<noteq> length (dr_trace d')" for d d'
      using that keys(2) [of d] keys(2) [of d'] by force
    then show ?thesis by (simp add: fresh_keys_def)
  qed
  moreover have "''secret'' \<noteq> []" "makes_keys ?sv" "members_only exact_search" "names_tasks ?task" "directory_ok (cn_world ?c)"
    "profile_request grace_profile = Inr grace_request" "text_request grace_request"
    "dr_line (cn_world ?c) = line_of grace_line" "unlisted_line (sv_unicode ?sv) exact_search (cu_email grace_request) grace_line"
    using small_utf8 keys(1) valid_utf8_ascii [of "''t''"]
    by (auto simp: makes_keys_def members_only_def names_tasks_def directory_ok_def small_directory_def text_user_def
        ada_def zero_user_def grace_profile_request text_request_def grace_request_def exact_search_def
        line_of_def grace_line_def unlisted_line_def with_email_def)
  ultimately obtain rs c' ks where
    "create_accounts (directory_server exact_search ?task ?sv) (static_client ''secret'') (replicate (length grace_line) grace_profile) ?c = (rs, c')"
    "own (dr_trace (cn_world c')) = own (dr_trace (cn_world ?c)) @ invitations_with grace_request ks" "length ks = length grace_line" "distinct ks"
    using retries_invite_again [of "''secret''" ?sv exact_search ?task ?c grace_profile grace_request grace_line] by blast
  moreover obtain j k where "ks = [j, k]"
    using \<open>length ks = length grace_line\<close> by (auto simp: grace_line_def length_Suc_conv)
  ultimately show "\<exists>rs c' j k. create_accounts (directory_server exact_search ?task ?sv) (static_client ''secret'') [grace_profile, grace_profile] ?c = (rs, c')
     \<and> own (dr_trace (cn_world c')) = [Lookup ''grace'', Invitation (grace_request\<lparr>cu_idempotency_key := j\<rparr>),
          Lookup ''grace'', Invitation (grace_request\<lparr>cu_idempotency_key := k\<rparr>)] \<and> j \<noteq> k"
    by (intro exI [of _ rs] exI [of _ c'] exI [of _ j] exI [of _ k])
      (simp add: grace_line_def small_directory_def invitations_with_def grace_request_def)
qed

end
