(* ===== verification/Config_Gen.thy ===== *)
theory Config_Gen
  imports Config_Main
begin

text \<open>
  \<open>src/pkg/config/gen/gen.go\<close> and the struct of \<open>src/pkg/config/conf.gen.go\<close>: the generator of the SDK
  makes a struct from the fields of the configuration, and the file in the repository is its result. What
  is modelled of a generated file is its struct; the getters are the same for every struct and are those of
  \<open>Config_Main\<close>.
\<close>

section \<open>Names and types\<close>

text \<open>\<open>toPascalCase\<close>, for words of ASCII characters: title case is a capital and small letters.\<close>

fun kebab_words :: "string \<Rightarrow> string list" where
  "kebab_words [] = [[]]"
| "kebab_words (c # s) =
     (if c = CHR ''-'' then [] # kebab_words s
      else (case kebab_words s of [] \<Rightarrow> [[c]] | w # ws \<Rightarrow> (c # w) # ws))"

definition title_word :: "string \<Rightarrow> string" where
  "title_word w = (case w of [] \<Rightarrow> [] | c # s \<Rightarrow> upper_byte c # map lower_byte s)"

definition to_pascal_case :: "string \<Rightarrow> string" where
  "to_pascal_case s = concat (map title_word (kebab_words s))"

definition go_type_for_field :: "config_field \<Rightarrow> string" where
  "go_type_for_field f =
     (case cf_variant f of
        StringVariant \<Rightarrow> if cf_web_type f = Some FileUpload then ''[]byte'' else ''string''
      | BoolVariant \<Rightarrow> ''bool'')"

section \<open>The generator\<close>

record field_info =
  fi_name :: string
  fi_type :: string
  fi_tag :: string

record struct_info =
  si_name :: string
  si_fields :: "field_info list"

definition exported :: "config_field \<Rightarrow> bool" where
  "exported f = (cf_export_target f \<in> {ExportTargetGUI, ExportTargetOps, ExportTargetCLIOnly})"

definition field_info_of :: "config_field \<Rightarrow> field_info" where
  "field_info_of f =
     \<lparr>fi_name = (if cf_struct_field_name f = [] then to_pascal_case (cf_name f) else cf_struct_field_name f),
      fi_type = go_type_for_field f, fi_tag = cf_name f\<rparr>"

definition generate :: "string \<Rightarrow> configuration \<Rightarrow> gerror + struct_info" where
  "generate n schema =
     (if n = [] then Inl (Panicked [S ''name cannot be empty''])
      else if cg_fields schema = [] then Inl (Panicked [S ''schema must contain at least one field''])
      else if length (filter fg_default (cg_groups schema)) > 1
      then Inl (Panicked [S ''schema must not contain more than one default field group''])
      else Inr \<lparr>si_name = to_pascal_case n, si_fields = map field_info_of (filter exported (cg_fields schema))\<rparr>)"

definition gen_main :: "gerror + struct_info" where
  "gen_main = generate ''ramp'' ramp_configuration"

section \<open>The generated file\<close>

definition ramp_struct :: struct_info where
  "ramp_struct =
     \<lparr>si_name = ''Ramp'',
      si_fields =
       [\<lparr>fi_name = ''Token'', fi_type = ''string'', fi_tag = ''token''\<rparr>,
        \<lparr>fi_name = ''RampClientId'', fi_type = ''string'', fi_tag = ''ramp-client-id''\<rparr>,
        \<lparr>fi_name = ''RampClientSecret'', fi_type = ''string'', fi_tag = ''ramp-client-secret''\<rparr>,
        \<lparr>fi_name = ''RampBaseUrl'', fi_type = ''string'', fi_tag = ''ramp-base-url''\<rparr>,
        \<lparr>fi_name = ''AuditLogEvents'', fi_type = ''bool'', fi_tag = ''audit-log-events''\<rparr>]\<rparr>"

section \<open>Properties\<close>

definition value_type :: "any_value \<Rightarrow> string" where
  "value_type v = (case v of AnyString _ \<Rightarrow> ''string'' | AnyBool _ \<Rightarrow> ''bool'')"

lemma generated: "gen_main = Inr ramp_struct"
  by code_simp

lemma tags_found:
  "list_all (\<lambda>i. map_option value_type (find_field_by_tag cc (fi_tag i)) = Some (fi_type i)) (si_fields ramp_struct)"
  by (simp add: ramp_struct_def find_field_by_tag_def value_type_def)

text \<open>A getter of the declared type of a field never panics, and so validation does not.\<close>

lemma validate_field_total:
  assumes "f \<in> set (cg_fields ramp_configuration)"
  shows "is_ok (validate_field cc f)"
proof -
  have "list_all (\<lambda>f. is_ok (validate_field cc f)) (cg_fields ramp_configuration)"
    by (simp add: config_field_defs validate_field_def get_string_def get_bool_def find_field_by_tag_def)
  with assms show ?thesis by (simp add: list_all_iff)
qed

text \<open>C27: The generated configuration struct in the repository is what the generator makes of the declared
  fields: the same fields in the same order, with their names, types and tags. Every tag finds a value of
  its type in the struct, and so no validation of a configuration, for any authentication method, ends in
  the panic of a getter of the wrong type.\<close>

theorem generated_struct_is_current:
  "gen_main = Inr ramp_struct
   \<and> list_all (\<lambda>i. map_option value_type (find_field_by_tag cc (fi_tag i)) = Some (fi_type i)) (si_fields ramp_struct)
   \<and> list_all (\<lambda>f. find_field_by_tag cc (cf_name f) \<noteq> None) (cg_fields ramp_configuration)
   \<and> (case validate_config cc auth of Inl e \<Rightarrow> \<not> is_panic e | Inr _ \<Rightarrow> True)"
proof -
  have "list_all (\<lambda>f. find_field_by_tag cc (cf_name f) \<noteq> None) (cg_fields ramp_configuration)"
    by (simp add: config_field_defs find_field_by_tag_def)
  moreover have "case validate_config cc auth of Inl e \<Rightarrow> \<not> is_panic e | Inr _ \<Rightarrow> True"
  proof -
    let ?fs = "filter (\<lambda>f. cf_name f \<in> cf_name ` set (group_fields auth)) (cg_fields ramp_configuration)"
    have "\<exists>ess. map_res (validate_field cc) ?fs = Inr ess"
    proof (cases "map_res (validate_field cc) ?fs")
      case (Inl e)
      then obtain us f vs where "?fs = us @ f # vs" "validate_field cc f = Inl e" unfolding map_res_Inl_iff by blast
      then have "f \<in> set ?fs" "validate_field cc f = Inl e" by (metis in_set_conv_decomp)+
      with validate_field_total [of f cc] show ?thesis by (simp add: is_ok_iff)
    qed simp
    then show ?thesis by (auto simp: validate_config_def missing_fields_error_def)
  qed
  ultimately show ?thesis using generated tags_found by simp
qed

end
