(* ===== verification/Spec2Isabelle.thy ===== *)
theory Spec2Isabelle
  imports Agreement_Claims Owner_Line Owner_Interleaving User_Claims Client_Answers Connector_Claims
    Feed_Order Feed_Limits Whole_Sync Main_Claims Account_Claims Config_Gen
begin

text \<open>
  Verification library of the Ramp connector (baton-ramp), a Go program that reads the users, roles,
  vendors and vendor agreements of a Ramp business over its HTTP API, hands them as resources and grants
  to a platform, writes some of them back (accounts, the owner of a vendor, the state of a user) and
  follows Ramp's audit log as a feed of change events.

  \<^bold>\<open>The program and its theories.\<close> A call comes from the platform to a syncer, an action or the feed
  (\<open>src/pkg/connector\<close>), goes as one or two requests through the client (\<open>src/pkg/client\<close>), and its
  answer comes back as a value or an error with annotations. The theories follow that path from below.

  \<^item> \<open>Prelude\<close>: fallible values (\<open>Inl\<close> an error, \<open>Inr\<close> a value), the loop that stops at the first error,
    generic lemmas.
  \<^item> \<open>Go_Strings\<close>, \<open>Go_Utf8\<close>, \<open>Go_Time\<close>, \<open>Go_Float\<close>, \<open>Go_Json\<close>, \<open>Go_Url\<close>, \<open>Go_Errors\<close>: what the
    connector uses of Go's library. Strings are byte strings; times are nanoseconds with a zone offset;
    \<open>float64\<close> is a mantissa and an exponent, rounded as the format rounds; JSON is parsed, printed and
    decoded into records the way \<open>encoding/json\<close> does it (keys up to case, \<open>null\<close>, repeated members);
    errors form trees with the chain that \<open>errors.As\<close> and \<open>status.FromError\<close> walk.
  \<^item> \<open>Sdk\<close>, \<open>Resource_Types\<close>, \<open>Uhttp\<close>: the vendored SDK as far as it is called: resources, traits, grants,
    annotations (\<open>resource_types.go\<close> on top of them), and the request path of \<open>uhttp\<close> with its response
    cache, options, rate limits and the classification of token failures. The outside world is a record
    \<open>svc\<close>: the wire, a clock, random identifiers and Unicode tables are functions in it, acting on an
    abstract world of type \<open>'w\<close>; \<open>conn\<close> is the state of a connection: cache, rate limit field and world.
  \<^item> \<open>Token_Scope\<close> (\<open>token_scope.go\<close>), \<open>Ramp_Client\<close> (\<open>client.go\<close>, \<open>helpers.go\<close>), \<open>Ramp_Models\<close>
    (\<open>models.go\<close>, \<open>vm_models.go\<close>), \<open>Ramp_Api\<close> (\<open>users.go\<close>, \<open>vendors.go\<close>, \<open>agreements.go\<close>,
    \<open>audit_log.go\<close> of the client): the token of a request, the one path all requests take, the shapes
    with their decoders, and one definition per method.
  \<^item> \<open>Users\<close>, \<open>Roles\<close>, \<open>Vendors\<close>, \<open>Agreements\<close>, with \<open>Owner_Cache\<close>: the four syncers; \<open>Audit_Feed\<close>:
    the event feed; \<open>Connector\<close> (\<open>connector.go\<close>, \<open>actions.go\<close>): options, what is offered, validation,
    actions; \<open>Config_Main\<close> (\<open>src/pkg/config\<close>, \<open>getConnector\<close> of \<open>main.go\<close>); \<open>Main_Program\<close> (\<open>main\<close> and
    \<open>authselect.go\<close>): a start of the program, with the store of values the SDK's command line reads and the
    part of its main command that leads to the connector; \<open>Config_Gen\<close> (\<open>src/pkg/config/gen\<close>): the generator of
    the configuration struct.
  \<^item> \<open>Owner_Interleaving\<close>: the locked steps in which concurrent listings use one cache of owners, and their
    interleavings as an inductive relation.
  \<^item> \<open>Follow\<close>: a client that follows pages until there is no next one, as the platform does, for any
    call that answers with a page and a token; \<open>Full_Sync\<close>, \<open>Sync_Claims\<close>, \<open>Whole_Sync\<close> run it on the
    syncers, and over every syncer a connector offers, against the server of \<open>Site_Server\<close>; \<open>Feed_Ends\<close>
    runs it on the calls of the feed.
  \<^item> \<open>Account_Book\<close>, \<open>Account_Server\<close>, \<open>Account_Claims\<close>: account creation as a protocol, with a monitor of what
    the directory of users gets, and the client's calls against a directory that makes a task of an
    invitation, lists whom it wants before any request, and is reached over a line that loses requests and answers.
  \<^item> \<open>Owner_Register\<close>, \<open>Owner_Line\<close>: the machine of owners, and the runs of Grant and Revoke as runs of it over
    such a line.
  \<^item> \<open>Feed_Loop\<close>, \<open>Feed_Polls\<close>, \<open>Feed_Calls\<close>, \<open>Feed_Order\<close>, \<open>Feed_Limits\<close>, \<open>Ramp_Server\<close>, \<open>Sample_Pages\<close> and the
    theories \<open>..._Claims\<close> and \<open>Client_Answers\<close>: lemmas and properties, and the sample servers and pages
    on which their witnesses run.

  \<^bold>\<open>What is shown.\<close> Of the feed: one page gives exactly the new events in order; a poll over pages that get
  strictly older delivers everything new and ends, and no later call delivers any of it again, whatever
  pages it is shown; every token the platform can hold decodes, whatever happened between the calls (an
  inductive set of tokens); the cursor round-trips; over a history of polls on a log that grows, every event
  is delivered exactly once, and where pages are only not newer, nothing but ties at the floor can be lost;
  the calls of a poll end at the first old page even if the server never runs out of them.
  Of the syncers: a page gives the resources of exactly what was listed; which vendors, agreements and users
  are usable and with which values; a sync of everything, page after page and one
  kind after the other, ends and gives every resource and every grant the server holds, each once, whatever
  the size of the pages, also when the grants are asked for after the listing; the caches of owners, through
  the interface \<open>owner_cache\<close>, hold after any listing what was listed last, and stay sound however
  concurrent listings interleave. Of the writes: runs of \<open>vendor_grant\<close> and \<open>vendor_revoke\<close> refine a machine
  that only knows who owns what, step by step through the locale \<open>owner_service\<close>, also when requests or
  answers are lost; account creation looks up first, and however often it is repeated, with lost answers,
  cached pages and a directory that changes in between, an invitation is sent only when its own lookup found
  nobody with the email; the actions report their request. Of the client: which token a request carries,
  the status an answer or a refused token becomes, what messages may contain, what the cache remembers,
  that reads need the read scopes only,
  that list parameters, batches and shapes of lists do not change what is read. Of the whole: which
  configurations give which connector, that a start of the program runs it or exits with the error,
  that the generated configuration struct is the one of the declared fields, and that events only speak of
  what is synced.

  Some properties state where the code does not do what it says: an owner removed right after it was set,
  behind the response cache; an unseen event with the time of the floor behind the early stop; a \<open>null\<close>
  among the events of a batch; zones the parser takes and the printer refuses; a description that the first
  classification hides and the second shows; OAuth credentials given as flags, which the choice of the
  method does not see; a new idempotency key for every attempt to invite the same user.

  \<^bold>\<open>Interfaces.\<close> \<open>owner_cache\<close> (the caches of the vendor and the agreement syncer), \<open>owner_service\<close>
  (calls that change the owner of a vendor), \<open>account_book\<close> (the client's lookup and invitation of a user),
  \<open>paged_source\<close> (a call that answers page and token from a state: when it ends and what it collects) and
  its extension \<open>listing\<close> (the pages of a list), each interpreted on the model's own definitions: the
  client's calls, the feed's calls, and the four syncers' listings.

  \<^bold>\<open>Bounds and fuel.\<close> The JSON parser runs on fuel that is the length of its text; the round trip shows it
  is enough for every printed value up to Go's nesting limit \<open>max_nesting\<close>. The mantissa of a float is
  stripped of zeros with its number of digits as fuel. Following pages may not end, as a server may name a
  next page for ever: \<open>follow\<close> is a \<open>partial_function (option)\<close> and \<open>None\<close> means that it does not return;
  that it does return is what the termination properties prove. All other loops are structural recursions
  over the page or the string. Times are unbounded in the model as far as the parser admits them (years 0 to 9999).

  \<^bold>\<open>Not modelled.\<close> Interleavings of concurrent calls other than those on an owner cache (elsewhere a
  call is one step), logging and metrics (the body of a failed reply that the client logs is a value,
  \<open>log_body\<close>), redirects (the answer of the wire is final), the token cache of the OAuth library (a token
  source is any function on the world). Of the SDK's command line, the flags it declares itself beside the
  method, its check of required flags and groups of flags, and the runner of the connector are parameters of
  \<open>ramp_main\<close>, and its shorthands, arguments that are not flags and flags that gather several values are
  left out. Further: how strict \<open>Time.UnmarshalJSON\<close> is about times in tokens the connector did not print,
  the printing of the generated file through its template, the lint rules under \<open>src/tools\<close> and the tests.
\<close>

end
